(* ===== verification/Prelude.thy ===== *)
theory Prelude
  imports Complex_Main "HOL-Library.AList"
begin

text \<open>
  Shared vocabulary of the development: JavaScript values the program computes with
  (thrown errors, numbers, insertion-ordered maps, strings), the effect monad in which the
  executors are written, and the lemma collections the component theories draw on.

  A TypeScript \<open>async\<close> function becomes a function of type \<open>('w, 'a) M\<close>: it takes the world
  \<open>'w\<close> (the repository, the user's reader/processor/writer state, whatever an instance
  chooses), and returns an outcome together with the world it leaves behind. \<open>await\<close> is
  \<open>bindM\<close>; a rejected promise or a \<open>throw\<close> is the outcome \<open>Throw\<close>; \<open>try/catch\<close> is
  \<open>catchM\<close>. A loop that may run for ever takes fuel and answers \<open>OutOfFuel\<close>, which
  \<open>catchM\<close> does not intercept, so that running out of fuel is never mistaken for an error
  the program handles.
\<close>

section \<open>Lemma collections\<close>

named_theorems monad_simps \<open>equations that run the effect monad\<close>
named_theorems preserves_intros \<open>introduction rules for invariants of effectful code\<close>
named_theorems total_intros \<open>introduction rules for code that never runs out of fuel\<close>
named_theorems error_simps \<open>the error constructors, unfolded\<close>

section \<open>Thrown values\<close>

text \<open>
  A thrown value is an \<open>Error\<close> object (its prototype chain, most derived class first, the
  \<open>code\<close> field of the batch errors, empty when the class has none, and its message) or any
  other value, of which only \<open>String(value)\<close> is ever observed.
\<close>

datatype exn =
    ErrorObj (errorClasses: "string list") (errorCode: string) (errorMessage: string)
  | ThrownValue (thrownText: string)

definition plainError :: "string \<Rightarrow> exn" where
  "plainError msg = ErrorObj [''Error''] [] msg"

definition typeError :: "string \<Rightarrow> exn" where
  "typeError msg = ErrorObj [''TypeError'', ''Error''] [] msg"

text \<open>\<open>err instanceof Error ? err.message : String(err)\<close>, the text every executor persists.\<close>

fun errorText :: "exn \<Rightarrow> string" where
  "errorText (ErrorObj cs c m) = m"
| "errorText (ThrownValue s) = s"

fun isErrorClass :: "string \<Rightarrow> exn \<Rightarrow> bool" where
  "isErrorClass c (ErrorObj cs _ _) = (c \<in> set cs)"
| "isErrorClass c (ThrownValue _) = False"

section \<open>The effect monad\<close>

datatype 'a outcome = Value 'a | Throw exn | OutOfFuel

type_synonym ('w, 'a) M = "'w \<Rightarrow> 'a outcome \<times> 'w"

definition returnM :: "'a \<Rightarrow> ('w, 'a) M" where
  "returnM x = (\<lambda>w. (Value x, w))"

definition throwM :: "exn \<Rightarrow> ('w, 'a) M" where
  "throwM e = (\<lambda>w. (Throw e, w))"

definition outOfFuelM :: "('w, 'a) M" where
  "outOfFuelM = (\<lambda>w. (OutOfFuel, w))"

definition settleM :: "'a outcome \<Rightarrow> ('w, 'a) M" where
  "settleM r = (\<lambda>w. (r, w))"

definition bindM :: "('w, 'a) M \<Rightarrow> ('a \<Rightarrow> ('w, 'b) M) \<Rightarrow> ('w, 'b) M" where
  "bindM m f = (\<lambda>w. case m w of
      (Value x, w') \<Rightarrow> f x w'
    | (Throw e, w') \<Rightarrow> (Throw e, w')
    | (OutOfFuel, w') \<Rightarrow> (OutOfFuel, w'))"

definition catchM :: "('w, 'a) M \<Rightarrow> (exn \<Rightarrow> ('w, 'a) M) \<Rightarrow> ('w, 'a) M" where
  "catchM m h = (\<lambda>w. case m w of
      (Throw e, w') \<Rightarrow> h e w'
    | r \<Rightarrow> r)"

definition thenM :: "('w, 'a) M \<Rightarrow> ('w, 'b) M \<Rightarrow> ('w, 'b) M" where
  "thenM m n = bindM m (\<lambda>_. n)"

definition getM :: "('w \<Rightarrow> 'a) \<Rightarrow> ('w, 'a) M" where
  "getM f = (\<lambda>w. (Value (f w), w))"

definition modifyM :: "('w \<Rightarrow> 'w) \<Rightarrow> ('w, unit) M" where
  "modifyM f = (\<lambda>w. (Value (), f w))"

fun forEachM :: "'a list \<Rightarrow> ('a \<Rightarrow> ('w, unit) M) \<Rightarrow> ('w, unit) M" where
  "forEachM [] f = returnM ()"
| "forEachM (x # xs) f = thenM (f x) (forEachM xs f)"

fun mapListM :: "('a \<Rightarrow> ('w, 'b) M) \<Rightarrow> 'a list \<Rightarrow> ('w, 'b list) M" where
  "mapListM f [] = returnM []"
| "mapListM f (x # xs) = bindM (f x) (\<lambda>y. bindM (mapListM f xs) (\<lambda>ys. returnM (y # ys)))"

text \<open>Running a computation on a component of a larger state.\<close>

definition zoomM :: "('s \<Rightarrow> 'w) \<Rightarrow> ('w \<Rightarrow> 's \<Rightarrow> 's) \<Rightarrow> ('w, 'a) M \<Rightarrow> ('s, 'a) M" where
  "zoomM get put m = (\<lambda>s. case m (get s) of (r, w') \<Rightarrow> (r, put w' s))"

lemma returnM_apply [simp, monad_simps]: "returnM x w = (Value x, w)"
  by (simp add: returnM_def)

lemma throwM_apply [simp, monad_simps]: "throwM e w = (Throw e, w)"
  by (simp add: throwM_def)

lemma outOfFuelM_apply [simp, monad_simps]: "outOfFuelM w = (OutOfFuel, w)"
  by (simp add: outOfFuelM_def)

lemma settleM_apply [simp, monad_simps]: "settleM r w = (r, w)"
  by (simp add: settleM_def)

lemma getM_apply [simp, monad_simps]: "getM f w = (Value (f w), w)"
  by (simp add: getM_def)

lemma modifyM_apply [simp, monad_simps]: "modifyM f w = (Value (), f w)"
  by (simp add: modifyM_def)

lemma bindM_Value [simp]: "m w = (Value x, w') \<Longrightarrow> bindM m f w = f x w'"
  by (simp add: bindM_def)

lemma bindM_Value_False [simp]: "m w = (Value False, w') \<Longrightarrow> bindM m f w = f False w'"
  by (simp add: bindM_def)

lemma bindM_Throw [simp]: "m w = (Throw e, w') \<Longrightarrow> bindM m f w = (Throw e, w')"
  by (simp add: bindM_def)

lemma bindM_OutOfFuel [simp]: "m w = (OutOfFuel, w') \<Longrightarrow> bindM m f w = (OutOfFuel, w')"
  by (simp add: bindM_def)

lemma catchM_Value [simp]: "m w = (Value x, w') \<Longrightarrow> catchM m h w = (Value x, w')"
  by (simp add: catchM_def)

lemma catchM_Throw [simp]: "m w = (Throw e, w') \<Longrightarrow> catchM m h w = h e w'"
  by (simp add: catchM_def)

lemma catchM_OutOfFuel [simp]: "m w = (OutOfFuel, w') \<Longrightarrow> catchM m h w = (OutOfFuel, w')"
  by (simp add: catchM_def)

lemma thenM_Value [simp]: "m w = (Value x, w') \<Longrightarrow> thenM m n w = n w'"
  by (simp add: thenM_def)

lemma thenM_Throw [simp]: "m w = (Throw e, w') \<Longrightarrow> thenM m n w = (Throw e, w')"
  by (simp add: thenM_def)

lemma bindM_returnM [simp, monad_simps]: "bindM (returnM x) f = f x"
  by (rule ext) (simp add: bindM_def)

lemma bindM_throwM [simp, monad_simps]: "bindM (throwM e) f = throwM e"
  by (rule ext) (simp add: bindM_def)

lemma catchM_returnM [simp, monad_simps]: "catchM (returnM x) h = returnM x"
  by (rule ext) (simp add: catchM_def)

lemma catchM_throwM [simp, monad_simps]: "catchM (throwM e) h = h e"
  by (rule ext) (simp add: catchM_def)

lemma thenM_returnM [simp, monad_simps]: "thenM (returnM x) n = n"
  by (rule ext) (simp add: thenM_def)

lemma bindM_assoc: "bindM (bindM m f) g = bindM m (\<lambda>x. bindM (f x) g)"
  by (rule ext) (simp add: bindM_def split: prod.splits outcome.splits)

lemma bindM_cases:
  assumes "bindM m f w = (r, w'')"
  obtains x w' where "m w = (Value x, w')" "f x w' = (r, w'')"
    | e where "m w = (Throw e, w'')" "r = Throw e"
    | "m w = (OutOfFuel, w'')" "r = OutOfFuel"
  using assms by (auto simp: bindM_def split: prod.splits outcome.splits)

lemma bindM_Value_elim:
  assumes "bindM m f w = (Value y, w'')"
  obtains x w' where "m w = (Value x, w')" "f x w' = (Value y, w'')"
  using assms by (auto simp: bindM_def split: prod.splits outcome.splits)

lemma catchM_Value_elim:
  assumes "catchM m h w = (Value y, w'')"
  obtains "m w = (Value y, w'')"
    | e w' where "m w = (Throw e, w')" "h e w' = (Value y, w'')"
  using assms by (auto simp: catchM_def split: prod.splits outcome.splits)

section \<open>Invariants of effectful code\<close>

text \<open>
  \<open>preserves P m\<close>: whatever the outcome, \<open>m\<close> leaves \<open>P\<close> true. \<open>terminates m\<close>: \<open>m\<close>
  never runs out of fuel. \<open>neverThrows m\<close>: \<open>m\<close> always resolves.
\<close>

definition preserves :: "('w \<Rightarrow> bool) \<Rightarrow> ('w, 'a) M \<Rightarrow> bool" where
  "preserves P m \<longleftrightarrow> (\<forall>w. P w \<longrightarrow> P (snd (m w)))"

definition terminates :: "('w, 'a) M \<Rightarrow> bool" where
  "terminates m \<longleftrightarrow> (\<forall>w. fst (m w) \<noteq> OutOfFuel)"

definition neverThrows :: "('w, 'a) M \<Rightarrow> bool" where
  "neverThrows m \<longleftrightarrow> (\<forall>w e. fst (m w) \<noteq> Throw e)"

lemma preservesD: "preserves P m \<Longrightarrow> P w \<Longrightarrow> m w = (r, w') \<Longrightarrow> P w'"
  by (auto simp: preserves_def dest!: spec [where x = w])

lemma preserves_returnM [preserves_intros]: "preserves P (returnM x)"
  by (simp add: preserves_def)

lemma preserves_throwM [preserves_intros]: "preserves P (throwM e)"
  by (simp add: preserves_def)

lemma preserves_outOfFuelM [preserves_intros]: "preserves P outOfFuelM"
  by (simp add: preserves_def)

lemma preserves_settleM [preserves_intros]: "preserves P (settleM r)"
  by (simp add: preserves_def)

lemma preserves_getM [preserves_intros]: "preserves P (getM f)"
  by (simp add: preserves_def)

lemma preserves_bindM [preserves_intros]:
  "preserves P m \<Longrightarrow> (\<And>x. preserves P (f x)) \<Longrightarrow> preserves P (bindM m f)"
  unfolding preserves_def bindM_def
  by (fastforce split: prod.splits outcome.splits)

lemma preserves_catchM [preserves_intros]:
  "preserves P m \<Longrightarrow> (\<And>e. preserves P (h e)) \<Longrightarrow> preserves P (catchM m h)"
  unfolding preserves_def catchM_def
  by (fastforce split: prod.splits outcome.splits)

lemma preserves_thenM [preserves_intros]:
  "preserves P m \<Longrightarrow> preserves P n \<Longrightarrow> preserves P (thenM m n)"
  unfolding thenM_def by (intro preserves_bindM)

lemma preserves_forEachM [preserves_intros]:
  "(\<And>x. x \<in> set xs \<Longrightarrow> preserves P (f x)) \<Longrightarrow> preserves P (forEachM xs f)"
  by (induction xs) (auto intro!: preserves_intros)

lemma terminates_returnM [total_intros]: "terminates (returnM x)"
  by (simp add: terminates_def)

lemma terminates_throwM [total_intros]: "terminates (throwM e)"
  by (simp add: terminates_def)

lemma terminates_getM [total_intros]: "terminates (getM f)"
  by (simp add: terminates_def)

lemma terminates_modifyM [total_intros]: "terminates (modifyM f)"
  by (simp add: terminates_def)

lemma terminates_bindM [total_intros]:
  "terminates m \<Longrightarrow> (\<And>x. terminates (f x)) \<Longrightarrow> terminates (bindM m f)"
  unfolding terminates_def bindM_def
  by (auto split: prod.splits outcome.splits) (metis fst_conv)+

lemma terminates_catchM [total_intros]:
  "terminates m \<Longrightarrow> (\<And>e. terminates (h e)) \<Longrightarrow> terminates (catchM m h)"
  unfolding terminates_def catchM_def
  by (auto split: prod.splits outcome.splits) (metis fst_conv)+

lemma terminates_thenM [total_intros]:
  "terminates m \<Longrightarrow> terminates n \<Longrightarrow> terminates (thenM m n)"
  unfolding thenM_def by (intro terminates_bindM)

lemma terminates_forEachM [total_intros]:
  "(\<And>x. x \<in> set xs \<Longrightarrow> terminates (f x)) \<Longrightarrow> terminates (forEachM xs f)"
  by (induction xs) (auto intro!: total_intros)

section \<open>Pre- and postconditions\<close>

text \<open>
  \<open>triple P m Q E\<close>: from a world with \<open>P\<close>, \<open>m\<close> ends, with \<open>Q\<close> of its value or \<open>E\<close> of its
  error and the world it leaves. The rules run over the code in order.
\<close>

definition triple :: "('w \<Rightarrow> bool) \<Rightarrow> ('w, 'a) M \<Rightarrow> ('a \<Rightarrow> 'w \<Rightarrow> bool) \<Rightarrow> (exn \<Rightarrow> 'w \<Rightarrow> bool) \<Rightarrow> bool" where
  "triple P m Q E \<longleftrightarrow> (\<forall>w. P w \<longrightarrow> (\<exists>x w'. m w = (Value x, w') \<and> Q x w') \<or> (\<exists>e w'. m w = (Throw e, w') \<and> E e w'))"

lemma tripleI:
  "(\<And>w. P w \<Longrightarrow> (\<exists>x w'. m w = (Value x, w') \<and> Q x w') \<or> (\<exists>e w'. m w = (Throw e, w') \<and> E e w'))
    \<Longrightarrow> triple P m Q E"
  by (simp add: triple_def)

lemma tripleE:
  assumes "triple P m Q E" "P w"
  obtains (Value) x w' where "m w = (Value x, w')" "Q x w'" | (Throw) e w' where "m w = (Throw e, w')" "E e w'"
  using assms unfolding triple_def by blast

lemma triple_bindM:
  assumes m: "triple P m R E" and f: "\<And>x. triple (R x) (f x) Q E"
  shows "triple P (bindM m f) Q E"
proof (rule tripleI)
  fix w assume "P w"
  with m show "(\<exists>x w'. bindM m f w = (Value x, w') \<and> Q x w') \<or> (\<exists>e w'. bindM m f w = (Throw e, w') \<and> E e w')"
  proof (cases rule: tripleE)
    case (Value x w')
    from f Value(2) show ?thesis by (cases rule: tripleE) (use Value(1) in auto)
  qed auto
qed

lemma triple_thenM: "triple P m (\<lambda>_. R) E \<Longrightarrow> triple R n Q E \<Longrightarrow> triple P (thenM m n) Q E"
  unfolding thenM_def by (rule triple_bindM)

lemma triple_catchM:
  assumes m: "triple P m Q F" and h: "\<And>e. triple (F e) (h e) Q E"
  shows "triple P (catchM m h) Q E"
proof (rule tripleI)
  fix w assume "P w"
  with m show "(\<exists>x w'. catchM m h w = (Value x, w') \<and> Q x w') \<or> (\<exists>e w'. catchM m h w = (Throw e, w') \<and> E e w')"
  proof (cases rule: tripleE)
    case (Throw e w')
    from h Throw(2) show ?thesis by (cases rule: tripleE) (use Throw(1) in auto)
  qed auto
qed

lemma triple_returnM: "(\<And>w. P w \<Longrightarrow> Q x w) \<Longrightarrow> triple P (returnM x) Q E"
  by (simp add: triple_def)

lemma triple_throwM: "(\<And>w. P w \<Longrightarrow> E e w) \<Longrightarrow> triple P (throwM e) Q E"
  by (simp add: triple_def)

lemma triple_getM: "(\<And>w. P w \<Longrightarrow> Q (f w) w) \<Longrightarrow> triple P (getM f) Q E"
  by (simp add: triple_def)

lemma triple_settled [simp]:
  "triple P (Pair (Value x)) Q E \<longleftrightarrow> (\<forall>w. P w \<longrightarrow> Q x w)"
  "triple P (Pair (Throw e)) Q E \<longleftrightarrow> (\<forall>w. P w \<longrightarrow> E e w)"
  by (simp_all add: triple_def)

lemma triple_weaken:
  assumes "triple P' m Q' E'" "\<And>w. P w \<Longrightarrow> P' w" "\<And>x w. Q' x w \<Longrightarrow> Q x w" "\<And>e w. E' e w \<Longrightarrow> E e w"
  shows "triple P m Q E"
  using assms unfolding triple_def by blast

lemma triple_exists: "(\<And>x. triple (P x) m Q E) \<Longrightarrow> triple (\<lambda>w. \<exists>x. P x w) m Q E"
  unfolding triple_def by blast

lemma triple_pure: "(A \<Longrightarrow> triple P m Q E) \<Longrightarrow> triple (\<lambda>w. A \<and> P w) m Q E"
  unfolding triple_def by blast

section \<open>JavaScript numbers\<close>

text \<open>
  A \<open>number\<close> is a finite value or one of the three special ones. Finite values are
  rationals: exact, where the program's doubles round beyond \<open>2 ^ 53\<close>. Comparisons with
  NaN are false, as in the language.
\<close>

datatype number = Fin rat | NaN | PosInf | NegInf

fun isFiniteNumber :: "number \<Rightarrow> bool" where
  "isFiniteNumber (Fin _) = True"
| "isFiniteNumber _ = False"

fun isIntegerNumber :: "number \<Rightarrow> bool" where
  "isIntegerNumber (Fin q) = (of_int \<lfloor>q\<rfloor> = q)"
| "isIntegerNumber _ = False"

fun numLess :: "number \<Rightarrow> number \<Rightarrow> bool" where
  "numLess (Fin a) (Fin b) = (a < b)"
| "numLess NegInf (Fin _) = True"
| "numLess NegInf PosInf = True"
| "numLess (Fin _) PosInf = True"
| "numLess _ _ = False"

fun numLessEq :: "number \<Rightarrow> number \<Rightarrow> bool" where
  "numLessEq (Fin a) (Fin b) = (a \<le> b)"
| "numLessEq NegInf b = (b \<noteq> NaN)"
| "numLessEq a PosInf = (a \<noteq> NaN)"
| "numLessEq _ _ = False"

section \<open>Insertion-ordered maps\<close>

text \<open>
  A JavaScript \<open>Map\<close> iterates in insertion order and \<open>set\<close> on a present key keeps its
  place: an association list with \<open>AList.update\<close>. A plain object used as a dictionary is
  the same list in the order of \<open>Object.keys\<close>.
\<close>

type_synonym ('k, 'v) jsmap = "('k \<times> 'v) list"

abbreviation mapGet :: "('k, 'v) jsmap \<Rightarrow> 'k \<Rightarrow> 'v option" where
  "mapGet m k \<equiv> map_of m k"

abbreviation mapSet :: "'k \<Rightarrow> 'v \<Rightarrow> ('k, 'v) jsmap \<Rightarrow> ('k, 'v) jsmap" where
  "mapSet k v m \<equiv> AList.update k v m"

abbreviation mapKeys :: "('k, 'v) jsmap \<Rightarrow> 'k list" where
  "mapKeys m \<equiv> map fst m"

abbreviation mapValues :: "('k, 'v) jsmap \<Rightarrow> 'v list" where
  "mapValues m \<equiv> map snd m"

definition wfMap :: "('k, 'v) jsmap \<Rightarrow> bool" where
  "wfMap m \<longleftrightarrow> distinct (map fst m)"

lemma wfMap_Nil [simp]: "wfMap []"
  by (simp add: wfMap_def)

lemma wfMap_mapSet [simp, intro]: "wfMap m \<Longrightarrow> wfMap (mapSet k v m)"
  by (simp add: wfMap_def distinct_update)

lemma mapGet_mapSet [simp]: "mapGet (mapSet k v m) k' = (if k' = k then Some v else mapGet m k')"
  by (simp add: update_conv')

lemma mapSet_fresh: "mapGet m k = None \<Longrightarrow> mapSet k v m = m @ [(k, v)]"
  by (induction m) (auto split: if_splits)

lemma wfMap_in_values: "wfMap m \<Longrightarrow> v \<in> set (mapValues m) \<longleftrightarrow> (\<exists>k. mapGet m k = Some v)"
  by (force simp: wfMap_def)

lemma mapGet_in_values: "mapGet m k = Some v \<Longrightarrow> v \<in> set (mapValues m)"
  by (force dest: map_of_SomeD)

lemma set_mapSet_values: "v' \<in> set (mapValues (mapSet k v m)) \<Longrightarrow> v' = v \<or> v' \<in> set (mapValues m)"
  by (induction m) (auto split: if_splits)

lemma find_Some_in_set: "find P xs = Some x \<Longrightarrow> x \<in> set xs \<and> P x"
  by (induction xs) (auto split: if_splits)

lemma find_None_set: "find P xs = None \<longleftrightarrow> (\<forall>x \<in> set xs. \<not> P x)"
  by (induction xs) auto

section \<open>Strings\<close>

text \<open>
  A \<open>string\<close> holds UTF-16 code units below 256. \<open>startsWith\<close> and \<open>trimString\<close> are the
  library methods of that name; the white space they strip is the part of the language's
  white space that lies below 256.
\<close>

definition startsWith :: "string \<Rightarrow> string \<Rightarrow> bool" where
  "startsWith p s \<longleftrightarrow> take (length p) s = p"

definition isJsSpace :: "char \<Rightarrow> bool" where
  "isJsSpace c \<longleftrightarrow> of_char c \<in> {9, 10, 11, 12, 13, 32, 160 :: nat}"

definition trimString :: "string \<Rightarrow> string" where
  "trimString s = rev (dropWhile isJsSpace (rev (dropWhile isJsSpace s)))"

text \<open>A value between double quotes in a message, and \<open>Array.prototype.join\<close>.\<close>

definition inQuotes :: "string \<Rightarrow> string" where
  "inQuotes s = [CHR 0x22] @ s @ [CHR 0x22]"

fun joinWith :: "string \<Rightarrow> string list \<Rightarrow> string" where
  "joinWith sep [] = []"
| "joinWith sep [x] = x"
| "joinWith sep (x # xs) = x @ sep @ joinWith sep xs"

fun showNat :: "nat \<Rightarrow> string" where
  "showNat n = (if n < 10 then [char_of (48 + n)]
     else showNat (n div 10) @ [char_of (48 + n mod 10)])"

declare showNat.simps [simp del]

definition showInt :: "int \<Rightarrow> string" where
  "showInt i = (if i < 0 then ''-'' @ showNat (nat (- i)) else showNat (nat i))"

fun showNumber :: "number \<Rightarrow> string" where
  "showNumber (Fin q) = (if isIntegerNumber (Fin q) then showInt \<lfloor>q\<rfloor>
     else showInt (fst (quotient_of q)) @ ''/'' @ showInt (snd (quotient_of q)))"
| "showNumber NaN = ''NaN''"
| "showNumber PosInf = ''Infinity''"
| "showNumber NegInf = ''-Infinity''"

lemma startsWith_append [simp]: "startsWith p (p @ s)"
  by (simp add: startsWith_def)

lemma startsWith_iff: "startsWith p s \<longleftrightarrow> (\<exists>t. s = p @ t)"
  by (metis append_take_drop_id append_eq_conv_conj startsWith_def)

text \<open>Decimal rendering is injective: the generated identifiers rest on it.\<close>

fun readNat :: "string \<Rightarrow> nat" where
  "readNat s = foldl (\<lambda>acc c. 10 * acc + (of_char c - 48)) 0 s"

lemma readNat_showNat: "readNat (showNat n) = n"
proof (induction n rule: showNat.induct)
  case (1 n)
  show ?case
  proof (cases "n < 10")
    case True
    then show ?thesis by (simp add: showNat.simps [of n])
  next
    case False
    with 1 have "readNat (showNat (n div 10)) = n div 10" by simp
    with False show ?thesis by (simp add: showNat.simps [of n])
  qed
qed

lemma showNat_inject [simp]: "showNat m = showNat n \<longleftrightarrow> m = n"
  by (metis readNat_showNat)

lemma showNat_digits: "c \<in> set (showNat n) \<Longrightarrow> \<exists>d < (10 :: nat). c = char_of (48 + d)"
proof (induction n rule: showNat.induct)
  case (1 n)
  show ?case
  proof (cases "n < 10")
    case True
    with "1.prems" show ?thesis by (auto simp: showNat.simps [of n])
  next
    case False
    with 1 show ?thesis
      by (auto simp: showNat.simps [of n] intro: exI [of _ "n mod 10"])
  qed
qed

definition isDigit :: "char \<Rightarrow> bool" where
  "isDigit c \<longleftrightarrow> c \<in> set ''0123456789''"

lemma showNat_isDigit: "list_all isDigit (showNat n)"
proof -
  have "list_all (\<lambda>d. isDigit (char_of (48 + d))) [0..<10 :: nat]" by code_simp
  then have "isDigit (char_of (48 + d))" if "d < 10" for d :: nat
    using that by (simp add: list_all_iff)
  then show ?thesis using showNat_digits by (auto simp: list_all_iff)
qed

lemma minus_not_digit: "\<not> isDigit CHR ''-''"
  by (simp add: isDigit_def)

lemma showInt_inject [simp]: "showInt i = showInt j \<longleftrightarrow> i = j"
proof -
  have no: "showNat n \<noteq> CHR ''-'' # s" for n s
    using showNat_isDigit [of n] minus_not_digit by (auto simp: list_all_iff)
  show ?thesis
    by (auto simp: showInt_def no no [symmetric] dest: arg_cong [where f = int])
qed

section \<open>Optional values\<close>

text \<open>\<open>p ?? x\<close>, and a field of a patch spread over the row's field.\<close>

definition orKeep :: "'a option \<Rightarrow> 'a \<Rightarrow> 'a" where
  "orKeep p x = (case p of None \<Rightarrow> x | Some y \<Rightarrow> y)"

lemma orKeep_simps [simp]: "orKeep None x = x" "orKeep (Some y) x = y"
  by (simp_all add: orKeep_def)

section \<open>Checks\<close>

text \<open>
  A synchronous check that throws on the first violation is a value of \<open>exn + unit\<close>;
  \<open>thenCheck\<close> runs two in order and \<open>checkAll\<close> one per list element.
\<close>

fun thenCheck :: "exn + unit \<Rightarrow> exn + unit \<Rightarrow> exn + unit" where
  "thenCheck (Inl e) r = Inl e"
| "thenCheck (Inr _) r = r"

fun checkAll :: "('a \<Rightarrow> exn + unit) \<Rightarrow> 'a list \<Rightarrow> exn + unit" where
  "checkAll f [] = Inr ()"
| "checkAll f (x # xs) = thenCheck (f x) (checkAll f xs)"

lemma thenCheck_Inr_iff [simp]: "thenCheck a b = Inr () \<longleftrightarrow> a = Inr () \<and> b = Inr ()"
  by (cases a) auto

lemma checkAll_Inr_iff [simp]: "checkAll f xs = Inr () \<longleftrightarrow> (\<forall>x \<in> set xs. f x = Inr ())"
  by (induction xs) auto

lemma check_Inl: "(\<exists>e. c = Inl e) \<longleftrightarrow> c \<noteq> (Inr () :: exn + unit)"
  by (cases c) auto

text \<open>A fallible function over a list, left to right, stopping at the first error.\<close>

fun traverseE :: "('a \<Rightarrow> 'e + 'b) \<Rightarrow> 'a list \<Rightarrow> 'e + 'b list" where
  "traverseE f [] = Inr []"
| "traverseE f (x # xs) = (case f x of
      Inl e \<Rightarrow> Inl e
    | Inr y \<Rightarrow> (case traverseE f xs of Inl e \<Rightarrow> Inl e | Inr ys \<Rightarrow> Inr (y # ys)))"

fun foldE :: "('a \<Rightarrow> 's \<Rightarrow> 'e + 's) \<Rightarrow> 'a list \<Rightarrow> 's \<Rightarrow> 'e + 's" where
  "foldE f [] s = Inr s"
| "foldE f (x # xs) s = (case f x s of Inl e \<Rightarrow> Inl e | Inr s' \<Rightarrow> foldE f xs s')"

lemma foldE_Cons_Inr:
  "foldE f (x # xs) s = Inr t \<longleftrightarrow> (\<exists>u. f x s = Inr u \<and> foldE f xs u = Inr t)"
  by (cases "f x s") auto

lemma traverseE_cong [fundef_cong]:
  "xs = ys \<Longrightarrow> (\<And>x. x \<in> set ys \<Longrightarrow> f x = g x) \<Longrightarrow> traverseE f xs = traverseE g ys"
  by (induction xs arbitrary: ys) (auto split: sum.splits)

lemma foldE_cong [fundef_cong]:
  "xs = ys \<Longrightarrow> s = t \<Longrightarrow> (\<And>x u. x \<in> set ys \<Longrightarrow> f x u = g x u) \<Longrightarrow> foldE f xs s = foldE g ys t"
  by (induction xs arbitrary: ys s t) (auto split: sum.splits)

lemma checkAll_cong [fundef_cong]:
  "xs = ys \<Longrightarrow> (\<And>x. x \<in> set ys \<Longrightarrow> f x = g x) \<Longrightarrow> checkAll f xs = checkAll g ys"
  by (induction xs arbitrary: ys) auto

lemma traverseE_total: "(\<And>x. x \<in> set xs \<Longrightarrow> \<exists>y. f x = Inr y) \<Longrightarrow> \<exists>ys. traverseE f xs = Inr ys"
proof (induction xs)
  case (Cons x xs)
  then obtain y ys where "f x = Inr y" "traverseE f xs = Inr ys" by (meson list.set_intros)
  then show ?case by simp
qed simp

lemma traverseE_Inr_iff:
  "traverseE f xs = Inr ys \<longleftrightarrow> list_all2 (\<lambda>x y. f x = Inr y) xs ys"
proof (induction xs arbitrary: ys)
  case (Cons x xs)
  show ?case by (auto simp: list_all2_Cons1 Cons.IH [symmetric] split: sum.splits)
qed auto

text \<open>A synchronous result, thrown or returned inside an asynchronous function.\<close>

definition liftE :: "exn + 'a \<Rightarrow> ('w, 'a) M" where
  "liftE r = (case r of Inl e \<Rightarrow> throwM e | Inr x \<Rightarrow> returnM x)"

lemma liftE_Inl [simp, monad_simps]: "liftE (Inl e) = throwM e"
  by (simp add: liftE_def)

lemma liftE_Inr [simp, monad_simps]: "liftE (Inr x) = returnM x"
  by (simp add: liftE_def)

lemma preserves_liftE [preserves_intros]: "preserves P (liftE r)"
  by (cases r) (auto intro: preserves_intros)

lemma terminates_liftE [total_intros]: "terminates (liftE r)"
  by (cases r) (auto intro: total_intros)

end
