(* ===== verification/CoreTypes.thy ===== *)
theory CoreTypes
  imports Prelude
begin

text \<open>
  The data model of \<open>packages/core/src/core\<close>: the statuses (\<open>status.ts\<close>), the error classes
  (\<open>errors.ts\<close>), JSON values, the persisted rows and their patches
  (\<open>repository/types.ts\<close>), and the job IR (\<open>core/ir\<close>) that the builders and the
  compiler produce and the executors interpret. Types that mention user code are
  polymorphic in the world \<open>'w\<close> and in the items \<open>'i\<close> a chunk step moves.
\<close>

section \<open>Statuses (status.ts)\<close>

datatype FlowExecutionStatus = FlowCompleted | FlowFailed | FlowStopped | FlowUnknown

datatype JobStatus = JobStarting | JobStarted | JobCompleted | JobFailed
  | JobStopping | JobStopped | JobAbandoned | JobUnknown

datatype StepStatus = StepStarting | StepStarted | StepCompleted | StepFailed
  | StepStopped | StepUnknown

fun flowStatusText :: "FlowExecutionStatus \<Rightarrow> string" where
  "flowStatusText FlowCompleted = ''COMPLETED''"
| "flowStatusText FlowFailed = ''FAILED''"
| "flowStatusText FlowStopped = ''STOPPED''"
| "flowStatusText FlowUnknown = ''UNKNOWN''"

fun jobStatusText :: "JobStatus \<Rightarrow> string" where
  "jobStatusText JobStarting = ''STARTING''"
| "jobStatusText JobStarted = ''STARTED''"
| "jobStatusText JobCompleted = ''COMPLETED''"
| "jobStatusText JobFailed = ''FAILED''"
| "jobStatusText JobStopping = ''STOPPING''"
| "jobStatusText JobStopped = ''STOPPED''"
| "jobStatusText JobAbandoned = ''ABANDONED''"
| "jobStatusText JobUnknown = ''UNKNOWN''"

text \<open>A job execution counts as running for the launch guard in these two states only.\<close>

definition isRunningStatus :: "JobStatus \<Rightarrow> bool" where
  "isRunningStatus s \<longleftrightarrow> s = JobStarting \<or> s = JobStarted"

section \<open>Errors (errors.ts)\<close>

text \<open>
  Each class of \<open>errors.ts\<close> as the value its constructor builds: prototype chain, stable
  \<open>code\<close>, message. The \<open>details\<close> bag is not read by the program and is left out.
\<close>

definition batchError :: "string \<Rightarrow> string \<Rightarrow> string \<Rightarrow> exn" where
  "batchError name code msg = ErrorObj [name, ''BatchError'', ''Error''] code msg"

definition jobNotFoundError :: "string \<Rightarrow> exn" where
  "jobNotFoundError jobId =
     batchError ''JobNotFoundError'' ''JOB_NOT_FOUND'' (''Job not found: '' @ jobId)"

definition duplicateJobDefinitionError :: "string \<Rightarrow> exn" where
  "duplicateJobDefinitionError jobId =
     batchError ''DuplicateJobDefinitionError'' ''DUPLICATE_JOB''
       (''Job already registered: '' @ jobId)"

definition invalidFlowGraphError :: "string \<Rightarrow> string \<Rightarrow> exn" where
  "invalidFlowGraphError code msg = batchError ''InvalidFlowGraphError'' code msg"

definition skipLimitExceededError :: "number \<Rightarrow> exn" where
  "skipLimitExceededError limit =
     batchError ''SkipLimitExceededError'' ''SKIP_LIMIT_EXCEEDED''
       (''Skip limit exceeded: '' @ showNumber limit)"

definition retryLimitExceededError :: "number \<Rightarrow> exn" where
  "retryLimitExceededError limit =
     batchError ''RetryLimitExceededError'' ''RETRY_LIMIT_EXCEEDED''
       (''Retry limit exceeded: '' @ showNumber limit)"

definition jobExecutionAlreadyRunningError :: "string \<Rightarrow> exn" where
  "jobExecutionAlreadyRunningError jobInstanceId =
     batchError ''JobExecutionAlreadyRunningError'' ''JOB_EXECUTION_ALREADY_RUNNING''
       (''Job instance already running: '' @ jobInstanceId)"

definition jobExecutionNotFoundError :: "string \<Rightarrow> exn" where
  "jobExecutionNotFoundError executionId =
     batchError ''JobExecutionNotFoundError'' ''JOB_EXECUTION_NOT_FOUND''
       (''Job execution not found: '' @ executionId)"

definition jobInstanceNotFoundError :: "string \<Rightarrow> exn" where
  "jobInstanceNotFoundError jobInstanceId =
     batchError ''JobInstanceNotFoundError'' ''JOB_INSTANCE_NOT_FOUND''
       (''Job instance not found: '' @ jobInstanceId)"

definition invalidJobOperationError :: "string \<Rightarrow> exn" where
  "invalidJobOperationError msg =
     batchError ''InvalidJobOperationError'' ''INVALID_JOB_OPERATION'' msg"

definition jobNotRestartableError :: "string \<Rightarrow> exn" where
  "jobNotRestartableError jobId =
     batchError ''JobNotRestartableError'' ''JOB_NOT_RESTARTABLE''
       (''Job is not restartable: '' @ jobId)"

definition invalidExecutionContextError :: "string \<Rightarrow> exn" where
  "invalidExecutionContextError msg =
     batchError ''InvalidExecutionContextError'' ''INVALID_EXECUTION_CONTEXT'' msg"

lemmas batch_error_defs [error_simps] =
  batchError_def jobNotFoundError_def duplicateJobDefinitionError_def
  invalidFlowGraphError_def skipLimitExceededError_def retryLimitExceededError_def
  jobExecutionAlreadyRunningError_def jobExecutionNotFoundError_def
  jobInstanceNotFoundError_def invalidJobOperationError_def jobNotRestartableError_def
  invalidExecutionContextError_def

section \<open>JSON values (core/execution-context/json-value.ts)\<close>

datatype json = JNull | JBool bool | JNum number | JStr string
  | JArr "json list" | JObj "(string \<times> json) list"

type_synonym jobParameters = "(string, json) jsmap"

section \<open>Persisted rows and patches (core/repository/types.ts)\<close>

type_synonym date = int

record jobInstance =
  ji_id :: string
  ji_jobName :: string
  ji_jobKey :: string
  ji_createdAt :: date

record jobExecution =
  je_id :: string
  je_jobInstanceId :: string
  je_status :: JobStatus
  je_startTime :: "date option"
  je_endTime :: "date option"
  je_exitCode :: string
  je_exitMessage :: string
  je_params :: jobParameters

text \<open>
  A patch field is \<open>None\<close> when absent. The nullable times keep the two layers apart: absent,
  present with null, present with a date.
\<close>

record jobExecutionPatch =
  jp_status :: "JobStatus option"
  jp_startTime :: "date option option"
  jp_endTime :: "date option option"
  jp_exitCode :: "string option"
  jp_exitMessage :: "string option"

definition emptyJobPatch :: jobExecutionPatch where
  "emptyJobPatch = \<lparr>jp_status = None, jp_startTime = None, jp_endTime = None,
     jp_exitCode = None, jp_exitMessage = None\<rparr>"

record stepExecution =
  se_id :: string
  se_jobExecutionId :: string
  se_stepName :: string
  se_status :: StepStatus
  se_readCount :: int
  se_writeCount :: int
  se_skipCount :: int
  se_rollbackCount :: int
  se_commitCount :: int
  se_startTime :: "date option"
  se_endTime :: "date option"
  se_exitCode :: string
  se_exitMessage :: string

record stepExecutionPatch =
  sp_status :: "StepStatus option"
  sp_readCount :: "int option"
  sp_writeCount :: "int option"
  sp_skipCount :: "int option"
  sp_rollbackCount :: "int option"
  sp_commitCount :: "int option"
  sp_startTime :: "date option option"
  sp_endTime :: "date option option"
  sp_exitCode :: "string option"
  sp_exitMessage :: "string option"

definition emptyStepPatch :: stepExecutionPatch where
  "emptyStepPatch = \<lparr>sp_status = None, sp_readCount = None, sp_writeCount = None,
     sp_skipCount = None, sp_rollbackCount = None, sp_commitCount = None,
     sp_startTime = None, sp_endTime = None, sp_exitCode = None, sp_exitMessage = None\<rparr>"

record executionContext =
  ctx_data :: json
  ctx_version :: int

datatype executionScope = JobScope string | StepScope string

record jobInstanceFilter =
  if_jobName :: "string option"
  if_jobKey :: "string option"

record jobExecutionFilter =
  ef_jobInstanceId :: "string option"
  ef_status :: "JobStatus list option"
  ef_startedAfter :: "date option"
  ef_startedBefore :: "date option"

record jobExecutionDetails =
  jd_jobInstance :: jobInstance
  jd_jobExecution :: jobExecution
  jd_stepExecutions :: "stepExecution list"
  jd_jobContext :: executionContext
  jd_stepContexts :: "(string \<times> executionContext) list"

section \<open>Policies (core/ir/policy-config.ts)\<close>

text \<open>
  A \<open>Skippable\<close> is a JavaScript function, an error class or a predicate. The two compiled
  policies tell the cases apart by looking at the function object itself, so the model
  keeps what they look at: its \<open>length\<close>, what kind of \<open>prototype\<close> it has, what calling it
  as a function does (\<open>None\<close> when the call throws, otherwise the truthiness of its result),
  and the class it stands for under \<open>instanceof\<close>.
\<close>

datatype prototypeKind = NoPrototype | PlainPrototype | ErrorPrototype

record skippable =
  sk_length :: nat
  sk_prototype :: prototypeKind
  sk_call :: "exn \<Rightarrow> bool option"
  sk_class :: string

record skipPolicyConfig =
  sc_limit :: number
  sc_skippable :: "skippable list"

datatype backoffConfig =
    BackoffFixed rat
  | BackoffExponential rat "rat option" "rat option"
  | BackoffNone

record retryPolicyConfig =
  rc_limit :: number
  rc_retryable :: "skippable list"
  rc_backoff :: backoffConfig

section \<open>References to user code (core/ir/refs.ts)\<close>

datatype refKind = ProviderToken | BuilderLambda | MethodRef

text \<open>
  What the program can observe of a function or a value of user code. A function is called
  for the role's result (awaited), or, when it is a factory, for an object with the role's
  method (\<open>None\<close> when what it gives is not one). A value is awaited as a plain result (a
  promise that rejects is a \<open>Throw\<close>), or is a function, or an object with the role's method.
\<close>

record ('w, 'a, 'r, 'o) jsFunction =
  callResult :: "'a \<Rightarrow> ('w, 'r) M"
  callObject :: "'a \<Rightarrow> ('w, 'o option) M"

record ('w, 'a, 'r, 'o) jsValue =
  asPlain :: "'r outcome"
  asFunction :: "('w, 'a, 'r, 'o) jsFunction option"
  asObject :: "'o option"

text \<open>
  A ref. \<open>ref_fn\<close> takes the role's arguments, or \<open>None\<close> when it is called with none; a
  \<open>Throw\<close> of the call itself is a synchronous throw, a rejected promise is in \<open>asPlain\<close>.
\<close>

record ('w, 'a, 'r, 'o) ref =
  ref_kind :: refKind
  ref_token :: "string option"
  ref_fn :: "('a option \<Rightarrow> ('w, ('w, 'a, 'r, 'o) jsValue) M) option"
  ref_classToken :: "string option"
  ref_methodName :: "string option"
  ref_factory :: bool

text \<open>A ref whose lambda yields an object.\<close>

definition objectRef :: "'o \<Rightarrow> ('w, 'a, 'r, 'o) ref" where
  "objectRef obj = \<lparr>ref_kind = BuilderLambda, ref_token = None,
     ref_fn = Some (\<lambda>_. returnM \<lparr>asPlain = OutOfFuel, asFunction = None, asObject = Some obj\<rparr>),
     ref_classToken = None, ref_methodName = None, ref_factory = False\<rparr>"

text \<open>A function as a value: what the resolvers see of it is that it is one.\<close>

definition functionValue :: "('w, 'a, 'r, 'o) jsFunction \<Rightarrow> ('w, 'a, 'r, 'o) jsValue" where
  "functionValue f = \<lparr>asPlain = OutOfFuel, asFunction = Some f, asObject = None\<rparr>"

section \<open>Item contracts (core/item/interfaces.ts)\<close>

record itemExecutionContext =
  ic_jobExecutionId :: string
  ic_stepExecutionId :: string
  ic_stepName :: string
  ic_jobParameters :: jobParameters
  ic_chunkIndex :: rat

text \<open>
  The hooks of an \<open>ItemStream\<close>. \<open>open\<close> and \<open>update\<close> may mutate the context object they
  receive or (\<open>update\<close>) return another one: both are the context they hand back here.
\<close>

record 'w itemStream =
  st_open :: "executionContext \<Rightarrow> ('w, executionContext) M"
  st_update :: "executionContext \<Rightarrow> ('w, executionContext) M"
  st_close :: "('w, unit) M"

record ('w, 'i) itemReader =
  rd_read :: "itemExecutionContext \<Rightarrow> ('w, 'i option) M"
  rd_stream :: "'w itemStream option"

type_synonym ('w, 'i) itemProcessor = "'i \<times> itemExecutionContext \<Rightarrow> ('w, 'i option) M"

record writerResult =
  wr_written :: int
  wr_skipped :: int

record ('w, 'i) itemWriter =
  wt_write :: "'i list \<times> itemExecutionContext \<Rightarrow> ('w, writerResult option) M"
  wt_stream :: "'w itemStream option"

record taskletContext =
  tc_jobExecutionId :: string
  tc_stepExecutionId :: string
  tc_jobParameters :: jobParameters

text \<open>A tasklet resolves to \<open>String(result)\<close>, or \<open>None\<close> for \<open>undefined\<close>.\<close>

type_synonym 'w tasklet = "taskletContext \<Rightarrow> ('w, string option) M"

type_synonym ('w, 'i) readerRef =
  "('w, itemExecutionContext, 'i option, ('w, 'i) itemReader) ref"
type_synonym ('w, 'i) processorRef =
  "('w, 'i \<times> itemExecutionContext, 'i option, ('w, 'i) itemProcessor) ref"
type_synonym ('w, 'i) writerRef =
  "('w, 'i list \<times> itemExecutionContext, writerResult option, ('w, 'i) itemWriter) ref"
type_synonym 'w taskletRef = "('w, taskletContext, string option, 'w tasklet) ref"

section \<open>Steps, transitions, jobs (core/ir)\<close>

record chunkPartitionConfig =
  pc_count :: number
  pc_range :: "(number \<Rightarrow> number \<Rightarrow> int \<times> int) option"

record ('w, 'i) chunkStepDefinition =
  cs_id :: string
  cs_chunkSize :: int
  cs_reader :: "('w, 'i) readerRef"
  cs_processor :: "('w, 'i) processorRef option"
  cs_writer :: "('w, 'i) writerRef"
  cs_skipPolicy :: "skipPolicyConfig option"
  cs_retryPolicy :: "retryPolicyConfig option"
  cs_partitions :: "chunkPartitionConfig option"

record 'w taskletStepDefinition =
  ts_id :: string
  ts_tasklet :: "'w taskletRef"

datatype ('w, 'i) stepDefinition =
    ChunkStep "('w, 'i) chunkStepDefinition"
  | TaskletStep "'w taskletStepDefinition"

record transitionDefinition =
  fromStepId :: string
  onStatus :: string
  toStepId :: "string option"

record deciderContext =
  dc_jobExecution :: jobExecution
  dc_stepId :: string
  dc_stepExecutionId :: string
  dc_stepStatus :: StepStatus
  dc_exitCode :: string
  dc_exitMessage :: string

record 'w deciderDefinition =
  afterStepId :: string
  decide :: "deciderContext \<Rightarrow> ('w, string) M"

fun stepIdOf :: "('w, 'i) stepDefinition \<Rightarrow> string" where
  "stepIdOf (ChunkStep s) = cs_id s"
| "stepIdOf (TaskletStep s) = ts_id s"

fun isChunkStep :: "('w, 'i) stepDefinition \<Rightarrow> bool" where
  "isChunkStep (ChunkStep _) = True"
| "isChunkStep (TaskletStep _) = False"

section \<open>Step results and listeners (listener-definition.ts, listener-invoker.ts)\<close>

text \<open>\<open>commitCount\<close> is absent from a tasklet's result.\<close>

record stepResult =
  sr_status :: StepStatus
  sr_exitCode :: string
  sr_exitMessage :: string
  sr_readCount :: int
  sr_writeCount :: int
  sr_skipCount :: int
  sr_commitCount :: "int option"

record chunkProgress =
  cp_status :: StepStatus
  cp_readCount :: int
  cp_writeCount :: int
  cp_skipCount :: int
  cp_commitCount :: int

record listenerContext =
  lc_jobExecutionId :: string
  lc_stepExecutionId :: string
  lc_stepName :: "string option"
  lc_jobParameters :: jobParameters
  lc_chunkIndex :: "rat option"

datatype 'i listenerArg =
    LContext listenerContext
  | LItem 'i
  | LItems "'i list"
  | LProcessed "'i option"
  | LWritten "writerResult option"
  | LError exn
  | LNull
  | LResult stepResult
  | LChunk chunkProgress
  | LJobStatus JobStatus

text \<open>
  A listener may write into the objects it is handed: the step result it receives is the
  live one. A listener therefore gives back its arguments as it leaves them, whether it
  resolves or throws.
\<close>

type_synonym ('w, 'i) listenerFn =
  "'i listenerArg list \<Rightarrow> 'w \<Rightarrow> (unit outcome \<times> 'i listenerArg list) \<times> 'w"

datatype listenerKind = KJob | KStep | KChunk | KItemRead | KItemProcess | KItemWrite
  | KSkip | KTransition

datatype listenerPhase = PBefore | PAfter | POnError

datatype skipSubKind = SkipRead | SkipProcess | SkipWrite

fun listenerKindText :: "listenerKind \<Rightarrow> string" where
  "listenerKindText KJob = ''job''"
| "listenerKindText KStep = ''step''"
| "listenerKindText KChunk = ''chunk''"
| "listenerKindText KItemRead = ''item-read''"
| "listenerKindText KItemProcess = ''item-process''"
| "listenerKindText KItemWrite = ''item-write''"
| "listenerKindText KSkip = ''skip''"
| "listenerKindText KTransition = ''transition''"

fun listenerPhaseText :: "listenerPhase \<Rightarrow> string" where
  "listenerPhaseText PBefore = ''before''"
| "listenerPhaseText PAfter = ''after''"
| "listenerPhaseText POnError = ''on-error''"

fun skipSubKindText :: "skipSubKind \<Rightarrow> string" where
  "skipSubKindText SkipRead = ''read''"
| "skipSubKindText SkipProcess = ''process''"
| "skipSubKindText SkipWrite = ''write''"

record ('w, 'i) listenerRef =
  lr_kind :: refKind
  lr_token :: "string option"
  lr_fn :: "('w, 'i) listenerFn option"
  lr_classToken :: "string option"
  lr_methodName :: "string option"

record ('w, 'i) listenerDefinition =
  ld_kind :: listenerKind
  ld_phase :: listenerPhase
  ld_ref :: "('w, 'i) listenerRef"
  ld_skipKind :: "skipSubKind option"
  ld_nonCritical :: "bool option"

section \<open>Jobs (core/ir/job-definition.ts)\<close>

text \<open>
  \<open>job_steps\<close> is the record of steps in the order of \<open>Object.keys\<close>, which is insertion
  order as long as no step id is a canonical array index such as \<open>7\<close>.
\<close>

record ('w, 'i) jobDefinition =
  job_id :: string
  job_steps :: "(string, ('w, 'i) stepDefinition) jsmap"
  job_startStepId :: string
  job_transitions :: "transitionDefinition list"
  job_deciders :: "'w deciderDefinition list"
  job_listeners :: "('w, 'i) listenerDefinition list"
  job_restartable :: bool
  job_allowDuplicateInstances :: bool

end
