(* ===== verification/Policies.thy ===== *)
theory Policies
  imports CoreTypes
begin

text \<open>
  The skip and retry policies and the backoff they use
  (\<open>packages/core/src/policies/skip-policy.ts\<close>, \<open>retry-policy.ts\<close>, \<open>backoff.ts\<close>).

  \<open>compileSkipPolicy\<close> and \<open>compileRetryPolicy\<close> return an error for a non-positive limit
  and otherwise a record of the closures the chunk executor calls. The two modules have a
  \<open>matchesSkippable\<close> each, and they decide differently whether a function is an error class:
  the skip policy looks at its prototype, the retry policy at its \<open>length\<close>.
\<close>

section \<open>Backoff\<close>

text \<open>\<open>compileBackoff\<close>, and the local \<open>backoff\<close> of \<open>compileRetryPolicy\<close>.\<close>

fun compileBackoff :: "backoffConfig \<Rightarrow> nat \<Rightarrow> rat" where
  "compileBackoff BackoffNone attempt = 0"
| "compileBackoff (BackoffFixed ms) attempt = ms"
| "compileBackoff (BackoffExponential initialMs maxMs factor) attempt =
     (let f = (case factor of None \<Rightarrow> 2 | Some x \<Rightarrow> x);
          ms = initialMs * f ^ (attempt - 1)
      in case maxMs of None \<Rightarrow> ms | Some m \<Rightarrow> min ms m)"

definition retryBackoff :: "backoffConfig \<Rightarrow> nat \<Rightarrow> rat" where
  "retryBackoff cfg attempt = (case cfg of
      BackoffNone \<Rightarrow> 0
    | BackoffFixed ms \<Rightarrow> ms
    | BackoffExponential initialMs maxMs factor \<Rightarrow>
        (let ms = initialMs * (case factor of None \<Rightarrow> 2 | Some x \<Rightarrow> x) ^ (attempt - 1)
         in if maxMs \<noteq> None then min ms (the maxMs) else ms))"

section \<open>instanceof\<close>

text \<open>
  \<open>err instanceof F\<close>: false for a value that is not an object, a \<open>TypeError\<close> when \<open>F\<close> has no
  prototype object (an arrow function), otherwise membership in the prototype chain.
\<close>

fun instanceOf :: "exn \<Rightarrow> skippable \<Rightarrow> exn + bool" where
  "instanceOf (ThrownValue _) s = Inr False"
| "instanceOf (ErrorObj cs c m) s =
     (if sk_prototype s = NoPrototype
      then Inl (typeError ''Function has non-object prototype in instanceof check'')
      else Inr (sk_class s \<in> set cs))"

section \<open>Skip policy\<close>

record skipContext =
  kc_skipCount :: number
  kc_skipLimit :: number

type_synonym skipPolicy = "exn \<Rightarrow> skipContext \<Rightarrow> exn + bool"

definition matchesSkippableSkip :: "exn \<Rightarrow> skippable \<Rightarrow> exn + bool" where
  "matchesSkippableSkip err s =
     (if sk_prototype s = ErrorPrototype then instanceOf err s
      else case sk_call s err of Some b \<Rightarrow> Inr b | None \<Rightarrow> Inr False)"

text \<open>\<open>Array.some\<close>: stops at the first match, and at the first test that throws.\<close>

fun someM :: "('a \<Rightarrow> exn + bool) \<Rightarrow> 'a list \<Rightarrow> exn + bool" where
  "someM f [] = Inr False"
| "someM f (x # xs) = (case f x of
      Inl e \<Rightarrow> Inl e
    | Inr True \<Rightarrow> Inr True
    | Inr False \<Rightarrow> someM f xs)"

definition shouldSkip :: "skipPolicyConfig \<Rightarrow> skipPolicy" where
  "shouldSkip cfg err c =
     (if numLessEq (kc_skipLimit c) (kc_skipCount c) then Inr False
      else someM (matchesSkippableSkip err) (sc_skippable cfg))"

definition compileSkipPolicy :: "skipPolicyConfig \<Rightarrow> exn + skipPolicy" where
  "compileSkipPolicy cfg =
     (if numLessEq (sc_limit cfg) (Fin 0)
      then Inl (invalidFlowGraphError ''INVALID_SKIP_LIMIT''
             (''SkipPolicyConfig.limit must be > 0 (got '' @ showNumber (sc_limit cfg) @ '')''))
      else Inr (shouldSkip cfg))"

section \<open>Retry policy\<close>

record retryContext =
  yc_attempt :: nat
  yc_retryLimit :: number

record retryPolicy =
  canRetry :: "exn \<Rightarrow> retryContext \<Rightarrow> exn + bool"
  backoffMs :: "nat \<Rightarrow> rat"

definition matchesSkippableRetry :: "exn \<Rightarrow> skippable \<Rightarrow> exn + bool" where
  "matchesSkippableRetry err s =
     (if sk_length s = 1 then (case sk_call s err of Some b \<Rightarrow> Inr b | None \<Rightarrow> Inr False)
      else instanceOf err s)"

definition retryCanRetry :: "retryPolicyConfig \<Rightarrow> exn \<Rightarrow> retryContext \<Rightarrow> exn + bool" where
  "retryCanRetry cfg err c =
     (if numLess (yc_retryLimit c) (Fin (of_nat (yc_attempt c))) then Inr False
      else someM (matchesSkippableRetry err) (rc_retryable cfg))"

definition compileRetryPolicy :: "retryPolicyConfig \<Rightarrow> exn + retryPolicy" where
  "compileRetryPolicy cfg =
     (if numLessEq (rc_limit cfg) (Fin 0)
      then Inl (plainError (''RetryPolicyConfig.limit must be > 0 (got ''
             @ showNumber (rc_limit cfg) @ '')''))
      else Inr \<lparr>canRetry = retryCanRetry cfg, backoffMs = retryBackoff (rc_backoff cfg)\<rparr>)"

section \<open>Facts about the policies\<close>

lemma someM_Inr_True_iff:
  assumes "\<forall>x \<in> set xs. \<exists>b. f x = Inr b"
  shows "someM f xs = Inr (\<exists>x \<in> set xs. f x = Inr True)"
  using assms
proof (induction xs)
  case Nil
  then show ?case by simp
next
  case (Cons x xs)
  then obtain b where "f x = Inr b" by auto
  with Cons show ?case by (cases b) auto
qed

lemma matchesSkippableSkip_total: "\<exists>b. matchesSkippableSkip err s = Inr b"
  by (cases err) (auto simp: matchesSkippableSkip_def split: option.splits)

lemma shouldSkip_total: "\<exists>b. shouldSkip cfg err c = Inr b"
proof (cases "numLessEq (kc_skipLimit c) (kc_skipCount c)")
  case True
  then have "shouldSkip cfg err c = Inr False" by (simp add: shouldSkip_def)
  then show ?thesis ..
next
  case False
  have "\<forall>s \<in> set (sc_skippable cfg). \<exists>b. matchesSkippableSkip err s = Inr b"
    by (simp add: matchesSkippableSkip_total)
  with False show ?thesis by (simp add: shouldSkip_def someM_Inr_True_iff)
qed

lemma compileSkipPolicy_Inr: "compileSkipPolicy cfg = Inr p \<Longrightarrow> p = shouldSkip cfg"
  by (auto simp: compileSkipPolicy_def split: if_splits)

lemma compileRetryPolicy_Inr:
  "compileRetryPolicy cfg = Inr p \<Longrightarrow>
   p = \<lparr>canRetry = retryCanRetry cfg, backoffMs = retryBackoff (rc_backoff cfg)\<rparr>"
  by (auto simp: compileRetryPolicy_def split: if_splits)

lemma retryCanRetry_attempt_le:
  "retryCanRetry cfg err c = Inr True \<Longrightarrow>
   \<not> numLess (yc_retryLimit c) (Fin (of_nat (yc_attempt c)))"
  by (auto simp: retryCanRetry_def split: if_splits)

lemma retryBackoff_eq: "retryBackoff cfg attempt = compileBackoff cfg attempt"
  by (cases cfg) (auto simp: retryBackoff_def Let_def split: option.splits)

section \<open>Properties\<close>

text \<open>
  The backoff of an exponential policy with a cap never exceeds the cap, is never
  negative, and never shrinks from one attempt to the next (for a factor of at least 1).
\<close>
theorem backoff_exponential_bounds:
  fixes initialMs maxMs factor :: rat
  assumes "0 \<le> initialMs" and "0 \<le> maxMs" and "1 \<le> factor" and "a \<le> b"
  shows "0 \<le> retryBackoff (BackoffExponential initialMs (Some maxMs) (Some factor)) a
    \<and> retryBackoff (BackoffExponential initialMs (Some maxMs) (Some factor)) b \<le> maxMs
    \<and> retryBackoff (BackoffExponential initialMs (Some maxMs) (Some factor)) a
      \<le> retryBackoff (BackoffExponential initialMs (Some maxMs) (Some factor)) b"
proof -
  have "factor ^ (a - 1) \<le> factor ^ (b - 1)"
    using assms by (intro power_increasing) auto
  then have "initialMs * factor ^ (a - 1) \<le> initialMs * factor ^ (b - 1)"
    using assms(1) by (rule mult_left_mono)
  then show ?thesis
    using assms by (auto simp: retryBackoff_eq Let_def min_def)
qed

theorem backoff_exponential_bounds_witness:
  "retryBackoff (BackoffExponential 100 (Some 1000) (Some 2)) 3 = 400
   \<and> retryBackoff (BackoffExponential 100 (Some 1000) (Some 2)) 3
     \<le> retryBackoff (BackoffExponential 100 (Some 1000) (Some 2)) 9"
  using backoff_exponential_bounds [of 100 1000 2 3 9] by (simp add: retryBackoff_def)

text \<open>
  An error class whose constructor declares one parameter (\<open>length = 1\<close>) and that cannot
  be called without \<open>new\<close> is honoured by the skip policy and ignored by the retry policy:
  whatever the attempt and the limit, \<open>canRetry\<close> is false for an instance of that class
  when it is the only retryable class.
\<close>
theorem retry_ignores_unary_error_classes:
  assumes "sk_length s = 1" and "sk_prototype s = ErrorPrototype" and "sk_call s err = None"
    and "err = ErrorObj cs code msg" and "sk_class s \<in> set cs"
    and "rc_retryable rc = [s]" and "sc_skippable sc = [s]"
    and "\<not> numLessEq (kc_skipLimit k) (kc_skipCount k)"
  shows "retryCanRetry rc err y = Inr False \<and> shouldSkip sc err k = Inr True"
  using assms
  by (simp add: retryCanRetry_def shouldSkip_def matchesSkippableRetry_def matchesSkippableSkip_def)

definition transientErrorClass :: skippable where
  "transientErrorClass = \<lparr>sk_length = 1, sk_prototype = ErrorPrototype,
     sk_call = (\<lambda>_. None), sk_class = ''TransientError''\<rparr>"

theorem retry_ignores_unary_error_classes_witness:
  "retryCanRetry \<lparr>rc_limit = Fin 3, rc_retryable = [transientErrorClass], rc_backoff = BackoffNone\<rparr>
     (ErrorObj [''TransientError'', ''Error''] [] ''boom'') \<lparr>yc_attempt = 1, yc_retryLimit = Fin 3\<rparr>
     = Inr False"
  using retry_ignores_unary_error_classes
    [of transientErrorClass "ErrorObj [''TransientError'', ''Error''] [] ''boom''"
      "[''TransientError'', ''Error'']" "[]" "''boom''"
      "\<lparr>rc_limit = Fin 3, rc_retryable = [transientErrorClass], rc_backoff = BackoffNone\<rparr>"
      "\<lparr>sc_limit = Fin 3, sc_skippable = [transientErrorClass]\<rparr>"
      "\<lparr>kc_skipCount = Fin 0, kc_skipLimit = Fin 3\<rparr>"
      "\<lparr>yc_attempt = 1, yc_retryLimit = Fin 3\<rparr>"]
  by (simp add: transientErrorClass_def)

end
