(* ===== verification/PartitionHelpers.thy ===== *)
theory PartitionHelpers
  imports CoreTypes
begin

text \<open>
  The pure partition helpers of \<open>packages/core/src/partition-helpers.ts\<close>: the compile-time
  check of a partition configuration, the default even split, and the run-time check of a
  partition index. The arguments are JavaScript numbers, so the integrality tests of the
  code are tests here too. A \<open>range\<close> in the model is always a function; the code's branch
  for a \<open>range\<close> of another type has no counterpart.
\<close>

definition invalidPartitionsError :: "string \<Rightarrow> exn" where
  "invalidPartitionsError msg =
     ErrorObj [''InvalidPartitionsError'', ''Error''] ''INVALID_PARTITIONS'' msg"

definition validatePartitions :: "chunkPartitionConfig option \<Rightarrow> exn + unit" where
  "validatePartitions partitions = (case partitions of
      None \<Rightarrow> Inr ()
    | Some p \<Rightarrow>
        (if \<not> isIntegerNumber (pc_count p) \<or> numLessEq (pc_count p) (Fin 0)
         then Inl (invalidPartitionsError
           (''ChunkStepDefinition.partitions.count must be a positive integer, got ''
             @ showNumber (pc_count p)))
         else Inr ()))"

text \<open>The finite value of a number the checks have let through.\<close>

fun finiteValue :: "number \<Rightarrow> rat" where
  "finiteValue (Fin q) = q"
| "finiteValue _ = 0"

definition defaultRange :: "number \<Rightarrow> number \<Rightarrow> number \<Rightarrow> exn + int \<times> int" where
  "defaultRange i n totalItems =
     (if \<not> isIntegerNumber i \<or> numLess i (Fin 0) \<or> numLessEq n i
      then Inl (invalidPartitionsError (''defaultRange: partition index '' @ showNumber i
             @ '' out of range [0, '' @ showNumber n @ '')''))
      else if \<not> isIntegerNumber n \<or> numLessEq n (Fin 0)
      then Inl (invalidPartitionsError (''defaultRange: count '' @ showNumber n
             @ '' must be a positive integer''))
      else if \<not> isFiniteNumber totalItems \<or> numLess totalItems (Fin 0)
      then Inl (invalidPartitionsError (''defaultRange: total '' @ showNumber totalItems
             @ '' must be a non-negative finite number''))
      else Inr (\<lfloor>finiteValue i * finiteValue totalItems / finiteValue n\<rfloor>,
                \<lfloor>(finiteValue i + 1) * finiteValue totalItems / finiteValue n\<rfloor>))"

definition enforcePartitionIndex :: "number option \<Rightarrow> number \<Rightarrow> exn + unit" where
  "enforcePartitionIndex partitionIndex count = (case partitionIndex of
      None \<Rightarrow> Inl (invalidPartitionsError
        (''partitionIndex is required for a partitioned step (count='' @ showNumber count @ '')''))
    | Some i \<Rightarrow>
        (if \<not> isIntegerNumber i \<or> numLess i (Fin 0) \<or> numLessEq count i
         then Inl (invalidPartitionsError (''partitionIndex '' @ showNumber i
                @ '' is out of range [0, '' @ showNumber count @ '')''))
         else Inr ()))"

record resolvedPartition =
  rp_count :: number
  rp_index :: number
  rp_range :: "(int \<times> int) option"

definition resolvePartition :: "chunkPartitionConfig \<Rightarrow> number option \<Rightarrow> exn + resolvedPartition" where
  "resolvePartition partitions partitionIndex =
     (case enforcePartitionIndex partitionIndex (pc_count partitions) of
        Inl e \<Rightarrow> Inl e
      | Inr _ \<Rightarrow>
          (let index = the partitionIndex
           in Inr \<lparr>rp_count = pc_count partitions, rp_index = index,
                rp_range = (case pc_range partitions of
                    None \<Rightarrow> None
                  | Some rangeFn \<Rightarrow> Some (rangeFn index (pc_count partitions)))\<rparr>))"

section \<open>Facts\<close>

lemma isIntegerNumber_of_nat [simp]: "isIntegerNumber (Fin (of_nat n))"
  by simp

lemma enforcePartitionIndex_iff:
  "enforcePartitionIndex (Some (Fin i)) (Fin n) = Inr () \<longleftrightarrow>
   of_int \<lfloor>i\<rfloor> = i \<and> 0 \<le> i \<and> i < n"
  by (auto simp: enforcePartitionIndex_def)

text \<open>The split on natural arguments, with its checks discharged.\<close>

lemma defaultRange_nat:
  assumes "i < n"
  shows "defaultRange (Fin (of_nat i)) (Fin (of_nat n)) (Fin (of_nat totalItems)) =
    Inr (int (i * totalItems div n), int (Suc i * totalItems div n))"
proof -
  have "\<lfloor>of_nat i * of_nat totalItems / (of_nat n :: rat)\<rfloor> = int (i * totalItems div n)"
    by (metis floor_divide_of_nat_eq of_nat_mult)
  moreover have "\<lfloor>(of_nat i + 1) * of_nat totalItems / (of_nat n :: rat)\<rfloor> = int (Suc i * totalItems div n)"
    by (metis floor_divide_of_nat_eq of_nat_mult of_nat_Suc add.commute)
  ultimately show ?thesis
    using assms by (simp add: defaultRange_def)
qed

lemma div_mult_step:
  fixes i n t :: nat
  assumes "0 < n"
  shows "i * t div n + t div n \<le> Suc i * t div n \<and> Suc i * t div n \<le> i * t div n + t div n + 1"
proof -
  let ?a = "i * t div n" and ?b = "t div n"
  have bounds: "n * (m div n) \<le> m \<and> m < n * (m div n) + n" for m
    using dividend_less_times_div [OF assms, of m] times_div_less_eq_dividend [of n m]
    by (simp add: add.commute)
  have low: "n * ?a \<le> i * t" and high: "i * t < n * ?a + n"
    using bounds [of "i * t"] by auto
  have low': "n * ?b \<le> t" and high': "t < n * ?b + n"
    using bounds [of t] by auto
  have "n * (?a + ?b) \<le> Suc i * t"
    unfolding distrib_left mult_Suc using low low' by linarith
  then have "?a + ?b \<le> Suc i * t div n"
    using assms by (metis div_le_mono nonzero_mult_div_cancel_left not_gr_zero)
  moreover have "Suc i * t < n * (?a + ?b + 2)"
    unfolding distrib_left mult_Suc using high high' by linarith
  then have "Suc i * t div n < ?a + ?b + 2"
    by (metis assms less_mult_imp_div_less mult.commute)
  ultimately show ?thesis by simp
qed

text \<open>Every item index lies between two consecutive cut points.\<close>

lemma cut_exists:
  fixes f :: "nat \<Rightarrow> nat"
  assumes "f 0 \<le> k" and "k < f n"
  shows "\<exists>i < n. f i \<le> k \<and> k < f (Suc i)"
  using assms
proof (induction n)
  case 0
  then show ?case by simp
next
  case (Suc n)
  then show ?case by (cases "k < f n") (auto intro: less_SucI)
qed

lemma cut_unique:
  fixes f :: "nat \<Rightarrow> nat"
  assumes "mono f" and "f i \<le> k" "k < f (Suc i)" and "f j \<le> k" "k < f (Suc j)"
  shows "i = j"
proof (rule ccontr)
  assume "i \<noteq> j"
  then consider "Suc i \<le> j" | "Suc j \<le> i" by linarith
  then show False
  proof cases
    case 1
    then have "f (Suc i) \<le> f j" by (rule monoD [OF assms(1)])
    with assms show False by simp
  next
    case 2
    then have "f (Suc j) \<le> f i" by (rule monoD [OF assms(1)])
    with assms show False by simp
  qed
qed

section \<open>Properties\<close>

text \<open>
  C39: the default ranges split the input evenly and completely: for every item index below
  the total there is exactly one partition whose half-open range holds it, and every
  partition gets the integral share or one item more.
\<close>
theorem defaultRange_tiles:
  assumes "0 < n"
  shows "(\<forall>k < totalItems. \<exists>!i. i < n \<and> (\<exists>from to.
            defaultRange (Fin (of_nat i)) (Fin (of_nat n)) (Fin (of_nat totalItems)) = Inr (from, to)
            \<and> from \<le> int k \<and> int k < to))
    \<and> (\<forall>i < n. \<exists>from to.
            defaultRange (Fin (of_nat i)) (Fin (of_nat n)) (Fin (of_nat totalItems)) = Inr (from, to)
            \<and> to - from \<in> {int (totalItems div n), int (totalItems div n) + 1})"
proof (intro conjI allI impI)
  define f where "f i = i * totalItems div n" for i
  have "mono f" by (auto simp: f_def mono_def intro!: div_le_mono mult_le_mono1)
  fix k assume "k < totalItems"
  then have "\<exists>i < n. f i \<le> k \<and> k < f (Suc i)"
    using assms by (intro cut_exists) (auto simp: f_def)
  then have "\<exists>!i. i < n \<and> f i \<le> k \<and> k < f (Suc i)"
    using cut_unique [OF \<open>mono f\<close>] by blast
  then show "\<exists>!i. i < n \<and> (\<exists>from to.
      defaultRange (Fin (of_nat i)) (Fin (of_nat n)) (Fin (of_nat totalItems)) = Inr (from, to)
      \<and> from \<le> int k \<and> int k < to)"
    by (simp only: f_def defaultRange_nat Inr_inject prod.inject cong: conj_cong) auto
next
  fix i assume "i < n"
  then show "\<exists>from to.
      defaultRange (Fin (of_nat i)) (Fin (of_nat n)) (Fin (of_nat totalItems)) = Inr (from, to)
      \<and> to - from \<in> {int (totalItems div n), int (totalItems div n) + 1}"
    using div_mult_step [OF assms, of i totalItems] by (auto simp: defaultRange_nat)
qed

theorem defaultRange_tiles_witness:
  "\<exists>!i. i < 3 \<and> (\<exists>from to.
     defaultRange (Fin (of_nat i)) (Fin (of_nat 3)) (Fin (of_nat 10)) = Inr (from, to)
     \<and> from \<le> int 6 \<and> int 6 < to)"
proof -
  have "0 < (3::nat)" and "6 < (10::nat)" by simp_all
  with defaultRange_tiles [of 3 10] show ?thesis by blast
qed

text \<open>
  The run-time check accepts exactly the integral indices of \<open>[0, count)\<close>, rejecting
  everything else (absent, fractional, NaN, negative, too large) with the stable code
  \<open>INVALID_PARTITIONS\<close>; an accepted index is passed on unchanged by \<open>resolvePartition\<close>.
\<close>
theorem enforcePartitionIndex_exact:
  "(\<forall>idx n. enforcePartitionIndex idx (Fin (of_nat n)) = Inr ()
       \<longleftrightarrow> (\<exists>i < n. idx = Some (Fin (of_nat i))))
   \<and> (\<forall>idx c e. enforcePartitionIndex idx c = Inl e \<longrightarrow> errorCode e = ''INVALID_PARTITIONS'')
   \<and> (\<forall>p i. enforcePartitionIndex (Some i) (pc_count p) = Inr ()
       \<longrightarrow> (\<exists>r. resolvePartition p (Some i) = Inr r \<and> rp_index r = i))"
proof (intro conjI allI impI)
  fix idx :: "number option" and n :: nat
  show "enforcePartitionIndex idx (Fin (of_nat n)) = Inr ()
       \<longleftrightarrow> (\<exists>i < n. idx = Some (Fin (of_nat i)))" (is "?l = ?r")
  proof
    assume ?l
    then obtain q where q: "idx = Some (Fin q)" "of_int \<lfloor>q\<rfloor> = q" "0 \<le> q" "q < of_nat n"
      by (cases idx) (auto simp: enforcePartitionIndex_def simp del: of_int_floor_cancel
          split: if_splits elim!: isIntegerNumber.elims)
    from q(2,3) obtain m where "q = of_nat m"
      by (metis int_nat_eq of_int_of_nat_eq zero_le_floor)
    with q show ?r by auto
  next
    assume ?r
    then show ?l by (auto simp: enforcePartitionIndex_iff)
  qed
next
  fix idx c e
  assume "enforcePartitionIndex idx c = Inl e"
  then show "errorCode e = ''INVALID_PARTITIONS''"
    by (auto simp: enforcePartitionIndex_def invalidPartitionsError_def split: option.splits if_splits)
next
  fix p :: chunkPartitionConfig and i
  assume "enforcePartitionIndex (Some i) (pc_count p) = Inr ()"
  then show "\<exists>r. resolvePartition p (Some i) = Inr r \<and> rp_index r = i"
    by (simp add: resolvePartition_def)
qed

theorem enforcePartitionIndex_exact_witness:
  "enforcePartitionIndex (Some (Fin (of_nat 2))) (Fin (of_nat 3)) = Inr ()
   \<and> enforcePartitionIndex (Some NaN) (Fin (of_nat 3)) \<noteq> Inr ()"
  using enforcePartitionIndex_exact by (metis (no_types) number.distinct(1) option.inject
      lessI numeral_3_eq_3 numeral_2_eq_2)

end
