(* ===== verification/FlowEvaluator.thy ===== *)
theory FlowEvaluator
  imports CoreTypes "HOL-Library.Multiset"
begin

text \<open>
  The flow decision function, \<open>packages/core/src/flow/flow-evaluator.ts\<close>.

  A status pattern with wildcards is turned by the code into the source of a regular
  expression anchored at both ends. The model keeps that compilation step: \<open>compilePattern\<close>
  produces the regular expression as a list of tokens (\<open>.*\<close>, \<open>.\<close>, an escaped literal) and
  \<open>regexTest\<close> is the matching of such an expression, in which a dot does not match a line
  terminator.
\<close>

section \<open>Patterns\<close>

datatype regexToken = DotStar | Dot | Literal char

definition isLineTerminator :: "char \<Rightarrow> bool" where
  "isLineTerminator c \<longleftrightarrow> of_char c \<in> {10, 13 :: nat}"

definition isWildcard :: "char \<Rightarrow> bool" where
  "isWildcard c \<longleftrightarrow> c = CHR ''*'' \<or> c = CHR ''?''"

definition compileChar :: "char \<Rightarrow> regexToken" where
  "compileChar ch = (if ch = CHR ''*'' then DotStar else if ch = CHR ''?'' then Dot else Literal ch)"

definition compilePattern :: "string \<Rightarrow> regexToken list" where
  "compilePattern pattern = map compileChar pattern"

text \<open>\<open>new RegExp(`^${source}$`).test(status)\<close>, by backtracking.\<close>

fun regexTest :: "regexToken list \<Rightarrow> string \<Rightarrow> bool" where
  "regexTest [] s = (s = [])"
| "regexTest (Literal c # ts) s = (case s of [] \<Rightarrow> False | x # xs \<Rightarrow> x = c \<and> regexTest ts xs)"
| "regexTest (Dot # ts) s =
     (case s of [] \<Rightarrow> False | x # xs \<Rightarrow> \<not> isLineTerminator x \<and> regexTest ts xs)"
| "regexTest (DotStar # ts) [] = regexTest ts []"
| "regexTest (DotStar # ts) (x # xs) =
     (regexTest ts (x # xs) \<or> (\<not> isLineTerminator x \<and> regexTest (DotStar # ts) xs))"

definition hasWildcard :: "string \<Rightarrow> bool" where
  "hasWildcard pattern \<longleftrightarrow> list_ex isWildcard pattern"

definition matchesPattern :: "string \<Rightarrow> string \<Rightarrow> bool" where
  "matchesPattern pattern status =
     (if \<not> hasWildcard pattern then pattern = status
      else regexTest (compilePattern pattern) status)"

definition patternSpecificity :: "string \<Rightarrow> nat" where
  "patternSpecificity pattern =
     (let score = length (filter (\<lambda>ch. \<not> isWildcard ch) pattern)
      in if hasWildcard pattern then score else score + 1000)"

section \<open>The evaluator\<close>

definition matchesTransition :: "transitionDefinition \<Rightarrow> string \<Rightarrow> string \<Rightarrow> bool" where
  "matchesTransition t stepId status \<longleftrightarrow>
     fromStepId t = stepId \<and> matchesPattern (onStatus t) status"

definition ambiguousTransitionError :: "string \<Rightarrow> string \<Rightarrow> nat \<Rightarrow> exn" where
  "ambiguousTransitionError stepId status n =
     invalidFlowGraphError ''AMBIGUOUS_TRANSITION''
       (''Ambiguous transition from '' @ stepId @ '' on status '' @ status @ '': ''
         @ showNat n @ '' matches'')"

definition specificityOf :: "transitionDefinition \<Rightarrow> nat" where
  "specificityOf t = patternSpecificity (onStatus t)"

text \<open>The candidates of maximal specificity, \<open>Math.max(...ranked)\<close> and the filter after it.\<close>

definition bestMatches :: "transitionDefinition list \<Rightarrow> transitionDefinition list" where
  "bestMatches matches =
     (let maxSpecificity = Max (set (map specificityOf matches))
      in filter (\<lambda>t. specificityOf t = maxSpecificity) matches)"

definition evaluate :: "transitionDefinition list \<Rightarrow> string \<Rightarrow> string \<Rightarrow> exn + string option" where
  "evaluate transitions stepId status =
     (let matches = filter (\<lambda>t. matchesTransition t stepId status) transitions
      in if matches = [] then Inr None
         else
           (let best = bestMatches matches
            in if 1 < length best
               then Inl (ambiguousTransitionError stepId status (length best))
               else Inr (toStepId (hd best))))"

section \<open>Facts about patterns\<close>

text \<open>What one pattern character stands for: the segments of the status it can cover.\<close>

definition covers :: "char \<Rightarrow> string \<Rightarrow> bool" where
  "covers ch seg =
     (if ch = CHR ''*'' then \<not> list_ex isLineTerminator seg
      else if ch = CHR ''?'' then length seg = 1 \<and> \<not> list_ex isLineTerminator seg
      else seg = [ch])"

lemma covers_Star_Cons:
  "covers CHR ''*'' (x # seg) \<longleftrightarrow> \<not> isLineTerminator x \<and> covers CHR ''*'' seg"
  by (auto simp: covers_def)

lemma covers_Star_Nil [simp]: "covers CHR ''*'' []"
  by (simp add: covers_def)

lemma list_all2_covers_Cons:
  "(\<exists>segs. list_all2 covers (c # p) segs \<and> s = concat segs) \<longleftrightarrow>
   (\<exists>seg rest. covers c seg \<and> s = seg @ rest \<and> (\<exists>segs. list_all2 covers p segs \<and> rest = concat segs))"
proof
  assume "\<exists>segs. list_all2 covers (c # p) segs \<and> s = concat segs"
  then obtain seg segs where "covers c seg" "list_all2 covers p segs" "s = seg @ concat segs"
    by (auto simp: list_all2_Cons1)
  then show "\<exists>seg rest. covers c seg \<and> s = seg @ rest
      \<and> (\<exists>segs. list_all2 covers p segs \<and> rest = concat segs)"
    by blast
next
  assume "\<exists>seg rest. covers c seg \<and> s = seg @ rest
      \<and> (\<exists>segs. list_all2 covers p segs \<and> rest = concat segs)"
  then obtain seg segs where "covers c seg" "list_all2 covers p segs" "s = seg @ concat segs"
    by blast
  then show "\<exists>segs. list_all2 covers (c # p) segs \<and> s = concat segs"
    by (intro exI [of _ "seg # segs"]) simp
qed

lemma regexTest_DotStar:
  "regexTest (DotStar # ts) s \<longleftrightarrow>
   (\<exists>seg rest. covers CHR ''*'' seg \<and> s = seg @ rest \<and> regexTest ts rest)"
proof (induction s)
  case Nil
  then show ?case by auto
next
  case (Cons x xs)
  show ?case
  proof
    assume "regexTest (DotStar # ts) (x # xs)"
    then consider "regexTest ts (x # xs)"
      | "\<not> isLineTerminator x" "regexTest (DotStar # ts) xs" by auto
    then show "\<exists>seg rest. covers CHR ''*'' seg \<and> x # xs = seg @ rest \<and> regexTest ts rest"
    proof cases
      case 1
      then show ?thesis by (intro exI [of _ "[]"] exI [of _ "x # xs"]) simp
    next
      case 2
      then obtain seg rest where "covers CHR ''*'' seg" "xs = seg @ rest" "regexTest ts rest"
        using Cons.IH by auto
      with 2 show ?thesis
        by (intro exI [of _ "x # seg"] exI [of _ rest]) (simp add: covers_Star_Cons)
    qed
  next
    assume "\<exists>seg rest. covers CHR ''*'' seg \<and> x # xs = seg @ rest \<and> regexTest ts rest"
    then obtain seg rest where h: "covers CHR ''*'' seg" "x # xs = seg @ rest" "regexTest ts rest"
      by blast
    show "regexTest (DotStar # ts) (x # xs)"
    proof (cases seg)
      case Nil
      with h(2,3) have "regexTest ts (x # xs)" by simp
      then show ?thesis by simp
    next
      case (Cons y seg')
      with h have "\<not> isLineTerminator x" "covers CHR ''*'' seg'" "xs = seg' @ rest"
        by (auto simp: covers_Star_Cons)
      then have "regexTest (DotStar # ts) xs" using Cons.IH h(3) by blast
      with \<open>\<not> isLineTerminator x\<close> show ?thesis by simp
    qed
  qed
qed

lemma regexTest_iff_segments:
  "regexTest (compilePattern p) s \<longleftrightarrow> (\<exists>segs. list_all2 covers p segs \<and> s = concat segs)"
proof (induction p arbitrary: s)
  case Nil
  then show ?case by (simp add: compilePattern_def)
next
  case (Cons c p)
  note IH = Cons.IH [unfolded compilePattern_def]
  have "regexTest (compilePattern (c # p)) s \<longleftrightarrow>
    (\<exists>seg rest. covers c seg \<and> s = seg @ rest \<and> regexTest (compilePattern p) rest)"
  proof (cases "c = CHR ''*''")
    case True
    then show ?thesis
      by (simp add: compilePattern_def compileChar_def regexTest_DotStar)
  next
    case False
    then show ?thesis
      by (cases s) (auto simp: compilePattern_def compileChar_def covers_def length_Suc_conv)
  qed
  also have "\<dots> \<longleftrightarrow> (\<exists>segs. list_all2 covers (c # p) segs \<and> s = concat segs)"
    unfolding list_all2_covers_Cons by (simp add: Cons.IH)
  finally show ?case .
qed

lemma covers_literal_pattern:
  assumes "\<not> hasWildcard p"
  shows "(\<exists>segs. list_all2 covers p segs \<and> s = concat segs) \<longleftrightarrow> p = s"
  using assms
proof (induction p arbitrary: s)
  case Nil
  then show ?case by auto
next
  case (Cons c p)
  then have "\<not> hasWildcard p" and "\<not> isWildcard c" by (auto simp: hasWildcard_def)
  then have "covers c seg \<longleftrightarrow> seg = [c]" for seg
    by (auto simp: covers_def isWildcard_def)
  with Cons.IH [OF \<open>\<not> hasWildcard p\<close>] show ?case
    unfolding list_all2_covers_Cons by auto
qed

text \<open>A matching wildcard pattern has no more literal characters than the status has characters.\<close>

lemma regexTest_literal_bound:
  "regexTest (compilePattern p) s \<Longrightarrow> length (filter (\<lambda>ch. \<not> isWildcard ch) p) \<le> length s"
proof -
  assume "regexTest (compilePattern p) s"
  then obtain segs where "list_all2 covers p segs" "s = concat segs"
    by (auto simp: regexTest_iff_segments)
  then show ?thesis
  proof (induction p segs arbitrary: s rule: list_all2_induct)
    case Nil
    then show ?case by simp
  next
    case (Cons c p seg segs)
    then have "length (filter (\<lambda>ch. \<not> isWildcard ch) p) \<le> length (concat segs)" by simp
    moreover have "\<not> isWildcard c \<Longrightarrow> length seg = 1"
      using Cons.hyps(1) by (auto simp: covers_def isWildcard_def)
    ultimately show ?case using Cons.prems by auto
  qed
qed

lemma matchesPattern_literal_self: "\<not> hasWildcard s \<Longrightarrow> matchesPattern s s"
  by (simp add: matchesPattern_def)

lemma specificity_wildcard_less:
  assumes "matchesPattern p s" and "hasWildcard p" and "\<not> hasWildcard s"
  shows "patternSpecificity p < patternSpecificity s"
proof -
  have "\<not> (\<exists>ch \<in> set s. isWildcard ch)"
    using assms(3) by (simp add: hasWildcard_def list_ex_iff)
  then have "filter (\<lambda>ch. \<not> isWildcard ch) s = s" by (simp add: filter_id_conv)
  then have "patternSpecificity s = length s + 1000"
    using assms(3) by (simp add: patternSpecificity_def)
  moreover have "patternSpecificity p \<le> length s"
    using assms regexTest_literal_bound [of p s]
    by (simp add: patternSpecificity_def matchesPattern_def)
  ultimately show ?thesis by simp
qed

section \<open>Facts about the evaluator\<close>

lemma bestMatches_nonempty:
  assumes "xs \<noteq> []"
  shows "bestMatches xs \<noteq> []"
proof -
  have "Max (set (map specificityOf xs)) \<in> set (map specificityOf xs)"
    using assms by (intro Max_in) auto
  then show ?thesis by (auto simp: bestMatches_def filter_empty_conv)
qed

lemma bestMatches_subset: "set (bestMatches xs) \<subseteq> set xs"
  by (auto simp: bestMatches_def)

lemma evaluate_no_match:
  "\<forall>t \<in> set ts. \<not> matchesTransition t stepId status \<Longrightarrow> evaluate ts stepId status = Inr None"
  by (simp add: evaluate_def)

lemma evaluate_Inr_in_set:
  assumes "evaluate ts stepId status = Inr target"
    and "\<exists>t \<in> set ts. matchesTransition t stepId status"
  shows "\<exists>t \<in> set ts. matchesTransition t stepId status \<and> toStepId t = target"
proof -
  define ms where "ms = filter (\<lambda>t. matchesTransition t stepId status) ts"
  from assms(2) have "ms \<noteq> []" by (auto simp: ms_def filter_empty_conv)
  with assms(1) have "toStepId (hd (bestMatches ms)) = target"
    by (auto simp: evaluate_def ms_def [symmetric] Let_def split: if_splits)
  moreover have "hd (bestMatches ms) \<in> set ms"
    using bestMatches_nonempty [OF \<open>ms \<noteq> []\<close>] bestMatches_subset hd_in_set by blast
  ultimately show ?thesis by (auto simp: ms_def)
qed

section \<open>Properties\<close>

text \<open>
  C40: a pattern matches a status exactly when the status can be cut into one segment per
  pattern character, a star covering any run without line terminators, a question mark one
  character that is no line terminator, every other character itself. In particular the
  characters with a meaning in regular expressions are matched literally.
\<close>
theorem matchesPattern_segments:
  "matchesPattern pattern status \<longleftrightarrow>
   (\<exists>segs. list_all2 covers pattern segs \<and> status = concat segs)"
  by (simp add: matchesPattern_def regexTest_iff_segments covers_literal_pattern)

text \<open>
  An exact transition wins: when exactly one transition of the step names the status
  literally, the evaluator answers with its target, whatever wildcard transitions the step
  has besides, and never reports an ambiguity.
\<close>
theorem evaluate_exact_wins:
  assumes "filter (\<lambda>t. fromStepId t = stepId \<and> onStatus t = status) ts = [t]"
    and "\<not> hasWildcard status"
  shows "evaluate ts stepId status = Inr (toStepId t)"
proof -
  define ms where "ms = filter (\<lambda>t. matchesTransition t stepId status) ts"
  have self: "matchesPattern status status"
    using assms(2) by (rule matchesPattern_literal_self)
  have "t \<in> set (filter (\<lambda>t. fromStepId t = stepId \<and> onStatus t = status) ts)"
    using assms(1) by simp
  then have mem: "t \<in> set ms" and st: "onStatus t = status"
    using self by (auto simp: ms_def matchesTransition_def)
  have less: "specificityOf u < specificityOf t" if "u \<in> set ms" "onStatus u \<noteq> status" for u
  proof -
    have "matchesPattern (onStatus u) status" and "hasWildcard (onStatus u)"
      using that by (auto simp: ms_def matchesTransition_def matchesPattern_def split: if_splits)
    then show ?thesis
      using specificity_wildcard_less assms(2) st by (simp add: specificityOf_def)
  qed
  have eqv: "specificityOf u = specificityOf t \<longleftrightarrow> onStatus u = status"
    and le: "specificityOf u \<le> specificityOf t" if "u \<in> set ms" for u
    using less [OF that] st by (cases "onStatus u = status"; auto simp: specificityOf_def)+
  have max: "Max (set (map specificityOf ms)) = specificityOf t"
    using mem le by (intro Max_eqI) auto
  have "bestMatches ms = filter (\<lambda>u. onStatus u = status) ms"
    unfolding bestMatches_def Let_def max by (intro filter_cong refl) (simp add: eqv)
  also have "\<dots> = filter (\<lambda>u. fromStepId u = stepId \<and> onStatus u = status) ts"
    unfolding ms_def filter_filter
    using self by (intro filter_cong refl) (auto simp: matchesTransition_def)
  also have "\<dots> = [t]" by (rule assms(1))
  finally have "bestMatches ms = [t]" .
  moreover have "ms \<noteq> []" using mem by auto
  ultimately show ?thesis by (simp add: evaluate_def ms_def [symmetric])
qed

theorem evaluate_exact_wins_witness:
  "evaluate [\<lparr>fromStepId = ''a'', onStatus = ''*'', toStepId = Some ''c''\<rparr>,
             \<lparr>fromStepId = ''a'', onStatus = ''FAILED'', toStepId = Some ''b''\<rparr>] ''a'' ''FAILED''
   = Inr (Some ''b'')"
  using evaluate_exact_wins
    [of "''a''" "''FAILED''"
      "[\<lparr>fromStepId = ''a'', onStatus = ''*'', toStepId = Some ''c''\<rparr>,
        \<lparr>fromStepId = ''a'', onStatus = ''FAILED'', toStepId = Some ''b''\<rparr>]"
      "\<lparr>fromStepId = ''a'', onStatus = ''FAILED'', toStepId = Some ''b''\<rparr>"]
  by (simp add: hasWildcard_def isWildcard_def)

text \<open>
  The decision does not depend on the order in which the transitions were declared: on
  any rearrangement of the transition list the evaluator gives the same target, the same
  end of flow, or the same ambiguity error.
\<close>
theorem evaluate_order_irrelevant:
  assumes "mset ts = mset us"
  shows "evaluate ts stepId status = evaluate us stepId status"
proof -
  define ms where "ms xs = filter (\<lambda>t. matchesTransition t stepId status) xs" for xs
  have m: "mset (ms ts) = mset (ms us)" using assms by (simp add: ms_def)
  then have s: "set (ms ts) = set (ms us)" by (rule mset_eq_setD)
  have b: "mset (bestMatches (ms ts)) = mset (bestMatches (ms us))"
    using m s by (simp add: bestMatches_def Let_def)
  have hd: "hd (bestMatches (ms ts)) = hd (bestMatches (ms us))"
    if "ms ts \<noteq> []" "\<not> 1 < length (bestMatches (ms ts))"
  proof -
    from that bestMatches_nonempty have "length (bestMatches (ms ts)) = 1"
      by (metis One_nat_def less_one linorder_neqE_nat length_0_conv)
    then obtain t where "bestMatches (ms ts) = [t]" by (auto simp: length_Suc_conv)
    with b show ?thesis by simp
  qed
  have len: "length (bestMatches (ms ts)) = length (bestMatches (ms us))"
    using b by (rule mset_eq_length)
  have nil: "ms ts = [] \<longleftrightarrow> ms us = []" using m by (metis mset_zero_iff)
  show ?thesis
    unfolding evaluate_def ms_def [symmetric] Let_def using nil len hd by auto
qed

theorem evaluate_order_irrelevant_witness:
  "evaluate [\<lparr>fromStepId = ''a'', onStatus = ''*'', toStepId = Some ''c''\<rparr>,
             \<lparr>fromStepId = ''a'', onStatus = ''F*'', toStepId = Some ''b''\<rparr>] ''a'' ''FAILED''
   = evaluate [\<lparr>fromStepId = ''a'', onStatus = ''F*'', toStepId = Some ''b''\<rparr>,
             \<lparr>fromStepId = ''a'', onStatus = ''*'', toStepId = Some ''c''\<rparr>] ''a'' ''FAILED''"
  by (rule evaluate_order_irrelevant) (simp add: add_mset_commute)

end
