(* ===== verification/DefinitionValidator.thy ===== *)
theory DefinitionValidator
  imports PartitionHelpers
begin

text \<open>
  Structural validation of a job graph
  (\<open>packages/core/src/core/validation/definition-validator.ts\<close>) and the registry that runs
  it before it accepts a job (\<open>packages/core/src/registry/job-registry.ts\<close>).

  \<open>collectReachable\<close> is the code's breadth-first search with its queue; \<open>detectCycle\<close> its
  recursive depth-first search, with the recursion depth bounded by fuel. \<open>validate_iff\<close>
  says which graphs are accepted, in terms of the edge relation of the transitions.
\<close>

section \<open>The transition graph\<close>

definition succs :: "transitionDefinition list \<Rightarrow> string \<Rightarrow> string list" where
  "succs ts cur = map (\<lambda>t. the (toStepId t))
     (filter (\<lambda>t. fromStepId t = cur \<and> toStepId t \<noteq> None) ts)"

definition stepEdges :: "transitionDefinition list \<Rightarrow> (string \<times> string) set" where
  "stepEdges ts = {(a, b). b \<in> set (succs ts a)}"

definition graphTargets :: "transitionDefinition list \<Rightarrow> string set" where
  "graphTargets ts = (\<lambda>t. the (toStepId t)) ` {t \<in> set ts. toStepId t \<noteq> None}"

lemma finite_graphTargets [simp]: "finite (graphTargets ts)"
  by (simp add: graphTargets_def)

lemma succs_targets: "set (succs ts a) \<subseteq> graphTargets ts"
  by (auto simp: succs_def graphTargets_def)

lemma card_graphTargets: "card (graphTargets ts) \<le> length ts"
  unfolding graphTargets_def
  by (rule le_trans [OF card_image_le]) (auto intro: le_trans [OF card_mono card_length])

section \<open>Reachability: breadth-first search\<close>

text \<open>One step of the loop takes the head of the queue; \<open>reachable\<close> is the visited set.\<close>

function bfs :: "transitionDefinition list \<Rightarrow> string list \<Rightarrow> string list \<Rightarrow> string list" where
  "bfs ts [] reachable = reachable"
| "bfs ts (cur # queue) reachable =
     (if cur \<in> set reachable then bfs ts queue reachable
      else
        (let reachable' = reachable @ [cur]
         in bfs ts (queue @ filter (\<lambda>y. y \<notin> set reachable') (succs ts cur)) reachable'))"
  by pat_completeness auto
termination
proof (relation "measures [\<lambda>(ts, q, r). card (set q \<union> graphTargets ts - set r), \<lambda>(ts, q, r). length q]",
    goal_cases)
  case 1
  show ?case by simp
next
  case (2 ts cur queue reachable)
  then have "card (set queue \<union> graphTargets ts - set reachable)
      \<le> card (set (cur # queue) \<union> graphTargets ts - set reachable)"
    by (intro card_mono) auto
  then show ?case by auto
next
  case (3 ts cur queue reachable x)
  have "card (set (queue @ filter (\<lambda>y. y \<notin> set x) (succs ts cur)) \<union> graphTargets ts - set x)
      < card (set (cur # queue) \<union> graphTargets ts - set reachable)"
    using 3 succs_targets [of ts cur] by (intro psubset_card_mono) auto
  then show ?case by simp
qed

definition collectReachable :: "('w, 'i) jobDefinition \<Rightarrow> string list" where
  "collectReachable job = bfs (job_transitions job) [job_startStepId job] []"

lemma bfs_sound:
  "set (bfs ts q r) \<subseteq> set r \<union> (stepEdges ts)\<^sup>* `` set q"
proof (induction ts q r rule: bfs.induct)
  case (1 ts reachable)
  then show ?case by simp
next
  case (2 ts cur queue reachable)
  show ?case
  proof (cases "cur \<in> set reachable")
    case True
    with 2 show ?thesis by auto
  next
    case False
    have "(cur, y) \<in> (stepEdges ts)\<^sup>*" if "y \<in> set (succs ts cur)" for y
      using that by (auto simp: stepEdges_def)
    then have "(stepEdges ts)\<^sup>* `` set (queue @ filter (\<lambda>y. y \<notin> set (reachable @ [cur])) (succs ts cur))
        \<subseteq> (stepEdges ts)\<^sup>* `` set (cur # queue)"
      by (auto intro: rtrancl_trans)
    with "2.IH"(2) [OF False refl] False show ?thesis by (auto simp: Let_def)
  qed
qed

lemma bfs_complete:
  assumes "\<forall>x \<in> set r. set (succs ts x) \<subseteq> set r \<union> set q"
  shows "set r \<union> set q \<subseteq> set (bfs ts q r)
    \<and> (\<forall>x \<in> set (bfs ts q r). set (succs ts x) \<subseteq> set (bfs ts q r))"
  using assms
proof (induction ts q r rule: bfs.induct)
  case (1 ts reachable)
  then show ?case by simp
next
  case (2 ts cur queue reachable)
  show ?case
  proof (cases "cur \<in> set reachable")
    case True
    have "\<forall>x \<in> set reachable. set (succs ts x) \<subseteq> set reachable \<union> set queue"
      using "2.prems" True by auto
    from "2.IH"(1) [OF True this] True show ?thesis by auto
  next
    case False
    have "\<forall>x \<in> set (reachable @ [cur]). set (succs ts x) \<subseteq> set (reachable @ [cur])
        \<union> set (queue @ filter (\<lambda>y. y \<notin> set (reachable @ [cur])) (succs ts cur))"
      using "2.prems" by auto
    from "2.IH"(2) [OF False refl this] False show ?thesis by (auto simp: Let_def)
  qed
qed

lemma bfs_reachable: "set (bfs ts [s] []) = (stepEdges ts)\<^sup>* `` {s}"
proof
  show "set (bfs ts [s] []) \<subseteq> (stepEdges ts)\<^sup>* `` {s}"
    using bfs_sound [of ts "[s]" "[]"] by simp
next
  have start: "s \<in> set (bfs ts [s] [])"
    and closed: "\<forall>x \<in> set (bfs ts [s] []). set (succs ts x) \<subseteq> set (bfs ts [s] [])"
    using bfs_complete [of "[]" ts "[s]"] by auto
  have "y \<in> set (bfs ts [s] [])" if "(s, y) \<in> (stepEdges ts)\<^sup>*" for y
    using that
  proof induction
    case base
    show ?case by (rule start)
  next
    case (step y z)
    with closed show ?case by (auto simp: stepEdges_def)
  qed
  then show "(stepEdges ts)\<^sup>* `` {s} \<subseteq> set (bfs ts [s] [])" by auto
qed

section \<open>Cycle detection: depth-first search\<close>

definition cycleError :: "string \<Rightarrow> string list \<Rightarrow> exn" where
  "cycleError jobId path = invalidFlowGraphError ''CYCLE_DETECTED''
     (''Cycle detected in job '' @ inQuotes jobId @ '': '' @ joinWith '' -> '' path)"

text \<open>
  The two mutable sets are passed through: the result is the error thrown, or the sets as
  the call leaves them; \<open>None\<close> is exhausted fuel. \<open>visitAll\<close> is the \<open>for\<close> loop over the
  transitions of a step.
\<close>

type_synonym dfsSets = "string list \<times> string list"

fun visitAll :: "(string \<Rightarrow> string list \<Rightarrow> string list \<Rightarrow> (exn + dfsSets) option) \<Rightarrow>
    string list \<Rightarrow> string list \<Rightarrow> string list \<Rightarrow> (exn + dfsSets) option" where
  "visitAll f [] visited inStack = Some (Inr (visited, inStack))"
| "visitAll f (s # ss) visited inStack = (case f s visited inStack of
      None \<Rightarrow> None
    | Some (Inl e) \<Rightarrow> Some (Inl e)
    | Some (Inr (v, st)) \<Rightarrow> visitAll f ss v st)"

fun detectCycle :: "nat \<Rightarrow> transitionDefinition list \<Rightarrow> string \<Rightarrow> string list \<Rightarrow> string \<Rightarrow>
    string list \<Rightarrow> string list \<Rightarrow> (exn + dfsSets) option" where
  "detectCycle 0 ts jobId path stepId visited inStack = None"
| "detectCycle (Suc n) ts jobId path stepId visited inStack =
     (if stepId \<in> set inStack then Some (Inl (cycleError jobId (path @ [stepId])))
      else if stepId \<in> set visited then Some (Inr (visited, inStack))
      else (case visitAll (\<lambda>s v st. detectCycle n ts jobId (path @ [stepId]) s v st)
                  (succs ts stepId) (stepId # visited) (stepId # inStack) of
          None \<Rightarrow> None
        | Some (Inl e) \<Rightarrow> Some (Inl e)
        | Some (Inr (v, st)) \<Rightarrow> Some (Inr (v, removeAll stepId st))))"

definition assertAcyclic :: "('w, 'i) jobDefinition \<Rightarrow> exn + unit" where
  "assertAcyclic job =
     (case detectCycle (length (job_transitions job) + 2) (job_transitions job) (job_id job) []
             (job_startStepId job) [] [] of
        Some (Inl e) \<Rightarrow> Inl e
      | _ \<Rightarrow> Inr ())"

text \<open>
  The search invariant: the stack is the current path, and every finished step (visited
  and no longer on the stack) has only finished successors and lies on no cycle.
\<close>

definition dfsInv :: "transitionDefinition list \<Rightarrow> string list \<Rightarrow> string list \<Rightarrow> string list \<Rightarrow> bool" where
  "dfsInv ts path visited inStack \<longleftrightarrow>
     set inStack = set path \<and> set path \<subseteq> set visited \<and> distinct path
     \<and> (\<forall>x \<in> set visited - set path. set (succs ts x) \<subseteq> set visited - set path)
     \<and> (\<forall>x \<in> set visited - set path. (x, x) \<notin> (stepEdges ts)\<^sup>+)"

text \<open>Each step of the path, and the step being entered, follows from the one before.\<close>

definition pathTo :: "transitionDefinition list \<Rightarrow> string list \<Rightarrow> string \<Rightarrow> bool" where
  "pathTo ts path s \<longleftrightarrow> (\<forall>x \<in> set path. (x, s) \<in> (stepEdges ts)\<^sup>+)"

lemma closed_trancl:
  assumes "\<forall>x \<in> F. set (succs ts x) \<subseteq> F" and "(x, y) \<in> (stepEdges ts)\<^sup>+" and "x \<in> F"
  shows "y \<in> F"
  using assms(2,3)
proof induction
  case (base y)
  with assms(1) show ?case by (auto simp: stepEdges_def)
next
  case (step y z)
  with assms(1) show ?case by (auto simp: stepEdges_def)
qed

lemma dfsInv_enter:
  assumes "dfsInv ts path v st" and "s \<notin> set st" and "s \<notin> set v"
  shows "dfsInv ts (path @ [s]) (s # v) (s # st)"
proof -
  have "set (s # v) - set (path @ [s]) = set v - set path"
    using assms by (auto simp: dfsInv_def)
  with assms show ?thesis unfolding dfsInv_def by auto
qed

lemma dfsInv_leave:
  assumes inv: "dfsInv ts (path @ [s]) v st"
    and succDone: "set (succs ts s) \<subseteq> set v - set (path @ [s])"
  shows "dfsInv ts path v (removeAll s st)"
proof -
  let ?F = "set v - set (path @ [s])"
  have s: "s \<in> set v" "s \<notin> set path" using inv by (auto simp: dfsInv_def)
  have F: "set v - set path = insert s ?F" using s by auto
  have closed: "\<forall>x \<in> ?F. set (succs ts x) \<subseteq> ?F" using inv by (simp add: dfsInv_def)
  have "(s, s) \<notin> (stepEdges ts)\<^sup>+"
  proof
    assume "(s, s) \<in> (stepEdges ts)\<^sup>+"
    then obtain y where y: "(s, y) \<in> stepEdges ts" "(y, s) \<in> (stepEdges ts)\<^sup>*"
      by (blast dest: tranclD)
    from y(1) have "y \<in> set (succs ts s)" by (simp add: stepEdges_def)
    moreover from y(2) have "y = s \<or> (y, s) \<in> (stepEdges ts)\<^sup>+" by (blast dest: rtranclD)
    ultimately have "s \<in> ?F"
      using succDone closed_trancl [OF closed, of y s] by blast
    then show False by simp
  qed
  then show ?thesis
    using inv succDone unfolding dfsInv_def F by (auto simp: s)
qed

text \<open>What a call delivers, for any fuel with which it does not run out.\<close>

definition dfsOk :: "transitionDefinition list \<Rightarrow> string list \<Rightarrow> string set \<Rightarrow> string list \<Rightarrow>
    (exn + dfsSets) option \<Rightarrow> bool" where
  "dfsOk ts path targets visited r \<longleftrightarrow> (case r of
      None \<Rightarrow> True
    | Some (Inl e) \<Rightarrow> errorCode e = ''CYCLE_DETECTED'' \<and> (\<exists>x. (x, x) \<in> (stepEdges ts)\<^sup>+
        \<and> (x \<in> set path \<or> (\<exists>t \<in> targets. (t, x) \<in> (stepEdges ts)\<^sup>*)))
    | Some (Inr (v, st)) \<Rightarrow> dfsInv ts path v st \<and> set visited \<subseteq> set v
        \<and> targets \<subseteq> set v - set path)"

lemma visitAll_ok:
  assumes "\<And>s v st. s \<in> set ss \<Longrightarrow> dfsInv ts path v st \<Longrightarrow> dfsOk ts path {s} v (f s v st)"
    and "dfsInv ts path v st"
  shows "dfsOk ts path (set ss) v (visitAll f ss v st)"
  using assms
proof (induction ss arbitrary: v st)
  case Nil
  then show ?case by (simp add: dfsOk_def)
next
  case (Cons s ss)
  have head: "dfsOk ts path {s} v (f s v st)"
    using Cons.prems by simp
  show ?case
  proof (cases "f s v st")
    case None
    then show ?thesis by (simp add: dfsOk_def)
  next
    case (Some r)
    show ?thesis
    proof (cases r)
      case (Inl e)
      with Some head show ?thesis by (auto simp: dfsOk_def)
    next
      case (Inr p)
      obtain v' st' where p: "p = (v', st')" by (cases p)
      with Some Inr head have inv: "dfsInv ts path v' st'" and sub: "set v \<subseteq> set v'"
        and s: "s \<in> set v' - set path"
        by (auto simp: dfsOk_def)
      have "dfsOk ts path (set ss) v' (visitAll f ss v' st')"
        using Cons.IH [OF _ inv] Cons.prems(1) by simp
      with Some Inr p sub s show ?thesis
        by (auto simp: dfsOk_def split: option.splits sum.splits prod.splits)
    qed
  qed
qed

lemma detectCycle_ok:
  assumes "dfsInv ts path visited inStack" and "pathTo ts path s"
  shows "dfsOk ts path {s} visited (detectCycle n ts jobId path s visited inStack)"
  using assms
proof (induction n arbitrary: path s visited inStack)
  case 0
  then show ?case by (simp add: dfsOk_def)
next
  case (Suc n)
  consider "s \<in> set inStack" | "s \<notin> set inStack" "s \<in> set visited"
    | "s \<notin> set inStack" "s \<notin> set visited" by blast
  then show ?case
  proof cases
    case 1
    then have "s \<in> set path" using Suc.prems by (simp add: dfsInv_def)
    with Suc.prems have "(s, s) \<in> (stepEdges ts)\<^sup>+" by (simp add: pathTo_def)
    with 1 \<open>s \<in> set path\<close> show ?thesis
      by (auto simp: dfsOk_def cycleError_def invalidFlowGraphError_def batchError_def)
  next
    case 2
    with Suc.prems show ?thesis by (auto simp: dfsOk_def dfsInv_def)
  next
    case 3
    let ?f = "\<lambda>s' v st. detectCycle n ts jobId (path @ [s]) s' v st"
    have inv: "dfsInv ts (path @ [s]) (s # visited) (s # inStack)"
      using Suc.prems 3 by (intro dfsInv_enter) auto
    have to: "pathTo ts (path @ [s]) y" if "y \<in> set (succs ts s)" for y
      using that Suc.prems(2) unfolding pathTo_def
      by (auto simp: stepEdges_def intro: trancl.trancl_into_trancl)
    have all: "dfsOk ts (path @ [s]) (set (succs ts s)) (s # visited)
        (visitAll ?f (succs ts s) (s # visited) (s # inStack))"
      using Suc.IH to by (intro visitAll_ok inv) auto
    show ?thesis
    proof (cases "visitAll ?f (succs ts s) (s # visited) (s # inStack)")
      case None
      with 3 show ?thesis by (simp add: dfsOk_def)
    next
      case (Some r)
      show ?thesis
      proof (cases r)
        case (Inl e)
        from all Some Inl obtain x where x: "(x, x) \<in> (stepEdges ts)\<^sup>+" "errorCode e = ''CYCLE_DETECTED''"
          "x \<in> set (path @ [s]) \<or> (\<exists>t \<in> set (succs ts s). (t, x) \<in> (stepEdges ts)\<^sup>*)"
          by (auto simp: dfsOk_def)
        then have "x \<in> set path \<or> (s, x) \<in> (stepEdges ts)\<^sup>*"
          by (auto simp: stepEdges_def intro: converse_rtrancl_into_rtrancl)
        with x 3 Some Inl show ?thesis by (auto simp: dfsOk_def)
      next
        case (Inr p)
        obtain v st where p: "p = (v, st)" by (cases p)
        with all Some Inr have i: "dfsInv ts (path @ [s]) v st" and sub: "set (s # visited) \<subseteq> set v"
          and succ: "set (succs ts s) \<subseteq> set v - set (path @ [s])"
          by (auto simp: dfsOk_def)
        have "dfsInv ts path v (removeAll s st)" by (rule dfsInv_leave [OF i succ])
        moreover have "s \<in> set v - set path" using i sub by (auto simp: dfsInv_def)
        ultimately show ?thesis using 3 Some Inr p sub by (simp add: dfsOk_def)
      qed
    qed
  qed
qed

text \<open>Enough fuel: the path is a list of distinct steps of the graph.\<close>

lemma detectCycle_fuel:
  assumes "finite N" and "graphTargets ts \<subseteq> N" and "s \<in> N" and "set path \<subseteq> N"
    and "dfsInv ts path visited inStack" and "pathTo ts path s" and "card N < length path + n"
  shows "detectCycle n ts jobId path s visited inStack \<noteq> None"
  using assms(3-)
proof (induction n arbitrary: path s visited inStack)
  case 0
  then have "length path = card (set path)" by (simp add: dfsInv_def distinct_card)
  also have "\<dots> \<le> card N" using 0 assms(1) by (intro card_mono) auto
  finally show ?case using 0 by simp
next
  case (Suc n)
  show ?case
  proof (cases "s \<in> set inStack \<or> s \<in> set visited")
    case True
    then show ?thesis by auto
  next
    case False
    let ?f = "\<lambda>s' v st. detectCycle n ts jobId (path @ [s]) s' v st"
    have inv: "dfsInv ts (path @ [s]) (s # visited) (s # inStack)"
      using Suc.prems False by (intro dfsInv_enter) auto
    have to: "pathTo ts (path @ [s]) y" if "y \<in> set (succs ts s)" for y
      using that Suc.prems(4) unfolding pathTo_def
      by (auto simp: stepEdges_def intro: trancl.trancl_into_trancl)
    have "visitAll ?f ss v st \<noteq> None"
      if "set ss \<subseteq> set (succs ts s)" "dfsInv ts (path @ [s]) v st" for ss v st
      using that
    proof (induction ss arbitrary: v st)
      case Nil
      then show ?case by simp
    next
      case (Cons y ss)
      have y: "y \<in> N" "pathTo ts (path @ [s]) y"
        using Cons.prems(1) succs_targets [of ts s] assms(2) to by auto
      then have "?f y v st \<noteq> None"
        using Suc.prems Cons.prems(2) by (intro Suc.IH) auto
      moreover have "dfsOk ts (path @ [s]) {y} v (?f y v st)"
        using Cons.prems(2) y(2) by (rule detectCycle_ok)
      ultimately show ?case
        using Cons.IH Cons.prems(1) by (auto simp: dfsOk_def split: sum.splits prod.splits)
    qed
    from this [OF order_refl inv] False show ?thesis
      by (auto split: sum.splits prod.splits)
  qed
qed

lemma dfsInv_Nil: "dfsInv ts [] [] []"
  by (simp add: dfsInv_def)

lemma assertAcyclic_iff:
  "assertAcyclic job = Inr () \<longleftrightarrow>
   (\<forall>x. (job_startStepId job, x) \<in> (stepEdges (job_transitions job))\<^sup>* \<longrightarrow>
        (x, x) \<notin> (stepEdges (job_transitions job))\<^sup>+)"
proof -
  let ?ts = "job_transitions job" and ?s = "job_startStepId job"
  let ?r = "detectCycle (length ?ts + 2) ?ts (job_id job) [] ?s [] []"
  have "card (insert ?s (graphTargets ?ts)) \<le> Suc (length ?ts)"
    using card_graphTargets [of ?ts] card_insert_le_m1
    by (metis Suc_le_mono card_insert_if finite_graphTargets le_SucI)
  then have ne: "?r \<noteq> None"
    by (intro detectCycle_fuel [where N = "insert ?s (graphTargets ?ts)"])
      (auto simp: dfsInv_Nil pathTo_def)
  have ok: "dfsOk ?ts [] {?s} [] ?r"
    by (rule detectCycle_ok) (simp_all add: dfsInv_Nil pathTo_def)
  show ?thesis
  proof (cases ?r)
    case None
    with ne show ?thesis by simp
  next
    case (Some r)
    show ?thesis
    proof (cases r)
      case (Inl e)
      with Some ok show ?thesis by (auto simp: dfsOk_def assertAcyclic_def)
    next
      case (Inr p)
      obtain v st where "p = (v, st)" by (cases p)
      with Some Inr ok have i: "dfsInv ?ts [] v st" and s: "?s \<in> set v"
        by (auto simp: dfsOk_def)
      have "x \<in> set v" if "(?s, x) \<in> (stepEdges ?ts)\<^sup>*" for x
        using that s i closed_trancl [of "set v" ?ts ?s x]
        by (auto simp: dfsInv_def dest!: rtranclD)
      with i Some Inr \<open>p = _\<close> show ?thesis by (auto simp: dfsInv_def assertAcyclic_def)
    qed
  qed
qed

section \<open>The validator\<close>

definition hasStep :: "(string, ('w, 'i) stepDefinition) jsmap \<Rightarrow> string \<Rightarrow> bool" where
  "hasStep steps s \<longleftrightarrow> mapGet steps s \<noteq> None"

definition requireThat :: "bool \<Rightarrow> exn \<Rightarrow> exn + unit" where
  "requireThat b e = (if b then Inr () else Inl e)"

lemma requireThat_iff [simp]: "requireThat b e = Inr () \<longleftrightarrow> b"
  by (simp add: requireThat_def)

definition validateStep :: "string \<times> ('w, 'i) stepDefinition \<Rightarrow> exn + unit" where
  "validateStep entry = (case snd entry of
      TaskletStep _ \<Rightarrow> Inr ()
    | ChunkStep step \<Rightarrow>
        thenCheck
          (requireThat (0 < cs_chunkSize step)
            (invalidFlowGraphError ''INVALID_CHUNK_SIZE''
              (''Step '' @ inQuotes (fst entry) @ '' has invalid chunkSize '' @ showInt (cs_chunkSize step))))
          (case validatePartitions (cs_partitions step) of
             Inr _ \<Rightarrow> Inr ()
           | Inl err \<Rightarrow> Inl (invalidFlowGraphError ''INVALID_PARTITIONS''
               (''Step '' @ inQuotes (fst entry) @ '' has invalid partitions: '' @ errorText err))))"

definition validateTransitionEnds ::
    "string \<Rightarrow> (string, ('w, 'i) stepDefinition) jsmap \<Rightarrow> transitionDefinition \<Rightarrow> exn + unit" where
  "validateTransitionEnds missing steps t =
     thenCheck
       (requireThat (hasStep steps (fromStepId t))
         (invalidFlowGraphError ''MISSING_TARGET''
           (''Transition fromStepId '' @ inQuotes (fromStepId t) @ missing)))
       (requireThat (toStepId t = None \<or> hasStep steps (the (toStepId t)))
         (invalidFlowGraphError ''MISSING_TARGET''
           (''Transition toStepId '' @ inQuotes (the (toStepId t)) @ missing)))"

text \<open>
  \<open>validateTransition\<close>, the partial check the builders may use; \<open>validate\<close> runs the same
  check with another wording.
\<close>

definition validateTransition ::
    "transitionDefinition list \<Rightarrow> (string, ('w, 'i) stepDefinition) jsmap \<Rightarrow> exn + unit" where
  "validateTransition transitions availableSteps =
     checkAll (validateTransitionEnds '' not in steps'' availableSteps) transitions"

fun validateDeciders :: "(string, ('w, 'i) stepDefinition) jsmap \<Rightarrow> string list \<Rightarrow>
    'w deciderDefinition list \<Rightarrow> exn + unit" where
  "validateDeciders steps seen [] = Inr ()"
| "validateDeciders steps seen (d # ds) =
     thenCheck
       (requireThat (hasStep steps (afterStepId d))
         (invalidFlowGraphError ''MISSING_TARGET''
           (''Decider afterStepId '' @ inQuotes (afterStepId d) @ '' not found in steps'')))
       (thenCheck
         (requireThat (afterStepId d \<notin> set seen)
           (invalidFlowGraphError ''DUPLICATE_DECIDER''
             (''Step '' @ inQuotes (afterStepId d) @ '' has multiple deciders'')))
         (validateDeciders steps (afterStepId d # seen) ds))"

definition validate :: "('w, 'i) jobDefinition \<Rightarrow> exn + unit" where
  "validate job =
     thenCheck
       (requireThat (job_steps job \<noteq> [])
         (invalidFlowGraphError ''EMPTY_JOB'' (''Job '' @ inQuotes (job_id job) @ '' has no steps'')))
     (thenCheck
       (requireThat (hasStep (job_steps job) (job_startStepId job))
         (invalidFlowGraphError ''NO_START_STEP''
           (''Job '' @ inQuotes (job_id job) @ '' startStepId '' @ inQuotes (job_startStepId job)
            @ '' is not in steps'')))
     (thenCheck (checkAll validateStep (job_steps job))
     (thenCheck (checkAll (validateTransitionEnds '' not found in steps'' (job_steps job)) (job_transitions job))
     (thenCheck (validateDeciders (job_steps job) [] (job_deciders job))
     (thenCheck
       (checkAll (\<lambda>s. requireThat (s \<in> set (collectReachable job))
           (invalidFlowGraphError ''UNREACHABLE_STEP''
             (''Step '' @ inQuotes s @ '' is unreachable from startStepId ''
              @ inQuotes (job_startStepId job))))
         (mapKeys (job_steps job)))
       (assertAcyclic job))))))"

lemma validateDeciders_iff:
  "validateDeciders steps seen ds = Inr () \<longleftrightarrow>
   (\<forall>d \<in> set ds. hasStep steps (afterStepId d)) \<and> distinct (map afterStepId ds)
   \<and> set (map afterStepId ds) \<inter> set seen = {}"
  by (induction ds arbitrary: seen) auto

lemma validateStep_iff:
  "validateStep (s, step) = Inr () \<longleftrightarrow> (\<forall>c. step = ChunkStep c \<longrightarrow>
     0 < cs_chunkSize c \<and> validatePartitions (cs_partitions c) = Inr ())"
  by (cases step) (auto simp: validateStep_def split: sum.splits)

lemma validateTransitionEnds_iff:
  "validateTransitionEnds missing steps t = Inr () \<longleftrightarrow> hasStep steps (fromStepId t)
     \<and> (\<forall>y. toStepId t = Some y \<longrightarrow> hasStep steps y)"
  by (cases "toStepId t") (simp_all add: validateTransitionEnds_def)

section \<open>The registry\<close>

type_synonym ('w, 'i) jobRegistry = "(string, ('w, 'i) jobDefinition) jsmap"

definition register :: "('w, 'i) jobDefinition \<Rightarrow> ('w, 'i) jobRegistry \<Rightarrow> exn + ('w, 'i) jobRegistry" where
  "register job definitions =
     (if mapGet definitions (job_id job) \<noteq> None
      then Inl (duplicateJobDefinitionError (job_id job))
      else (case validate job of
          Inl e \<Rightarrow> Inl e
        | Inr _ \<Rightarrow> Inr (mapSet (job_id job) job definitions)))"

definition registryGet :: "('w, 'i) jobRegistry \<Rightarrow> string \<Rightarrow> exn + ('w, 'i) jobDefinition" where
  "registryGet definitions jobId = (case mapGet definitions jobId of
      None \<Rightarrow> Inl (jobNotFoundError jobId)
    | Some def \<Rightarrow> Inr def)"

definition registryHas :: "('w, 'i) jobRegistry \<Rightarrow> string \<Rightarrow> bool" where
  "registryHas definitions jobId \<longleftrightarrow> mapGet definitions jobId \<noteq> None"

definition registryGetAll :: "('w, 'i) jobRegistry \<Rightarrow> ('w, 'i) jobDefinition list" where
  "registryGetAll definitions = mapValues definitions"

text \<open>The registries a program can build: successful registrations, from the empty one.\<close>

inductive registryReachable :: "('w, 'i) jobRegistry \<Rightarrow> bool" where
  registry_empty: "registryReachable []"
| registry_add: "registryReachable r \<Longrightarrow> register job r = Inr r' \<Longrightarrow> registryReachable r'"

inductive_cases register_stepE: "registryReachable r"

lemma register_Inr_iff:
  "register job r = Inr r' \<longleftrightarrow>
   mapGet r (job_id job) = None \<and> validate job = Inr () \<and> r' = mapSet (job_id job) job r"
  by (auto simp: register_def split: sum.splits)

section \<open>Properties\<close>

text \<open>
  C28: the validator accepts a job exactly when it has a step, its start step exists, every
  chunk step has a positive chunk size and a valid partition configuration, every
  transition and decider refers to existing steps with at most one decider per step, every
  step can be reached from the start along transitions, and no step can be left and
  reached again along transitions.
\<close>
theorem validate_iff:
  "validate job = Inr () \<longleftrightarrow>
     job_steps job \<noteq> [] \<and> hasStep (job_steps job) (job_startStepId job)
   \<and> (\<forall>(s, step) \<in> set (job_steps job). \<forall>c. step = ChunkStep c \<longrightarrow>
        0 < cs_chunkSize c \<and> validatePartitions (cs_partitions c) = Inr ())
   \<and> (\<forall>t \<in> set (job_transitions job). hasStep (job_steps job) (fromStepId t)
        \<and> (\<forall>y. toStepId t = Some y \<longrightarrow> hasStep (job_steps job) y))
   \<and> (\<forall>d \<in> set (job_deciders job). hasStep (job_steps job) (afterStepId d))
   \<and> distinct (map afterStepId (job_deciders job))
   \<and> set (mapKeys (job_steps job)) \<subseteq> (stepEdges (job_transitions job))\<^sup>* `` {job_startStepId job}
   \<and> (\<forall>x. (job_startStepId job, x) \<in> (stepEdges (job_transitions job))\<^sup>* \<longrightarrow>
        (x, x) \<notin> (stepEdges (job_transitions job))\<^sup>+)"
proof -
  have steps: "(\<forall>p \<in> set (job_steps job). validateStep p = Inr ()) \<longleftrightarrow>
      (\<forall>(s, step) \<in> set (job_steps job). \<forall>c. step = ChunkStep c \<longrightarrow>
        0 < cs_chunkSize c \<and> validatePartitions (cs_partitions c) = Inr ())"
    by (auto simp: validateStep_iff)
  have ends: "(\<forall>t \<in> set (job_transitions job). validateTransitionEnds '' not found in steps'' (job_steps job) t = Inr ()) \<longleftrightarrow>
      (\<forall>t \<in> set (job_transitions job). hasStep (job_steps job) (fromStepId t)
        \<and> (\<forall>y. toStepId t = Some y \<longrightarrow> hasStep (job_steps job) y))"
    by (simp only: validateTransitionEnds_iff)
  have reach: "set (mapKeys (job_steps job)) \<subseteq> set (collectReachable job) \<longleftrightarrow>
      set (mapKeys (job_steps job)) \<subseteq> (stepEdges (job_transitions job))\<^sup>* `` {job_startStepId job}"
    by (simp only: collectReachable_def bfs_reachable)
  show ?thesis
    unfolding validate_def thenCheck_Inr_iff checkAll_Inr_iff
      requireThat_iff validateDeciders_iff assertAcyclic_iff steps ends reach [symmetric]
    by auto
qed

definition oneStepJob :: "(unit, unit) jobDefinition" where
  "oneStepJob = \<lparr>job_id = ''j'',
     job_steps = [(''a'', TaskletStep \<lparr>ts_id = ''a'', ts_tasklet = \<lparr>ref_kind = BuilderLambda,
         ref_token = None, ref_fn = None, ref_classToken = None, ref_methodName = None,
         ref_factory = False\<rparr>\<rparr>)],
     job_startStepId = ''a'', job_transitions = [], job_deciders = [], job_listeners = [],
     job_restartable = False, job_allowDuplicateInstances = False\<rparr>"

theorem validate_iff_witness: "validate oneStepJob = Inr ()"
  unfolding validate_iff by (simp add: oneStepJob_def hasStep_def stepEdges_def succs_def)

text \<open>
  In every registry a program can build, each entry is stored under its own id and
  passed validation, ids are unique, a registered job is what the lookup returns for its
  id, and registering the same id again is refused with \<open>DUPLICATE_JOB\<close>.
\<close>
theorem registry_invariant:
  assumes "registryReachable r"
  shows "wfMap r
    \<and> (\<forall>i job. mapGet r i = Some job \<longrightarrow> job_id job = i \<and> validate job = Inr ())
    \<and> (\<forall>i job. mapGet r i = Some job \<longrightarrow> registryGet r i = Inr job
         \<and> (\<forall>job'. job_id job' = i \<longrightarrow> register job' r = Inl (duplicateJobDefinitionError i)))"
  using assms
proof (induction rule: registryReachable.induct)
  case registry_empty
  then show ?case by simp
next
  case (registry_add r job r')
  then have new: "validate job = Inr ()" "r' = mapSet (job_id job) job r"
    by (simp_all add: register_Inr_iff)
  have known: "register j r' = Inl (duplicateJobDefinitionError (job_id j))"
    if "mapGet r' (job_id j) \<noteq> None" for j
    using that by (simp add: register_def)
  have "job_id j = i \<and> validate j = Inr ()" if "mapGet r' i = Some j" for i j
    using that new registry_add.IH by (auto split: if_splits)
  moreover have "wfMap r'" using new registry_add.IH by simp
  ultimately show ?case
    using known by (auto simp: registryGet_def)
qed

theorem registry_invariant_witness:
  "registryGet [(''j'', oneStepJob)] ''j'' = Inr oneStepJob"
proof -
  have "register oneStepJob [] = Inr [(''j'', oneStepJob)]"
    using validate_iff [of oneStepJob]
    by (simp add: register_Inr_iff) (simp add: oneStepJob_def hasStep_def stepEdges_def succs_def)
  then have "registryReachable [(''j'', oneStepJob)]"
    by (rule registry_add [OF registry_empty])
  then have "\<forall>i job. mapGet [(''j'', oneStepJob)] i = Some job \<longrightarrow>
      registryGet [(''j'', oneStepJob)] i = Inr job"
    using registry_invariant [of "[(''j'', oneStepJob)]"] by blast
  then show ?thesis by simp
qed

end
