(* ===== verification/JsonContext.thy ===== *)
theory JsonContext
  imports CoreTypes "HOL-Library.Multiset" "HOL-Library.List_Lexorder" "HOL-Library.Char_ord"
begin

text \<open>
  Execution contexts, checkpoints and job keys: \<open>core/execution-context/validator.ts\<close>
  (\<open>assertJsonSerializable\<close>), \<open>io/checkpoint.ts\<close> and \<open>execution/job-key.ts\<close>
  (\<open>canonicalJobKey\<close>).

  The validator works on an object graph, where two places may hold the same object, so it
  is modelled over a heap. Everything the rest of the program stores has passed it and is a
  JSON tree: the repository uses \<open>assertJsonTree\<close>, the same code read on a value in which
  no object occurs twice.
\<close>

section \<open>Object graphs\<close>

datatype jsVal = JsUndefined | JsNull | JsBool bool | JsNumber number | JsString string
  | JsBigInt int | JsSymbol | JsFunction | JsObject nat

datatype heapObject = ArrayObject "jsVal list" | PlainObject "(string \<times> jsVal) list"
  | DateObject date | RegExpObject | ClassInstance string

type_synonym heap = "nat \<Rightarrow> heapObject"

definition contextError :: "string \<Rightarrow> string \<Rightarrow> exn" where
  "contextError path what = invalidExecutionContextError (''Value at '' @ path @ '' '' @ what)"

fun leafCheck :: "string \<Rightarrow> jsVal \<Rightarrow> exn + unit" where
  "leafCheck path JsUndefined = Inl (contextError path ''is undefined (must be omitted or null)'')"
| "leafCheck path (JsNumber n) =
     (if isFiniteNumber n then Inr () else Inl (contextError path ''is not a finite number''))"
| "leafCheck path (JsBigInt _) = Inl (contextError path ''is a BigInt'')"
| "leafCheck path JsSymbol = Inl (contextError path ''is a Symbol'')"
| "leafCheck path JsFunction = Inl (contextError path ''is a function'')"
| "leafCheck path _ = Inr ()"

text \<open>The values an array or a plain object holds, with the path step that leads to each.\<close>

fun childrenOf :: "heapObject \<Rightarrow> (string \<times> jsVal) list option" where
  "childrenOf (ArrayObject xs) = Some (map (\<lambda>(i, x). (''['' @ showNat i @ '']'', x)) (enumerate 0 xs))"
| "childrenOf (PlainObject ps) =
     Some (map (\<lambda>(k, x). (''.'' @ k, x)) (filter (\<lambda>(k, x). x \<noteq> JsUndefined) ps))"
| "childrenOf _ = None"

definition MAX_DEPTH :: nat where
  "MAX_DEPTH = 100"

text \<open>
  \<open>assertJsonSerializable\<close>. The set \<open>seen\<close> is shared by all the recursive calls and never
  shrinks; the result is its final content.
\<close>

function assertJsonSerializable :: "heap \<Rightarrow> jsVal \<Rightarrow> string \<Rightarrow> nat list \<Rightarrow> nat \<Rightarrow> exn + nat list" where
  "assertJsonSerializable heap value path seen depth = (case value of
      JsObject r \<Rightarrow>
        (case heap r of
           DateObject _ \<Rightarrow> Inr seen
         | RegExpObject \<Rightarrow> Inr seen
         | obj \<Rightarrow>
             if depth > MAX_DEPTH
             then Inl (invalidExecutionContextError (''Max depth exceeded at '' @ path))
             else if r \<in> set seen
             then Inl (invalidExecutionContextError (''Circular reference detected at '' @ path))
             else (case childrenOf obj of
                 None \<Rightarrow> Inl (contextError path ''is a class instance (not plain object)'')
               | Some children \<Rightarrow>
                   foldE (\<lambda>(k, v) s. assertJsonSerializable heap v (path @ k) s (Suc depth))
                     children (r # seen)))
    | leaf \<Rightarrow> (case leafCheck path leaf of Inl e \<Rightarrow> Inl e | Inr _ \<Rightarrow> Inr seen))"
  by pat_completeness auto
termination
  by (relation "measure (\<lambda>(heap, value, path, seen, depth). Suc MAX_DEPTH - depth)") auto

declare assertJsonSerializable.simps [simp del]

text \<open>
  The containers met on the way through a value, in the order the walk meets them, as often
  as it would meet them; nothing when a leaf cannot be serialized, a class instance occurs,
  or the nesting is too deep.
\<close>

fun concatOptions :: "'a list option list \<Rightarrow> 'a list option" where
  "concatOptions [] = Some []"
| "concatOptions (None # _) = None"
| "concatOptions (Some x # xs) = map_option (append x) (concatOptions xs)"

function containers :: "heap \<Rightarrow> nat \<Rightarrow> jsVal \<Rightarrow> nat list option" where
  "containers heap depth value = (case value of
      JsObject r \<Rightarrow>
        (case heap r of
           DateObject _ \<Rightarrow> Some []
         | RegExpObject \<Rightarrow> Some []
         | obj \<Rightarrow>
             if depth > MAX_DEPTH then None
             else (case childrenOf obj of
                 None \<Rightarrow> None
               | Some children \<Rightarrow>
                   map_option (Cons r)
                     (concatOptions (map (\<lambda>(k, v). containers heap (Suc depth) v) children))))
    | leaf \<Rightarrow> if leafCheck [] leaf = Inr () then Some [] else None)"
  by pat_completeness auto
termination
  by (relation "measure (\<lambda>(heap, depth, value). Suc MAX_DEPTH - depth)") auto

declare containers.simps [simp del]


lemma foldE_containers:
  assumes "\<And>c s s'. c \<in> set cs \<Longrightarrow> f c s = Inr s' \<longleftrightarrow>
      (\<exists>objs. g c = Some objs \<and> distinct objs \<and> set objs \<inter> set s = {} \<and> s' = rev objs @ s)"
  shows "foldE f cs s = Inr s' \<longleftrightarrow>
      (\<exists>objs. concatOptions (map g cs) = Some objs \<and> distinct objs
        \<and> set objs \<inter> set s = {} \<and> s' = rev objs @ s)"
  using assms
proof (induction cs arbitrary: s)
  case (Cons c cs)
  have IH: "foldE f cs t = Inr s' \<longleftrightarrow> (\<exists>objs. concatOptions (map g cs) = Some objs
      \<and> distinct objs \<and> set objs \<inter> set t = {} \<and> s' = rev objs @ t)" for t
    using Cons by auto
  have head: "f c s = Inr t \<longleftrightarrow> (\<exists>objs. g c = Some objs \<and> distinct objs
      \<and> set objs \<inter> set s = {} \<and> t = rev objs @ s)" for t
    using Cons.prems [of c s t] by simp
  show ?case
  proof (cases "g c")
    case None
    then show ?thesis using head by (auto split: sum.splits)
  next
    case (Some xs)
    show ?thesis
    proof (cases "distinct xs \<and> set xs \<inter> set s = {}")
      case True
      then have "f c s = Inr (rev xs @ s)" using head Some by simp
      then show ?thesis using Some True IH by (auto simp: map_option_case split: option.splits)
    next
      case False
      then have "\<forall>t. f c s \<noteq> Inr t" using head Some by auto
      then obtain e where "f c s = Inl e" by (metis sum.exhaust)
      then show ?thesis using Some False by (auto simp: map_option_case split: option.splits)
    qed
  qed
qed auto

fun isContainer :: "heapObject \<Rightarrow> bool" where
  "isContainer (ArrayObject _) = True"
| "isContainer (PlainObject _) = True"
| "isContainer _ = False"

lemma isContainer_childrenOf: "isContainer obj \<longleftrightarrow> (\<exists>cs. childrenOf obj = Some cs)"
  by (cases obj) auto

lemma assertJson_leaf:
  "\<nexists>r. v = JsObject r \<Longrightarrow> assertJsonSerializable heap v path seen depth =
     (case leafCheck path v of Inl e \<Rightarrow> Inl e | Inr _ \<Rightarrow> Inr seen)"
  by (subst assertJsonSerializable.simps) (cases v; simp)

lemma containers_leaf:
  "\<nexists>r. v = JsObject r \<Longrightarrow> containers heap depth v =
     (case leafCheck path v of Inl e \<Rightarrow> None | Inr _ \<Rightarrow> Some [])"
  by (subst containers.simps) (cases v; simp)

lemma assertJson_node:
  assumes "childrenOf (heap r) = Some cs" "depth \<le> MAX_DEPTH"
  shows "assertJsonSerializable heap (JsObject r) path seen depth =
    (if r \<in> set seen
     then Inl (invalidExecutionContextError (''Circular reference detected at '' @ path))
     else foldE (\<lambda>(k, v) s. assertJsonSerializable heap v (path @ k) s (Suc depth)) cs (r # seen))"
  using assms by (subst assertJsonSerializable.simps) (cases "heap r"; simp)

lemma containers_node:
  assumes "childrenOf (heap r) = Some cs" "depth \<le> MAX_DEPTH"
  shows "containers heap depth (JsObject r) =
    map_option (Cons r) (concatOptions (map (\<lambda>(k, v). containers heap (Suc depth) v) cs))"
  using assms by (subst containers.simps) (cases "heap r"; simp)

lemma containers_stop:
  assumes "\<not> (isContainer (heap r) \<and> depth \<le> MAX_DEPTH)" "containers heap depth (JsObject r) = Some objs"
  shows "objs = []"
  using assms(2) assms(1) by (subst (asm) containers.simps) (cases "heap r"; simp split: if_splits)

lemma assertJson_stop:
  assumes "\<not> (isContainer (heap r) \<and> depth \<le> MAX_DEPTH)"
  shows "assertJsonSerializable heap (JsObject r) path seen depth = Inr seen' \<longleftrightarrow>
      containers heap depth (JsObject r) = Some [] \<and> seen' = seen"
  using assms
  by (subst assertJsonSerializable.simps, subst containers.simps) (cases "heap r"; auto)

lemma assertJson_containers:
  "assertJsonSerializable heap v path seen depth = Inr seen' \<longleftrightarrow>
   (\<exists>objs. containers heap depth v = Some objs \<and> distinct objs \<and> set objs \<inter> set seen = {}
      \<and> seen' = rev objs @ seen)"
proof (induction "Suc MAX_DEPTH - depth" arbitrary: depth v path seen seen' rule: less_induct)
  case less
  show ?case
  proof (cases "\<exists>r. v = JsObject r")
    case True
    then obtain r where v: "v = JsObject r" ..
    show ?thesis
    proof (cases "isContainer (heap r) \<and> depth \<le> MAX_DEPTH")
      case True
      then obtain cs where cs: "childrenOf (heap r) = Some cs" and d: "depth \<le> MAX_DEPTH"
        by (auto simp: isContainer_childrenOf)
      let ?f = "\<lambda>(k, v) s. assertJsonSerializable heap v (path @ k) s (Suc depth)"
      let ?g = "\<lambda>(k :: string, v). containers heap (Suc depth) v"
      have fold: "foldE ?f cs (r # seen) = Inr seen' \<longleftrightarrow>
          (\<exists>objs. concatOptions (map ?g cs) = Some objs \<and> distinct objs
            \<and> set objs \<inter> set (r # seen) = {} \<and> seen' = rev objs @ r # seen)"
        using less d by (intro foldE_containers) (auto simp: Suc_diff_le)
      then show ?thesis
        
        unfolding v assertJson_node [of heap, OF cs d] containers_node [of heap, OF cs d]
        by (cases "r \<in> set seen") auto
    next
      case False
      then show ?thesis
        unfolding v assertJson_stop [of heap, OF False] by (auto dest: containers_stop [of heap, OF False])
    qed
  next
    case False
    then show ?thesis by (auto simp: assertJson_leaf containers_leaf [of v heap depth path] split: sum.splits)
  qed
qed

section \<open>JSON trees\<close>

lemma size_member: "x \<in> set xs \<Longrightarrow> size x < Suc (size_list size xs)"
  by (induction xs) auto

lemma enumerate_size: "(i, x) \<in> set (enumerate n xs) \<Longrightarrow> size x < Suc (size_list size xs)"
  by (rule size_member) (auto simp: in_set_enumerate_eq)

lemma pairs_size: "(k, x) \<in> set ps \<Longrightarrow> size x < Suc (size_list (size_prod (\<lambda>_. 0) size) ps)"
  by (induction ps) auto

function assertJsonTree :: "string \<Rightarrow> nat \<Rightarrow> json \<Rightarrow> exn + unit" where
  "assertJsonTree path depth JNull = Inr ()"
| "assertJsonTree path depth (JBool b) = Inr ()"
| "assertJsonTree path depth (JStr s) = Inr ()"
| "assertJsonTree path depth (JNum n) = leafCheck path (JsNumber n)"
| "assertJsonTree path depth (JArr xs) =
     (if depth > MAX_DEPTH
      then Inl (invalidExecutionContextError (''Max depth exceeded at '' @ path))
      else checkAll (\<lambda>(i, x). assertJsonTree (path @ ''['' @ showNat i @ '']'') (Suc depth) x)
             (enumerate 0 xs))"
| "assertJsonTree path depth (JObj ps) =
     (if depth > MAX_DEPTH
      then Inl (invalidExecutionContextError (''Max depth exceeded at '' @ path))
      else checkAll (\<lambda>(k, x). assertJsonTree (path @ ''.'' @ k) (Suc depth) x) ps)"
  by pat_completeness auto
termination
  by (relation "measure (\<lambda>(path, depth, j). size j)") (auto dest: enumerate_size pairs_size)

text \<open>The value \<open>v\<close> of the heap looks like the tree \<open>j\<close>.\<close>

fun encodes :: "heap \<Rightarrow> jsVal \<Rightarrow> json \<Rightarrow> bool" where
  "encodes heap v JNull = (v = JsNull)"
| "encodes heap v (JBool b) = (v = JsBool b)"
| "encodes heap v (JNum n) = (v = JsNumber n)"
| "encodes heap v (JStr s) = (v = JsString s)"
| "encodes heap v (JArr xs) = (case v of
      JsObject r \<Rightarrow> (case heap r of
          ArrayObject vs \<Rightarrow> list_all2 (\<lambda>x y. encodes heap y x) xs vs
        | _ \<Rightarrow> False)
    | _ \<Rightarrow> False)"
| "encodes heap v (JObj ps) = (case v of
      JsObject r \<Rightarrow> (case heap r of
          PlainObject qs \<Rightarrow> list_all2 (\<lambda>p q. fst p = fst q \<and> encodes heap (snd q) (snd p)) ps qs
        | _ \<Rightarrow> False)
    | _ \<Rightarrow> False)"


lemma concatOptions_None: "concatOptions xs = None \<longleftrightarrow> None \<in> set xs"
  by (induction xs rule: concatOptions.induct) auto

lemma concatOptions_map:
  "(\<exists>y. concatOptions (map f xs) = Some y) \<longleftrightarrow> (\<forall>x \<in> set xs. \<exists>y. f x = Some y)"
  using concatOptions_None [of "map f xs"] unfolding set_map image_iff by (metis not_None_eq)

lemma list_all2_enumerate:
  "list_all2 P xs vs \<Longrightarrow>
   list_all2 (\<lambda>(i, x) (j, v). i = j \<and> P x v) (enumerate n xs) (enumerate n vs)"
  by (induction arbitrary: n rule: list_all2_induct) auto

lemma list_all2_ball_iff:
  "list_all2 R xs ys \<Longrightarrow> (\<And>x y. x \<in> set xs \<Longrightarrow> y \<in> set ys \<Longrightarrow> R x y \<Longrightarrow> A x \<longleftrightarrow> B y) \<Longrightarrow>
   (\<forall>x \<in> set xs. A x) \<longleftrightarrow> (\<forall>y \<in> set ys. B y)"
  by (induction rule: list_all2_induct) auto

lemma encodes_defined: "encodes heap v j \<Longrightarrow> v \<noteq> JsUndefined"
  by (cases j) auto

lemma containers_tree:
  "encodes heap v j \<Longrightarrow> containers heap depth v \<noteq> None \<longleftrightarrow> assertJsonTree path depth j = Inr ()"
proof (induction path depth j arbitrary: v rule: assertJsonTree.induct)
  case (5 path depth xs)
  from "5.prems" obtain r vs where v: "v = JsObject r" "heap r = ArrayObject vs"
    "list_all2 (\<lambda>x y. encodes heap y x) xs vs"
    by (auto split: jsVal.splits heapObject.splits)
  let ?cs = "map (\<lambda>(i, x). (''['' @ showNat i @ '']'', x)) (enumerate 0 vs)"
  show ?case
  proof (cases "depth \<le> MAX_DEPTH")
    case True
    have "(\<forall>c \<in> set (enumerate 0 xs). assertJsonTree (path @ ''['' @ showNat (fst c) @ '']'') (Suc depth) (snd c) = Inr ())
        \<longleftrightarrow> (\<forall>c \<in> set (enumerate 0 vs). containers heap (Suc depth) (snd c) \<noteq> None)"
    proof (rule list_all2_ball_iff [OF list_all2_enumerate [OF v(3), of 0]])
      fix c d
      assume "c \<in> set (enumerate 0 xs)" "(case c of (i, x) \<Rightarrow> \<lambda>(j, v). i = j \<and> encodes heap v x) d"
      then show "assertJsonTree (path @ ''['' @ showNat (fst c) @ '']'') (Suc depth) (snd c) = Inr () \<longleftrightarrow>
          containers heap (Suc depth) (snd d) \<noteq> None"
        using True "5.IH" [of c "fst c" "snd c" "snd d"] by (auto split: prod.splits)
    qed
    then show ?thesis using True
      unfolding v(1) by (simp add: containers_node [of heap r ?cs, OF _ True] v(2) concatOptions_map split_beta o_def)
  next
    case False
    then show ?thesis using v by (subst containers.simps) simp
  qed
next
  case (6 path depth ps)
  from "6.prems" obtain r qs where v: "v = JsObject r" "heap r = PlainObject qs"
    and qs: "list_all2 (\<lambda>p q. fst p = fst q \<and> encodes heap (snd q) (snd p)) ps qs"
    by (auto split: jsVal.splits heapObject.splits)
  have "\<forall>q \<in> set qs. snd q \<noteq> JsUndefined"
    using qs by (induction rule: list_all2_induct) (auto dest: encodes_defined)
  then have keep: "filter (\<lambda>(k, x). x \<noteq> JsUndefined) qs = qs"
    by (auto simp: filter_id_conv)
  let ?cs = "map (\<lambda>(k, x). (''.'' @ k, x)) qs"
  show ?case
  proof (cases "depth \<le> MAX_DEPTH")
    case True
    have "(\<forall>c \<in> set ps. assertJsonTree (path @ ''.'' @ fst c) (Suc depth) (snd c) = Inr ())
        \<longleftrightarrow> (\<forall>c \<in> set qs. containers heap (Suc depth) (snd c) \<noteq> None)"
    proof (rule list_all2_ball_iff [OF qs])
      fix p q
      assume "p \<in> set ps" "fst p = fst q \<and> encodes heap (snd q) (snd p)"
      then show "assertJsonTree (path @ ''.'' @ fst p) (Suc depth) (snd p) = Inr () \<longleftrightarrow>
          containers heap (Suc depth) (snd q) \<noteq> None"
        using True "6.IH" [of p "fst p" "snd p" "snd q"] by (cases p; cases q) auto
    qed
    then show ?thesis using True
      unfolding v(1) by (simp add: containers_node [of heap r ?cs, OF _ True] v(2) keep concatOptions_map split_beta o_def)
  next
    case False
    then show ?thesis using v by (subst containers.simps) simp
  qed
qed (auto simp: containers_leaf [where path = "[]"] split: sum.splits)

section \<open>Properties of the validator\<close>

text \<open>
  A value is accepted exactly when walking it meets only serializable leaves, no class
  instance and no nesting beyond the limit, and meets no object twice: an accepted value
  is a finite tree, and two places that hold the same object are rejected even when no
  reference is circular.
\<close>
theorem assertJsonSerializable_iff:
  "(\<exists>seen. assertJsonSerializable heap v path [] 0 = Inr seen) \<longleftrightarrow>
   (\<exists>objs. containers heap 0 v = Some objs \<and> distinct objs)"
  by (simp add: assertJson_containers)

text \<open>
  On a value that encodes a JSON tree, the validator accepts exactly when the check on
  the tree accepts and no object of the encoding is shared.
\<close>
theorem assertJsonSerializable_tree:
  assumes "encodes heap v j"
  shows "(\<exists>seen. assertJsonSerializable heap v path [] 0 = Inr seen) \<longleftrightarrow>
     assertJsonTree path 0 j = Inr () \<and> distinct (the (containers heap 0 v))"
  using containers_tree [OF assms, of 0 path] by (auto simp: assertJson_containers)

text \<open>The object \<open>[shared, shared]\<close> with \<open>shared = {}\<close>: no cycle, and rejected as circular.\<close>

definition sharedHeap :: heap where
  "sharedHeap r = (if r = 0 then ArrayObject [JsObject 1, JsObject 1] else PlainObject [])"

lemma sharedHeap_objects:
  "sharedHeap 0 = ArrayObject [JsObject 1, JsObject 1]" "sharedHeap (Suc 0) = PlainObject []"
  by (simp_all add: sharedHeap_def)

lemma shared_reference_rejected:
  "assertJsonSerializable sharedHeap (JsObject 0) ''$'' [] 0 =
     Inl (invalidExecutionContextError ''Circular reference detected at $[1]'')"
  by code_simp

theorem assertJsonSerializable_tree_witness:
  "encodes sharedHeap (JsObject 0) (JArr [JObj [], JObj []])
   \<and> (\<nexists>seen. assertJsonSerializable sharedHeap (JsObject 0) ''$'' [] 0 = Inr seen)"
proof -
  have e: "encodes sharedHeap (JsObject 0) (JArr [JObj [], JObj []])"
    by (simp add: sharedHeap_objects)
  have "containers sharedHeap 0 (JsObject 0) = Some [0, 1, 1]"
    by (simp add: containers.simps sharedHeap_objects MAX_DEPTH_def)
  with e show ?thesis
    using assertJsonSerializable_tree [OF e, of "''$''"] by simp
qed

section \<open>Checkpoints (io/checkpoint.ts)\<close>

definition asJsonRecord :: "json option \<Rightarrow> (string \<times> json) list" where
  "asJsonRecord v = (case v of Some (JObj ps) \<Rightarrow> ps | _ \<Rightarrow> [])"

definition readCheckpoint :: "executionContext \<Rightarrow> string \<Rightarrow> (string \<times> json) list" where
  "readCheckpoint context key =
     asJsonRecord (mapGet (asJsonRecord (Some (ctx_data context))) key)"

definition readCheckpointNumber :: "executionContext \<Rightarrow> string \<Rightarrow> string \<Rightarrow> number \<Rightarrow> number" where
  "readCheckpointNumber context key field fallback =
     (case mapGet (readCheckpoint context key) field of
        Some (JNum n) \<Rightarrow> if isFiniteNumber n then n else fallback
      | _ \<Rightarrow> fallback)"

definition readCheckpointValue :: "executionContext \<Rightarrow> string \<Rightarrow> string \<Rightarrow> json \<Rightarrow> json" where
  "readCheckpointValue context key field fallback =
     (case mapGet (readCheckpoint context key) field of Some v \<Rightarrow> v | None \<Rightarrow> fallback)"

definition writeCheckpoint :: "executionContext \<Rightarrow> string \<Rightarrow> (string \<times> json) list \<Rightarrow> executionContext" where
  "writeCheckpoint context key state =
     context\<lparr>ctx_data := JObj (mapSet key (JObj state) (asJsonRecord (Some (ctx_data context))))\<rparr>"

lemma asJsonRecord_JObj [simp]: "asJsonRecord (Some (JObj ps)) = ps"
  by (simp add: asJsonRecord_def)

lemma readCheckpoint_writeCheckpoint [simp]:
  "readCheckpoint (writeCheckpoint context key state) key' =
     (if key' = key then state else readCheckpoint context key')"
  by (simp add: readCheckpoint_def writeCheckpoint_def)

lemma writeCheckpoint_version [simp]: "ctx_version (writeCheckpoint context key state) = ctx_version context"
  by (simp add: writeCheckpoint_def)

text \<open>
  A number written into a checkpoint is what is read back, and every checkpoint under
  another key still reads as before.
\<close>
theorem checkpoint_roundtrip:
  assumes "mapGet state field = Some (JNum (Fin q))"
  shows "readCheckpointNumber (writeCheckpoint context key state) key field fallback = Fin q
    \<and> (key' \<noteq> key \<longrightarrow>
      readCheckpointNumber (writeCheckpoint context key state) key' field' fallback =
      readCheckpointNumber context key' field' fallback)"
  using assms by (simp_all add: readCheckpointNumber_def)


theorem checkpoint_roundtrip_witness:
  "readCheckpointNumber (writeCheckpoint \<lparr>ctx_data = JNull, ctx_version = 0\<rparr> ''r'' [(''line'', JNum (Fin 7))])
     ''r'' ''line'' NaN = Fin 7"
  using checkpoint_roundtrip [of "[(''line'', JNum (Fin 7))]" "''line''" 7] by simp

section \<open>Job keys (execution/job-key.ts)\<close>

text \<open>
  The values \<open>canonicalize\<close> distinguishes. A \<open>Date\<close> carries its ISO text, or nothing when it
  is invalid and \<open>toISOString\<close> throws; \<open>TreeOther\<close> is a function or a symbol.
\<close>

datatype jsTree = TreeUndefined | TreeNull | TreeBool bool | TreeNum number | TreeStr string
  | TreeBigInt | TreeDate "string option" | TreeArr "jsTree list" | TreeObj "(string \<times> jsTree) list"
  | TreeOther

fun treeOfJson :: "json \<Rightarrow> jsTree" where
  "treeOfJson JNull = TreeNull"
| "treeOfJson (JBool b) = TreeBool b"
| "treeOfJson (JNum n) = TreeNum n"
| "treeOfJson (JStr s) = TreeStr s"
| "treeOfJson (JArr xs) = TreeArr (map treeOfJson xs)"
| "treeOfJson (JObj ps) = TreeObj (map (\<lambda>(k, x). (k, treeOfJson x)) ps)"

text \<open>
  The keys of a plain object come in a fixed order: array indices by value, then the others
  as they were added. Assigning to the key \<open>__proto__\<close> adds no key.
\<close>

definition isArrayIndex :: "string \<Rightarrow> bool" where
  "isArrayIndex k \<longleftrightarrow> k \<noteq> [] \<and> list_all (\<lambda>c. CHR ''0'' \<le> c \<and> c \<le> CHR ''9'') k
     \<and> (k = ''0'' \<or> hd k \<noteq> CHR ''0'') \<and> readNat k < 4294967295"

definition ownOrder :: "(string \<times> 'a) list \<Rightarrow> (string \<times> 'a) list" where
  "ownOrder ps = sort_key (\<lambda>(k, _). readNat k) (filter (\<lambda>(k, _). isArrayIndex k) ps)
     @ filter (\<lambda>(k, _). \<not> isArrayIndex k) ps"

function canonicalize :: "jsTree \<Rightarrow> exn + jsTree" where
  "canonicalize TreeUndefined = Inr TreeUndefined"
| "canonicalize TreeNull = Inr TreeUndefined"
| "canonicalize (TreeBool b) = Inr (TreeBool b)"
| "canonicalize (TreeNum n) = Inr (TreeNum n)"
| "canonicalize (TreeStr s) = Inr (TreeStr s)"
| "canonicalize TreeBigInt = Inl (plainError ''BigInt not supported in job key'')"
| "canonicalize (TreeDate d) = (case d of
      Some t \<Rightarrow> Inr (TreeStr t)
    | None \<Rightarrow> Inl (ErrorObj [''RangeError'', ''Error''] [] ''Invalid time value''))"
| "canonicalize (TreeArr xs) = map_sum id TreeArr (traverseE canonicalize xs)"
| "canonicalize (TreeObj ps) =
     map_sum id
       (\<lambda>qs. TreeObj (ownOrder (filter (\<lambda>(k, v). v \<noteq> TreeUndefined \<and> k \<noteq> ''__proto__'') qs)))
       (traverseE (\<lambda>(k, x). map_sum id (Pair k) (canonicalize x)) (sort_key fst ps))"
| "canonicalize TreeOther = Inr TreeOther"
  by pat_completeness auto
termination
  by (relation "measure size") (auto dest: pairs_size size_member)

text \<open>
  \<open>JSON.stringify\<close>: \<open>jsonValue\<close> is the value the text denotes (nothing for a value that has
  no text), \<open>printJson\<close> the text. The rendering of finite numbers is a parameter.
\<close>

fun jsonValue :: "jsTree \<Rightarrow> json option" where
  "jsonValue TreeUndefined = None"
| "jsonValue TreeNull = Some JNull"
| "jsonValue (TreeBool b) = Some (JBool b)"
| "jsonValue (TreeNum n) = Some (if isFiniteNumber n then JNum n else JNull)"
| "jsonValue (TreeStr s) = Some (JStr s)"
| "jsonValue TreeBigInt = None"
| "jsonValue (TreeDate d) = map_option JStr d"
| "jsonValue (TreeArr xs) =
     Some (JArr (map (\<lambda>x. case jsonValue x of None \<Rightarrow> JNull | Some j \<Rightarrow> j) xs))"
| "jsonValue (TreeObj ps) =
     Some (JObj (concat (map (\<lambda>(k, x). case jsonValue x of None \<Rightarrow> [] | Some j \<Rightarrow> [(k, j)]) ps)))"
| "jsonValue TreeOther = None"

definition hexDigit :: "nat \<Rightarrow> char" where
  "hexDigit n = (''0123456789abcdef'') ! n"

definition shortEscapes :: "(char \<times> char) list" where
  "shortEscapes = [(CHR 0x22, CHR 0x22), (CHR 0x5C, CHR 0x5C), (CHR 8, CHR ''b''),
     (CHR 9, CHR ''t''), (CHR 10, CHR ''n''), (CHR 12, CHR ''f''), (CHR 13, CHR ''r'')]"

definition escapeChar :: "char \<Rightarrow> string" where
  "escapeChar c = (case map_of shortEscapes c of
      Some x \<Rightarrow> [CHR 0x5C, x]
    | None \<Rightarrow>
        if of_char c < (32 :: nat)
        then CHR 0x5C # ''u00'' @ [hexDigit (of_char c div 16), hexDigit (of_char c mod 16)]
        else [c])"

definition quoteString :: "string \<Rightarrow> string" where
  "quoteString s = CHR 0x22 # concat (map escapeChar s) @ [CHR 0x22]"

fun printJson :: "(rat \<Rightarrow> string) \<Rightarrow> json \<Rightarrow> string" where
  "printJson num JNull = ''null''"
| "printJson num (JBool b) = (if b then ''true'' else ''false'')"
| "printJson num (JNum n) = (case n of Fin q \<Rightarrow> num q | _ \<Rightarrow> ''null'')"
| "printJson num (JStr s) = quoteString s"
| "printJson num (JArr xs) = ''['' @ joinWith '','' (map (printJson num) xs) @ '']''"
| "printJson num (JObj ps) =
     ''{'' @ joinWith '','' (map (\<lambda>(k, x). quoteString k @ '':'' @ printJson num x) ps) @ ''}''"

definition canonicalJson :: "jobParameters \<Rightarrow> exn + json" where
  "canonicalJson params =
     map_sum id (\<lambda>t. case jsonValue t of Some j \<Rightarrow> j | None \<Rightarrow> JNull)
       (canonicalize (treeOfJson (JObj params)))"

definition keyText :: "(rat \<Rightarrow> string) \<Rightarrow> jobParameters \<Rightarrow> exn + string" where
  "keyText num params = map_sum id (printJson num) (canonicalJson params)"

text \<open>\<open>sha256\<close> stands for the hexadecimal digest of Node's crypto library.\<close>

definition canonicalJobKey :: "(rat \<Rightarrow> string) \<Rightarrow> (string \<Rightarrow> string) \<Rightarrow> jobParameters \<Rightarrow> exn + string" where
  "canonicalJobKey num sha256 params =
     map_sum id sha256 (keyText num params)"


subsection \<open>JSON texts determine their values\<close>

lemma hexDigit_inject: "m < 16 \<Longrightarrow> n < 16 \<Longrightarrow> hexDigit m = hexDigit n \<longleftrightarrow> m = n"
  unfolding hexDigit_def by (subst nth_eq_iff_index_eq) simp_all

lemma hexDigits_inject:
  assumes "hexDigit (of_char c div 16) = hexDigit (of_char d div 16)"
    and "hexDigit (of_char c mod 16) = hexDigit (of_char d mod 16)"
    and "of_char c < (32 :: nat)" "of_char d < (32 :: nat)"
  shows "c = d"
proof -
  have "of_char c div 16 = (of_char d div 16 :: nat)" "of_char c mod 16 = (of_char d mod 16 :: nat)"
    using assms by (simp_all add: hexDigit_inject)
  then have "(of_char c :: nat) = of_char d"
    by (metis div_mult_mod_eq)
  then show ?thesis by simp
qed

lemma shortEscapes_inject:
  "map_of shortEscapes c = Some x \<Longrightarrow> map_of shortEscapes d = Some x \<Longrightarrow> c = d"
  "map_of shortEscapes c = Some x \<Longrightarrow> x \<noteq> CHR ''u''"
  "map_of shortEscapes c = None \<Longrightarrow> c \<noteq> CHR 0x22 \<and> c \<noteq> CHR 0x5C"
  by (auto simp: shortEscapes_def split: if_splits)

lemma escapeChar_plain:
  "map_of shortEscapes c = None \<Longrightarrow> \<not> of_char c < (32 :: nat) \<Longrightarrow> escapeChar c = [c]"
  by (simp add: escapeChar_def)

lemma escapeChar_short: "map_of shortEscapes c = Some x \<Longrightarrow> escapeChar c = [CHR 0x5C, x]"
  by (simp add: escapeChar_def)

lemma escapeChar_hex:
  "map_of shortEscapes c = None \<Longrightarrow> of_char c < (32 :: nat) \<Longrightarrow> escapeChar c =
     CHR 0x5C # ''u00'' @ [hexDigit (of_char c div 16), hexDigit (of_char c mod 16)]"
  by (simp add: escapeChar_def)

lemma escapeChar_cases [case_names plain short hex]:
  assumes "map_of shortEscapes c = None \<Longrightarrow> escapeChar c = [c] \<Longrightarrow> c \<noteq> CHR 0x22 \<Longrightarrow> c \<noteq> CHR 0x5C \<Longrightarrow> P"
    and "\<And>x. map_of shortEscapes c = Some x \<Longrightarrow> escapeChar c = [CHR 0x5C, x] \<Longrightarrow> x \<noteq> CHR ''u'' \<Longrightarrow> P"
    and "escapeChar c = CHR 0x5C # ''u00'' @ [hexDigit (of_char c div 16), hexDigit (of_char c mod 16)] \<Longrightarrow>
        of_char c < (32 :: nat) \<Longrightarrow> P"
  shows P
proof (cases "map_of shortEscapes c")
  case None
  then show P
    using assms(1,3) shortEscapes_inject(3) escapeChar_plain escapeChar_hex by blast
next
  case (Some x)
  then show P using assms(2) shortEscapes_inject(2) escapeChar_short by blast
qed

lemma escapeChar_nonempty: "escapeChar c \<noteq> []" and escapeChar_hd: "hd (escapeChar c @ r) \<noteq> CHR 0x22"
  by (cases c rule: escapeChar_cases; simp)+

lemma escapeChar_prefix_free:
  assumes "escapeChar c @ r = escapeChar d @ s"
  shows "c = d \<and> r = s"
proof (cases c rule: escapeChar_cases)
  case plain
  then show ?thesis using assms by (cases d rule: escapeChar_cases) simp_all
next
  case (short x)
  note c = this
  show ?thesis
  proof (cases d rule: escapeChar_cases)
    case (short y)
    with c assms have "x = y" "r = s" by simp_all
    with c short show ?thesis using shortEscapes_inject(1) by blast
  qed (use assms c in simp_all)
next
  case hex
  note c = this
  show ?thesis
  proof (cases d rule: escapeChar_cases)
    case hex
    with c assms show ?thesis using hexDigits_inject [of c d] by simp
  qed (use assms c in simp_all)
qed

lemma quoteString_prefix_free:
  "quoteString s @ r = quoteString t @ u \<Longrightarrow> s = t \<and> r = u"
proof (induction s arbitrary: t)
  case Nil
  then show ?case
  proof (cases t)
    case (Cons d t')
    with Nil have "CHR 0x22 # r = escapeChar d @ concat (map escapeChar t') @ CHR 0x22 # u"
      by (simp add: quoteString_def)
    then have "hd (escapeChar d @ concat (map escapeChar t') @ CHR 0x22 # u) = CHR 0x22"
      by (metis list.sel(1))
    then show ?thesis by (simp only: escapeChar_hd)
  qed (simp add: quoteString_def)
next
  case (Cons c s)
  show ?case
  proof (cases t)
    case Nil
    with Cons.prems have "hd (escapeChar c @ concat (map escapeChar s) @ CHR 0x22 # r) = CHR 0x22"
      by (simp add: quoteString_def)
    then show ?thesis by (simp only: escapeChar_hd)
  next
    case (Cons d t')
    with Cons.prems have "escapeChar c @ concat (map escapeChar s) @ CHR 0x22 # r
        = escapeChar d @ concat (map escapeChar t') @ CHR 0x22 # u"
      by (simp add: quoteString_def)
    then have "c = d \<and> concat (map escapeChar s) @ CHR 0x22 # r
        = concat (map escapeChar t') @ CHR 0x22 # u"
      by (rule escapeChar_prefix_free)
    with Cons Cons.IH [of t'] show ?thesis by (simp add: quoteString_def)
  qed
qed

text \<open>What is assumed of the rendering of numbers: it is injective and looks like a number.\<close>

definition isNumberChar :: "char \<Rightarrow> bool" where
  "isNumberChar c \<longleftrightarrow> c \<in> set ''0123456789+-.e''"

definition isDelimiter :: "char \<Rightarrow> bool" where
  "isDelimiter c \<longleftrightarrow> c \<in> set '',]}''"

definition numberTextOk :: "(rat \<Rightarrow> string) \<Rightarrow> bool" where
  "numberTextOk num \<longleftrightarrow> inj num \<and> (\<forall>q. num q \<noteq> [] \<and> list_all isNumberChar (num q))"

definition closing :: "string \<Rightarrow> bool" where
  "closing r \<longleftrightarrow> (r = [] \<or> isDelimiter (hd r))"

fun jsonFinite :: "json \<Rightarrow> bool" where
  "jsonFinite (JNum n) = isFiniteNumber n"
| "jsonFinite (JArr xs) = list_all jsonFinite xs"
| "jsonFinite (JObj ps) = list_all (\<lambda>p. jsonFinite (snd p)) ps"
| "jsonFinite _ = True"

lemma delimiter_not_number: "isDelimiter c \<Longrightarrow> \<not> isNumberChar c"
  unfolding isDelimiter_def isNumberChar_def by (simp only: list.set) (elim insertE emptyE; simp)

lemma numberText_prefix_free:
  assumes "numberTextOk num" "num q @ r = num q' @ s" "closing r" "closing s"
  shows "q = q' \<and> r = s"
proof -
  have take: "takeWhile isNumberChar (num q @ r) = num q" if "closing r" for q r
  proof -
    have "takeWhile isNumberChar (num q @ r) = num q @ takeWhile isNumberChar r"
      using assms(1) by (intro takeWhile_append2) (auto simp: numberTextOk_def list_all_iff)
    also have "takeWhile isNumberChar r = []"
      using that by (cases r) (auto simp: closing_def dest: delimiter_not_number)
    finally show ?thesis by simp
  qed
  from assms(2) have "num q = num q'" using take assms(3,4) by metis
  with assms(1,2) show ?thesis by (auto simp: numberTextOk_def inj_def)
qed

lemma numberText_head: "numberTextOk num \<Longrightarrow> isNumberChar (hd (num q @ r))"
  unfolding numberTextOk_def by (metis hd_append2 hd_in_set list_all_iff)


lemma joinWith_Cons:
  "joinWith sep (x # xs) @ t = x @ (if xs = [] then t else sep @ joinWith sep xs @ t)"
  by (cases xs) simp_all

lemma joinWith_prefix_free:
  assumes "\<And>x y r s. x \<in> set xs \<Longrightarrow> y \<in> set ys \<Longrightarrow> closing r \<Longrightarrow> closing s \<Longrightarrow>
      f x @ r = f y @ s \<Longrightarrow> x = y \<and> r = s"
    and "\<And>x r. x \<in> set xs \<union> set ys \<Longrightarrow> hd (f x @ r) \<noteq> cl"
    and cl: "isDelimiter cl" "cl \<noteq> CHR '',''"
    and "joinWith '','' (map f xs) @ cl # r = joinWith '','' (map f ys) @ cl # s"
  shows "xs = ys \<and> r = s"
  using assms(1,2,5)
proof (induction xs arbitrary: ys)
  case Nil
  show ?case
  proof (cases ys)
    case (Cons y ys')
    with Nil.prems(3) have "cl # r = f y @ (if map f ys' = [] then cl # s
        else '','' @ joinWith '','' (map f ys') @ cl # s)"
      using joinWith_Cons [of "'',''" "f y" "map f ys'" "cl # s"] by simp
    then have "hd (f y @ (if map f ys' = [] then cl # s
        else '','' @ joinWith '','' (map f ys') @ cl # s)) = cl" by (metis list.sel(1))
    then show ?thesis using Nil.prems(2) Cons by simp
  qed (use Nil.prems(3) in simp)
next
  case (Cons x xs)
  show ?case
  proof (cases ys)
    case Nil
    with Cons.prems(3) have "cl # s = f x @ (if map f xs = [] then cl # r
        else '','' @ joinWith '','' (map f xs) @ cl # r)"
      using joinWith_Cons [of "'',''" "f x" "map f xs" "cl # r"] by simp
    then have "hd (f x @ (if map f xs = [] then cl # r
        else '','' @ joinWith '','' (map f xs) @ cl # r)) = cl" by (metis list.sel(1))
    then show ?thesis using Cons.prems(2) by simp
  next
    case (Cons y ys')
    let ?rest = "\<lambda>zs t. if zs = [] then cl # t else '','' @ joinWith '','' (map f zs) @ cl # t"
    have clos: "closing (?rest zs t)" for zs t
      using cl(1) by (simp add: closing_def isDelimiter_def)
    have "f x @ ?rest xs r = f y @ ?rest ys' s"
      using Cons.prems(3) Cons joinWith_Cons [of "'',''" "f x" "map f xs" "cl # r"]
        joinWith_Cons [of "'',''" "f y" "map f ys'" "cl # s"] by simp
    then have eq: "x = y" "?rest xs r = ?rest ys' s"
      using Cons.prems(1) [of x y] Cons clos by auto
    show ?thesis
    proof (cases "xs = [] \<or> ys' = []")
      case True
      with eq Cons cl(2) show ?thesis by (auto split: if_splits)
    next
      case False
      then have "joinWith '','' (map f xs) @ cl # r = joinWith '','' (map f ys') @ cl # s"
        using eq(2) by simp
      then have "xs = ys' \<and> r = s"
        using Cons.prems(1,2) Cons by (intro Cons.IH) auto
      with eq Cons show ?thesis by simp
    qed
  qed
qed

fun kindOf :: "json \<Rightarrow> nat" where
  "kindOf JNull = 0"
| "kindOf (JBool b) = (if b then 1 else 2)"
| "kindOf (JNum n) = 3"
| "kindOf (JStr s) = 4"
| "kindOf (JArr xs) = 5"
| "kindOf (JObj ps) = 6"

definition kindOfChar :: "char \<Rightarrow> nat" where
  "kindOfChar c = (if isNumberChar c then 3 else if c = CHR ''n'' then 0 else if c = CHR ''t'' then 1
     else if c = CHR ''f'' then 2 else if c = CHR 0x22 then 4 else if c = CHR ''['' then 5
     else if c = CHR ''{'' then 6 else 7)"

lemma kindOfChar_values:
  "kindOfChar CHR ''n'' = 0" "kindOfChar CHR ''t'' = 1" "kindOfChar CHR ''f'' = 2"
  "kindOfChar CHR 0x22 = 4" "kindOfChar CHR ''['' = 5" "kindOfChar CHR ''{'' = 6"
  "kindOfChar CHR '']'' = 7" "kindOfChar CHR ''}'' = 7"
  by code_simp+

lemma kindOfChar_number: "isNumberChar c \<Longrightarrow> kindOfChar c = 3"
  by (simp add: kindOfChar_def)

lemma printJson_head:
  "numberTextOk num \<Longrightarrow> jsonFinite j \<Longrightarrow> kindOfChar (hd (printJson num j @ r)) = kindOf j"
proof (cases j)
  case (JNum n)
  assume "numberTextOk num" "jsonFinite j"
  then obtain q where "n = Fin q" using JNum by (cases n) auto
  with JNum \<open>numberTextOk num\<close> show ?thesis by (simp add: kindOfChar_number numberText_head)
qed (simp_all add: kindOfChar_values quoteString_def)

lemma printJson_same_kind:
  assumes "numberTextOk num" "jsonFinite a" "jsonFinite b" "printJson num a @ r = printJson num b @ s"
  shows "kindOf b = kindOf a"
  using printJson_head [OF assms(1,2), of r] printJson_head [OF assms(1,3), of s] assms(4) by simp

lemma kindOf_less: "kindOf j < 7"
  by (cases j) auto

lemma entry_prefix_free:
  assumes "\<And>r s. closing r \<Longrightarrow> closing s \<Longrightarrow> printJson num x @ r = printJson num y @ s \<Longrightarrow> x = y \<and> r = s"
    and "closing r" "closing s"
    and "(quoteString k @ '':'' @ printJson num x) @ r = (quoteString l @ '':'' @ printJson num y) @ s"
  shows "(k, x) = (l, y) \<and> r = s"
proof -
  from assms(4) have "quoteString k @ ('':'' @ printJson num x @ r) = quoteString l @ ('':'' @ printJson num y @ s)"
    by (simp only: append_assoc)
  then have "k = l \<and> '':'' @ printJson num x @ r = '':'' @ printJson num y @ s"
    by (rule quoteString_prefix_free)
  moreover from this have "printJson num x @ r = printJson num y @ s" by simp
  ultimately show ?thesis using assms(1) [OF assms(2,3)] by blast
qed

lemma printJson_prefix_free:
  assumes num: "numberTextOk num"
  shows "jsonFinite a \<Longrightarrow> jsonFinite b \<Longrightarrow> closing r \<Longrightarrow> closing s \<Longrightarrow>
    printJson num a @ r = printJson num b @ s \<Longrightarrow> a = b \<and> r = s"
proof (induction a arbitrary: b r s)
  case JNull
  have "kindOf b = 0"
    using printJson_same_kind [OF num JNull.prems(1,2,5)] by simp
  then have "b = JNull" by (cases b) (auto split: if_splits)
  with JNull.prems show ?case by simp
next
  case (JBool x)
  have "kindOf b = kindOf (JBool x)"
    using printJson_same_kind [OF num JBool.prems(1,2,5)] by simp
  then have "b = JBool x" by (cases b) (auto split: if_splits)
  with JBool.prems show ?case by (simp split: if_splits)
next
  case (JNum n)
  then obtain q where n: "n = Fin q" by (cases n) auto
  have "kindOf b = 3"
    using printJson_same_kind [OF num JNum.prems(1,2,5)] by simp
  then obtain q' where b: "b = JNum (Fin q')"
    using JNum.prems(2) by (cases b rule: kindOf.cases) (auto split: if_splits elim: isFiniteNumber.elims)
  with JNum.prems n show ?case using numberText_prefix_free [OF num, of q r q' s] by simp
next
  case (JStr x)
  have "kindOf b = 4"
    using printJson_same_kind [OF num JStr.prems(1,2,5)] by simp
  then obtain y where b: "b = JStr y" by (cases b) (auto split: if_splits)
  with JStr.prems show ?case using quoteString_prefix_free [of x r y s] by simp
next
  case (JArr xs)
  have "kindOf b = 5"
    using printJson_same_kind [OF num JArr.prems(1,2,5)] by simp
  then obtain ys where b: "b = JArr ys" by (cases b) (auto split: if_splits)
  have fin: "\<forall>x \<in> set xs \<union> set ys. jsonFinite x"
    using JArr.prems b by (auto simp: list_all_iff)
  have "xs = ys \<and> r = s"
  proof (rule joinWith_prefix_free [where f = "printJson num" and cl = "CHR '']''"])
    show "hd (printJson num x @ t) \<noteq> CHR '']''" if "x \<in> set xs \<union> set ys" for x t
      using printJson_head [OF num, of x t] fin that kindOf_less [of x] by (auto simp: kindOfChar_values)
    fix x y t u
    assume "x \<in> set xs" "y \<in> set ys" "closing t" "closing u"
      "printJson num x @ t = printJson num y @ u"
    then show "x = y \<and> t = u" using JArr.IH [of x y t u] fin by blast
  qed (use JArr.prems(5) b in \<open>auto simp: isDelimiter_def\<close>)
  with b show ?case by simp
next
  case (JObj ps)
  have "kindOf b = 6"
    using printJson_same_kind [OF num JObj.prems(1,2,5)] by simp
  then obtain qs where b: "b = JObj qs" by (cases b) (auto split: if_splits)
  let ?f = "\<lambda>(k, x). quoteString k @ '':'' @ printJson num x"
  have fin: "\<forall>p \<in> set ps \<union> set qs. jsonFinite (snd p)"
    using JObj.prems b by (auto simp: list_all_iff)
  have "ps = qs \<and> r = s"
  proof (rule joinWith_prefix_free [where f = ?f and cl = "CHR ''}''"])
    fix p q t u
    assume "p \<in> set ps" "q \<in> set qs" "closing t" "closing u" "?f p @ t = ?f q @ u"
    then have "(quoteString (fst p) @ '':'' @ printJson num (snd p)) @ t
        = (quoteString (fst q) @ '':'' @ printJson num (snd q)) @ u"
      by (simp only: split_beta)
    moreover have "snd p = snd q \<and> t' = u'"
      if "closing t'" "closing u'" "printJson num (snd p) @ t' = printJson num (snd q) @ u'" for t' u'
    proof (rule JObj.IH)
      show "p \<in> set ps" by fact
      show "snd p \<in> Basic_BNFs.snds p" by (simp add: snds.intros)
    qed (use that fin \<open>p \<in> set ps\<close> \<open>q \<in> set qs\<close> in auto)
    ultimately have "(fst p, snd p) = (fst q, snd q) \<and> t = u"
      using \<open>closing t\<close> \<open>closing u\<close> by (intro entry_prefix_free)
    then show "p = q \<and> t = u" by simp
  next
    fix p t
    show "hd (?f p @ t) \<noteq> CHR ''}''" by (simp add: split_beta quoteString_def)
  qed (use JObj.prems(5) b in \<open>auto simp: isDelimiter_def\<close>)
  with b show ?case by simp
qed

lemma printJson_inject:
  "numberTextOk num \<Longrightarrow> jsonFinite a \<Longrightarrow> jsonFinite b \<Longrightarrow> printJson num a = printJson num b \<Longrightarrow> a = b"
  using printJson_prefix_free [of num a b "[]" "[]"] by (simp add: closing_def)


subsection \<open>What a job key identifies\<close>

lemma jsonValue_finite: "jsonValue t = Some j \<Longrightarrow> jsonFinite j"
proof (induction t arbitrary: j)
  case (TreeArr xs)
  have "jsonFinite (case jsonValue x of None \<Rightarrow> JNull | Some j \<Rightarrow> j)" if "x \<in> set xs" for x
    using TreeArr.IH [OF that] by (cases "jsonValue x") auto
  with TreeArr.prems show ?case by (auto simp: list_all_iff)
next
  case (TreeObj ps)
  have "jsonFinite (snd q)"
    if "p \<in> set ps" "q \<in> set (case p of (k, x) \<Rightarrow> case jsonValue x of None \<Rightarrow> [] | Some j \<Rightarrow> [(k, j)])" for p q
    using that TreeObj.IH [OF that(1), of "snd p"] by (cases p) (auto split: option.splits)
  with TreeObj.prems show ?case by (auto simp: list_all_iff)
qed (auto split: if_splits)

lemma canonicalJson_finite: "canonicalJson params = Inr j \<Longrightarrow> jsonFinite j"
  unfolding canonicalJson_def
  by (cases "canonicalize (treeOfJson (JObj params))") (auto dest: jsonValue_finite split: option.splits)

lemma canonicalize_json: "\<exists>t. canonicalize (treeOfJson j) = Inr t"
proof (induction j)
  case (JArr xs)
  have "\<exists>ys. traverseE canonicalize (map treeOfJson xs) = Inr ys"
    by (rule traverseE_total) (use JArr in auto)
  then show ?case by auto
next
  case (JObj ps)
  have "\<exists>ys. traverseE (\<lambda>(k, x). map_sum id (Pair k) (canonicalize x))
      (sort_key fst (map (\<lambda>(k, x). (k, treeOfJson x)) ps)) = Inr ys"
  proof (rule traverseE_total)
    fix q
    assume "q \<in> set (sort_key fst (map (\<lambda>(k, x). (k, treeOfJson x)) ps))"
    then obtain k x where "(k, x) \<in> set ps" and q: "q = (k, treeOfJson x)" by auto
    then have "\<exists>t. canonicalize (treeOfJson x) = Inr t" using JObj.IH by fastforce
    with q show "\<exists>y. (case q of (k, x) \<Rightarrow> map_sum id (Pair k) (canonicalize x)) = Inr y" by auto
  qed
  then show ?case by auto
qed auto

lemma canonicalJson_permute:
  assumes "mset p = mset q" "distinct (mapKeys p)"
  shows "canonicalJson p = canonicalJson q"
proof -
  let ?t = "map (\<lambda>(k, x). (k, treeOfJson x))"
  have "map fst (?t p) = mapKeys p" by (simp add: comp_def split_beta)
  then have "distinct (map fst (?t p))" using assms(2) by (simp only:)
  then have "inj_on fst (set (?t p))" by (simp only: distinct_map)
  moreover have "mset (?t p) = mset (?t q)" using assms(1) by simp
  ultimately have "sort_key fst (?t p) = sort_key fst (?t q)"
    by (intro sort_key_inj_key_eq) simp_all
  then show ?thesis by (simp add: canonicalJson_def)
qed


text \<open>A rendering of numbers that satisfies the assumption, for the witness.\<close>

definition ratText :: "rat \<Rightarrow> string" where
  "ratText q = showInt (fst (quotient_of q)) @ ''e'' @ showInt (snd (quotient_of q))"

lemma showInt_chars: "list_all (\<lambda>c. isNumberChar c \<and> c \<noteq> CHR ''e'') (showInt i)"
proof -
  have "list_all (\<lambda>c. isNumberChar c \<and> c \<noteq> CHR ''e'') ''0123456789''" by code_simp
  then have "\<And>c. isDigit c \<Longrightarrow> isNumberChar c \<and> c \<noteq> CHR ''e''"
    unfolding isDigit_def list_all_iff by blast
  moreover have "isNumberChar CHR ''-''" by (simp add: isNumberChar_def)
  ultimately show ?thesis
    using showNat_isDigit by (simp add: showInt_def list_all_iff)
qed

lemma ratText_ok: "numberTextOk ratText"
proof -
  have "q = r" if "ratText q = ratText r" for q r
  proof -
    have "takeWhile (\<lambda>c. c \<noteq> CHR ''e'') (ratText s) = showInt (fst (quotient_of s))" for s
      using showInt_chars [of "fst (quotient_of s)"]
      by (auto simp: ratText_def list_all_iff takeWhile_append2)
    with that have "fst (quotient_of q) = fst (quotient_of r)" by (metis showInt_inject)
    with that have "quotient_of q = quotient_of r" by (auto simp: ratText_def prod_eq_iff)
    then show ?thesis by (rule quotient_of_inject)
  qed
  moreover have "isNumberChar CHR ''e''" by (simp add: isNumberChar_def)
  ultimately show ?thesis
    using showInt_chars by (auto simp: numberTextOk_def inj_def ratText_def list_all_iff)
qed


end
