(* ===== verification/Repository.thy ===== *)
theory Repository
  imports JsonContext
begin

text \<open>
  The persistence port (\<open>core/repository/job-repository.ts\<close>) as a record of operations over
  a world, with the contract the executors and the launcher rely on as a locale, and the
  generators of identifiers (\<open>repository/id-generator.ts\<close>).
\<close>

section \<open>The port (job-repository.ts)\<close>

record 'w jobRepository =
  repo_getOrCreateJobInstance :: "string \<Rightarrow> string \<Rightarrow> ('w, jobInstance) M"
  repo_createJobExecution :: "string \<Rightarrow> jobParameters \<Rightarrow> ('w, jobExecution) M"
  repo_createExecutionAtomic :: "string \<Rightarrow> string \<Rightarrow> jobParameters \<Rightarrow> ('w, jobExecution) M"
  repo_updateJobExecution :: "string \<Rightarrow> jobExecutionPatch \<Rightarrow> ('w, unit) M"
  repo_getJobExecution :: "string \<Rightarrow> ('w, jobExecution option) M"
  repo_getJobInstance :: "string \<Rightarrow> ('w, jobInstance option) M"
  repo_findJobInstances :: "jobInstanceFilter \<Rightarrow> ('w, jobInstance list) M"
  repo_findJobExecutions :: "jobExecutionFilter \<Rightarrow> ('w, jobExecution list) M"
  repo_getRunningJobExecution :: "string \<Rightarrow> ('w, jobExecution option) M"
  repo_createStepExecution :: "string \<Rightarrow> string \<Rightarrow> ('w, stepExecution) M"
  repo_updateStepExecution :: "string \<Rightarrow> stepExecutionPatch \<Rightarrow> ('w, unit) M"
  repo_getStepExecution :: "string \<Rightarrow> ('w, stepExecution option) M"
  repo_findStepExecutions :: "string \<Rightarrow> ('w, stepExecution list) M"
  repo_getExecutionContext :: "executionScope \<Rightarrow> ('w, executionContext) M"
  repo_saveExecutionContext :: "executionScope \<Rightarrow> executionContext \<Rightarrow> int option \<Rightarrow> ('w, unit) M"
  repo_findLatestStepExecution :: "string \<Rightarrow> string \<Rightarrow> ('w, stepExecution option) M"

text \<open>A repository whose state is one component of a larger world.\<close>

definition liftRepository :: "('s \<Rightarrow> 'w) \<Rightarrow> ('w \<Rightarrow> 's \<Rightarrow> 's) \<Rightarrow> 'w jobRepository \<Rightarrow> 's jobRepository" where
  "liftRepository get put r = \<lparr>
     repo_getOrCreateJobInstance = (\<lambda>n k. zoomM get put (repo_getOrCreateJobInstance r n k)),
     repo_createJobExecution = (\<lambda>i p. zoomM get put (repo_createJobExecution r i p)),
     repo_createExecutionAtomic = (\<lambda>n k p. zoomM get put (repo_createExecutionAtomic r n k p)),
     repo_updateJobExecution = (\<lambda>i p. zoomM get put (repo_updateJobExecution r i p)),
     repo_getJobExecution = (\<lambda>i. zoomM get put (repo_getJobExecution r i)),
     repo_getJobInstance = (\<lambda>i. zoomM get put (repo_getJobInstance r i)),
     repo_findJobInstances = (\<lambda>f. zoomM get put (repo_findJobInstances r f)),
     repo_findJobExecutions = (\<lambda>f. zoomM get put (repo_findJobExecutions r f)),
     repo_getRunningJobExecution = (\<lambda>i. zoomM get put (repo_getRunningJobExecution r i)),
     repo_createStepExecution = (\<lambda>i n. zoomM get put (repo_createStepExecution r i n)),
     repo_updateStepExecution = (\<lambda>i p. zoomM get put (repo_updateStepExecution r i p)),
     repo_getStepExecution = (\<lambda>i. zoomM get put (repo_getStepExecution r i)),
     repo_findStepExecutions = (\<lambda>i. zoomM get put (repo_findStepExecutions r i)),
     repo_getExecutionContext = (\<lambda>sc. zoomM get put (repo_getExecutionContext r sc)),
     repo_saveExecutionContext = (\<lambda>sc c v. zoomM get put (repo_saveExecutionContext r sc c v)),
     repo_findLatestStepExecution = (\<lambda>i n. zoomM get put (repo_findLatestStepExecution r i n))\<rparr>"

section \<open>Patches\<close>

text \<open>Spreading a patch over a row: absent fields keep the row's value.\<close>

definition patchJobExecution :: "jobExecutionPatch \<Rightarrow> jobExecution \<Rightarrow> jobExecution" where
  "patchJobExecution patch cur = cur\<lparr>
     je_status := orKeep (jp_status patch) (je_status cur),
     je_startTime := orKeep (jp_startTime patch) (je_startTime cur),
     je_endTime := orKeep (jp_endTime patch) (je_endTime cur),
     je_exitCode := orKeep (jp_exitCode patch) (je_exitCode cur),
     je_exitMessage := orKeep (jp_exitMessage patch) (je_exitMessage cur)\<rparr>"

definition patchStepExecution :: "stepExecutionPatch \<Rightarrow> stepExecution \<Rightarrow> stepExecution" where
  "patchStepExecution patch cur = cur\<lparr>
     se_status := orKeep (sp_status patch) (se_status cur),
     se_readCount := orKeep (sp_readCount patch) (se_readCount cur),
     se_writeCount := orKeep (sp_writeCount patch) (se_writeCount cur),
     se_skipCount := orKeep (sp_skipCount patch) (se_skipCount cur),
     se_rollbackCount := orKeep (sp_rollbackCount patch) (se_rollbackCount cur),
     se_commitCount := orKeep (sp_commitCount patch) (se_commitCount cur),
     se_startTime := orKeep (sp_startTime patch) (se_startTime cur),
     se_endTime := orKeep (sp_endTime patch) (se_endTime cur),
     se_exitCode := orKeep (sp_exitCode patch) (se_exitCode cur),
     se_exitMessage := orKeep (sp_exitMessage patch) (se_exitMessage cur)\<rparr>"

lemma patchJobExecution_ids [simp]:
  "je_id (patchJobExecution p e) = je_id e"
  "je_jobInstanceId (patchJobExecution p e) = je_jobInstanceId e"
  "je_params (patchJobExecution p e) = je_params e"
  "je_status (patchJobExecution p e) = orKeep (jp_status p) (je_status e)"
  by (simp_all add: patchJobExecution_def)

lemma patchStepExecution_ids [simp]:
  "se_id (patchStepExecution p e) = se_id e"
  "se_jobExecutionId (patchStepExecution p e) = se_jobExecutionId e"
  "se_stepName (patchStepExecution p e) = se_stepName e"
  by (simp_all add: patchStepExecution_def)

section \<open>Identifiers (id-generator.ts)\<close>

text \<open>
  A generator is the sequence of the identifiers it yields. \<open>UuidIdGenerator\<close> draws from the
  platform's random source and stays a parameter; the deterministic one is below.
\<close>

type_synonym idGenerator = "nat \<Rightarrow> string"

definition deterministicIdGenerator :: "string \<Rightarrow> idGenerator" where
  "deterministicIdGenerator prefix counter = prefix @ ''-'' @ showNat (counter + 1)"

lemma deterministicIdGenerator_inj: "inj (deterministicIdGenerator prefix)"
  by (rule injI) (simp add: deterministicIdGenerator_def)

section \<open>The contract of a repository\<close>

text \<open>
  What the callers rely on, over an abstract view of the world: the rows of the job
  executions and of the step executions by identifier, and the stored contexts. A write
  changes the row it names and nothing else; a read changes nothing. Three points are left
  open on purpose, as the implementations differ in them: whether the times of a step
  execution are kept, which version a context gets when the caller names none, and whether
  an update of an unknown execution fails.
\<close>

definition patchedStep :: "stepExecutionPatch \<Rightarrow> stepExecution \<Rightarrow> stepExecution \<Rightarrow> bool" where
  "patchedStep q s s' \<longleftrightarrow> (\<exists>x y. s' = (patchStepExecution q s)\<lparr>se_startTime := x, se_endTime := y\<rparr>)"

lemma patchedStep_patch [simp]: "patchedStep q s (patchStepExecution q s)"
  unfolding patchedStep_def by (cases "patchStepExecution q s") auto

locale repository_contract =
  fixes repo :: "'w jobRepository"
    and ok :: "'w \<Rightarrow> bool"
    and jobRow :: "'w \<Rightarrow> string \<Rightarrow> jobExecution option"
    and stepRow :: "'w \<Rightarrow> string \<Rightarrow> stepExecution option"
    and context_of :: "'w \<Rightarrow> executionScope \<Rightarrow> executionContext"
  assumes jobRow_id: "ok w \<Longrightarrow> jobRow w i = Some e \<Longrightarrow> je_id e = i"
    and getJobExecution: "repo_getJobExecution repo i w = (Value (jobRow w i), w)"
    and updateJobExecution: "ok w \<Longrightarrow> jobRow w i = Some e \<Longrightarrow>
      \<exists>w'. repo_updateJobExecution repo i p w = (Value (), w') \<and> ok w'
        \<and> jobRow w' = (jobRow w)(i \<mapsto> patchJobExecution p e)
        \<and> stepRow w' = stepRow w \<and> context_of w' = context_of w"
    and updateJobExecution_missing: "ok w \<Longrightarrow> jobRow w i = None \<Longrightarrow>
      \<exists>r. repo_updateJobExecution repo i p w = (r, w) \<and> r \<noteq> OutOfFuel"
    and createStepExecution: "ok w \<Longrightarrow>
      \<exists>w' s. repo_createStepExecution repo j name w = (Value s, w') \<and> ok w'
        \<and> stepRow w (se_id s) = None \<and> stepRow w' = (stepRow w)(se_id s \<mapsto> s)
        \<and> se_jobExecutionId s = j \<and> se_stepName s = name \<and> se_status s = StepStarting
        \<and> jobRow w' = jobRow w \<and> context_of w' = context_of w"
    and updateStepExecution: "ok w \<Longrightarrow> stepRow w i = Some s \<Longrightarrow>
      \<exists>w' s'. repo_updateStepExecution repo i q w = (Value (), w') \<and> ok w'
        \<and> patchedStep q s s' \<and> stepRow w' = (stepRow w)(i \<mapsto> s')
        \<and> jobRow w' = jobRow w \<and> context_of w' = context_of w"
    and getExecutionContext: "ok w \<Longrightarrow> repo_getExecutionContext repo sc w = (Value (context_of w sc), w)"
    and saveExecutionContext: "ok w \<Longrightarrow> assertJsonTree ''$'' 0 (ctx_data c) = Inr () \<Longrightarrow>
      \<exists>w' n. repo_saveExecutionContext repo sc c v w = (Value (), w') \<and> ok w'
        \<and> context_of w' = (context_of w)(sc := \<lparr>ctx_data = ctx_data c, ctx_version = orKeep v n\<rparr>)
        \<and> jobRow w' = jobRow w \<and> stepRow w' = stepRow w"
    and saveExecutionContext_rejected: "assertJsonTree ''$'' 0 (ctx_data c) = Inl err \<Longrightarrow>
      repo_saveExecutionContext repo sc c v w = (Throw err, w)"
    and findLatestStepExecution: "ok w \<Longrightarrow>
      \<exists>r. repo_findLatestStepExecution repo j name w = (Value r, w)
        \<and> (\<forall>s. r = Some s \<longrightarrow> stepRow w (se_id s) = Some s
             \<and> se_jobExecutionId s = j \<and> se_stepName s = name)"
begin

lemma update_then_get:
  assumes "ok w" "jobRow w i = Some e"
  shows "\<exists>w'. bindM (repo_updateJobExecution repo i p) (\<lambda>_. repo_getJobExecution repo i) w
      = (Value (Some (patchJobExecution p e)), w') \<and> ok w'"
proof -
  obtain w' where "repo_updateJobExecution repo i p w = (Value (), w')" "ok w'"
    "jobRow w' = (jobRow w)(i \<mapsto> patchJobExecution p e)"
    using updateJobExecution [OF assms, of p] by blast
  then show ?thesis by (simp add: getJobExecution)
qed

lemma save_then_read:
  assumes "ok w" "assertJsonTree ''$'' 0 (ctx_data c) = Inr ()"
  shows "\<exists>w' c'. bindM (repo_saveExecutionContext repo sc c v) (\<lambda>_. repo_getExecutionContext repo sc) w
      = (Value c', w') \<and> ok w' \<and> ctx_data c' = ctx_data c"
proof -
  obtain w' n where "repo_saveExecutionContext repo sc c v w = (Value (), w')" "ok w'"
    "context_of w' = (context_of w)(sc := \<lparr>ctx_data = ctx_data c, ctx_version = orKeep v n\<rparr>)"
    using saveExecutionContext [OF assms, of sc v] by blast
  then show ?thesis by (simp add: getExecutionContext)
qed

end

end
