(* ===== verification/InMemoryRepository.thy ===== *)
theory InMemoryRepository
  imports Repository
begin

text \<open>
  \<open>InMemoryJobRepository\<close> (\<open>repository/in-memory/in-memory-job-repository.ts\<close>): its state is
  five insertion-ordered maps and the generator's counter; \<open>ims_clock\<close> is what \<open>new Date()\<close>
  reads. Each operation runs without an intermediate \<open>await\<close> (the mutex only orders
  them), so it is one atomic step. Rows are values, which is what the deep copies achieve.
\<close>

section \<open>State\<close>

record inMemoryState =
  ims_instances :: "(string, jobInstance) jsmap"
  ims_instancesByKey :: "(string, jobInstance) jsmap"
  ims_executions :: "(string, jobExecution) jsmap"
  ims_stepExecutions :: "(string, stepExecution) jsmap"
  ims_contexts :: "(string, executionContext) jsmap"
  ims_counter :: nat
  ims_clock :: date

definition emptyInMemoryState :: inMemoryState where
  "emptyInMemoryState = \<lparr>ims_instances = [], ims_instancesByKey = [], ims_executions = [],
     ims_stepExecutions = [], ims_contexts = [], ims_counter = 0, ims_clock = 0\<rparr>"

fun scopeKey :: "executionScope \<Rightarrow> string" where
  "scopeKey (JobScope i) = ''job::'' @ i"
| "scopeKey (StepScope i) = ''step::'' @ i"

lemma scopeKey_inject [simp]: "scopeKey a = scopeKey b \<longleftrightarrow> a = b"
  by (cases a; cases b) auto

definition instanceKey :: "string \<Rightarrow> string \<Rightarrow> string" where
  "instanceKey name jobKey = name @ ''::'' @ jobKey"

section \<open>Operations\<close>

definition nextId :: "idGenerator \<Rightarrow> (inMemoryState, string) M" where
  "nextId gen = (\<lambda>s. (Value (gen (ims_counter s)), s\<lparr>ims_counter := ims_counter s + 1\<rparr>))"

text \<open>The creation of an instance, shared by the two operations that do it.\<close>

definition insertInstance :: "idGenerator \<Rightarrow> string \<Rightarrow> string \<Rightarrow> (inMemoryState, jobInstance) M" where
  "insertInstance gen name jobKey =
     bindM (nextId gen) (\<lambda>i s.
       let inst = \<lparr>ji_id = i, ji_jobName = name, ji_jobKey = jobKey, ji_createdAt = ims_clock s\<rparr>
       in (Value inst, s\<lparr>ims_instances := mapSet i inst (ims_instances s),
            ims_instancesByKey := mapSet (instanceKey name jobKey) inst (ims_instancesByKey s)\<rparr>))"

definition getOrCreateJobInstance :: "idGenerator \<Rightarrow> string \<Rightarrow> string \<Rightarrow> (inMemoryState, jobInstance) M" where
  "getOrCreateJobInstance gen name jobKey =
     bindM (getM (\<lambda>s. mapGet (ims_instancesByKey s) (instanceKey name jobKey))) (\<lambda>existing.
       case existing of
         Some inst \<Rightarrow> returnM inst
       | None \<Rightarrow> insertInstance gen name jobKey)"

definition insertExecution :: "idGenerator \<Rightarrow> string \<Rightarrow> jobParameters \<Rightarrow> (inMemoryState, jobExecution) M" where
  "insertExecution gen jobInstanceId params =
     bindM (nextId gen) (\<lambda>i s.
       let exec = \<lparr>je_id = i, je_jobInstanceId = jobInstanceId, je_status = JobStarting,
             je_startTime = None, je_endTime = None, je_exitCode = [], je_exitMessage = [],
             je_params = params\<rparr>
       in (Value exec, s\<lparr>ims_executions := mapSet i exec (ims_executions s)\<rparr>))"

definition createJobExecution :: "idGenerator \<Rightarrow> string \<Rightarrow> jobParameters \<Rightarrow> (inMemoryState, jobExecution) M" where
  "createJobExecution gen jobInstanceId params = insertExecution gen jobInstanceId params"

definition isRunningOf :: "string \<Rightarrow> jobExecution \<Rightarrow> bool" where
  "isRunningOf jobInstanceId exec \<longleftrightarrow>
     je_jobInstanceId exec = jobInstanceId \<and> isRunningStatus (je_status exec)"

definition createExecutionAtomic :: "idGenerator \<Rightarrow> string \<Rightarrow> string \<Rightarrow> jobParameters \<Rightarrow>
    (inMemoryState, jobExecution) M" where
  "createExecutionAtomic gen name jobKey params =
     bindM (getOrCreateJobInstance gen name jobKey) (\<lambda>inst.
       bindM (getM (\<lambda>s. find (isRunningOf (ji_id inst)) (mapValues (ims_executions s)))) (\<lambda>running.
         case running of
           Some exec \<Rightarrow> throwM (jobExecutionAlreadyRunningError (je_id exec))
         | None \<Rightarrow> insertExecution gen (ji_id inst) params))"

definition getRunningJobExecution :: "string \<Rightarrow> (inMemoryState, jobExecution option) M" where
  "getRunningJobExecution jobInstanceId =
     getM (\<lambda>s. find (isRunningOf jobInstanceId) (mapValues (ims_executions s)))"

definition updateJobExecution :: "string \<Rightarrow> jobExecutionPatch \<Rightarrow> (inMemoryState, unit) M" where
  "updateJobExecution executionId patch = (\<lambda>s.
     case mapGet (ims_executions s) executionId of
       None \<Rightarrow> (Throw (plainError (''JobExecution not found: '' @ executionId)), s)
     | Some cur \<Rightarrow> (Value (),
         s\<lparr>ims_executions := mapSet executionId (patchJobExecution patch cur) (ims_executions s)\<rparr>))"

definition getJobExecution :: "string \<Rightarrow> (inMemoryState, jobExecution option) M" where
  "getJobExecution executionId = getM (\<lambda>s. mapGet (ims_executions s) executionId)"

definition getJobInstance :: "string \<Rightarrow> (inMemoryState, jobInstance option) M" where
  "getJobInstance jobInstanceId = getM (\<lambda>s. mapGet (ims_instances s) jobInstanceId)"

definition matchesInstanceFilter :: "jobInstanceFilter \<Rightarrow> jobInstance \<Rightarrow> bool" where
  "matchesInstanceFilter f inst \<longleftrightarrow>
     (case if_jobName f of None \<Rightarrow> True | Some n \<Rightarrow> ji_jobName inst = n)
   \<and> (case if_jobKey f of None \<Rightarrow> True | Some k \<Rightarrow> ji_jobKey inst = k)"

definition findJobInstances :: "jobInstanceFilter \<Rightarrow> (inMemoryState, jobInstance list) M" where
  "findJobInstances f = getM (\<lambda>s. filter (matchesInstanceFilter f) (mapValues (ims_instances s)))"

definition matchesExecutionFilter :: "jobExecutionFilter \<Rightarrow> jobExecution \<Rightarrow> bool" where
  "matchesExecutionFilter f e \<longleftrightarrow>
     (case ef_jobInstanceId f of None \<Rightarrow> True | Some i \<Rightarrow> je_jobInstanceId e = i)
   \<and> (case ef_status f of None \<Rightarrow> True | Some ss \<Rightarrow> je_status e \<in> set ss)
   \<and> (case ef_startedAfter f of None \<Rightarrow> True
      | Some d \<Rightarrow> (case je_startTime e of None \<Rightarrow> False | Some t \<Rightarrow> \<not> t < d))
   \<and> (case ef_startedBefore f of None \<Rightarrow> True
      | Some d \<Rightarrow> (case je_startTime e of None \<Rightarrow> False | Some t \<Rightarrow> \<not> t > d))"

definition findJobExecutions :: "jobExecutionFilter \<Rightarrow> (inMemoryState, jobExecution list) M" where
  "findJobExecutions f = getM (\<lambda>s. filter (matchesExecutionFilter f) (mapValues (ims_executions s)))"

definition createStepExecution :: "idGenerator \<Rightarrow> string \<Rightarrow> string \<Rightarrow> (inMemoryState, stepExecution) M" where
  "createStepExecution gen jobExecutionId stepName =
     bindM (nextId gen) (\<lambda>i s.
       let step = \<lparr>se_id = i, se_jobExecutionId = jobExecutionId, se_stepName = stepName,
             se_status = StepStarting, se_readCount = 0, se_writeCount = 0, se_skipCount = 0,
             se_rollbackCount = 0, se_commitCount = 0, se_startTime = None, se_endTime = None,
             se_exitCode = [], se_exitMessage = []\<rparr>
       in (Value step, s\<lparr>ims_stepExecutions := mapSet i step (ims_stepExecutions s)\<rparr>))"

definition updateStepExecution :: "string \<Rightarrow> stepExecutionPatch \<Rightarrow> (inMemoryState, unit) M" where
  "updateStepExecution stepExecutionId patch = (\<lambda>s.
     case mapGet (ims_stepExecutions s) stepExecutionId of
       None \<Rightarrow> (Throw (plainError (''StepExecution not found: '' @ stepExecutionId)), s)
     | Some cur \<Rightarrow> (Value (),
         s\<lparr>ims_stepExecutions :=
             mapSet stepExecutionId (patchStepExecution patch cur) (ims_stepExecutions s)\<rparr>))"

definition getStepExecution :: "string \<Rightarrow> (inMemoryState, stepExecution option) M" where
  "getStepExecution stepExecutionId = getM (\<lambda>s. mapGet (ims_stepExecutions s) stepExecutionId)"

definition findStepExecutions :: "string \<Rightarrow> (inMemoryState, stepExecution list) M" where
  "findStepExecutions jobExecutionId =
     getM (\<lambda>s. filter (\<lambda>e. se_jobExecutionId e = jobExecutionId) (mapValues (ims_stepExecutions s)))"

definition getExecutionContext :: "executionScope \<Rightarrow> (inMemoryState, executionContext) M" where
  "getExecutionContext scope = getM (\<lambda>s. case mapGet (ims_contexts s) (scopeKey scope) of
      Some ctx \<Rightarrow> ctx
    | None \<Rightarrow> \<lparr>ctx_data = JNull, ctx_version = 0\<rparr>)"

definition saveExecutionContext :: "executionScope \<Rightarrow> executionContext \<Rightarrow> int option \<Rightarrow>
    (inMemoryState, unit) M" where
  "saveExecutionContext scope ctx version =
     bindM (liftE (assertJsonTree ''$'' 0 (ctx_data ctx))) (\<lambda>_. modifyM (\<lambda>s.
       let current = mapGet (ims_contexts s) (scopeKey scope);
           nextVersion = (case version of
               Some v \<Rightarrow> v
             | None \<Rightarrow> (case current of None \<Rightarrow> 0 | Some c \<Rightarrow> ctx_version c) + 1)
       in s\<lparr>ims_contexts := mapSet (scopeKey scope)
              \<lparr>ctx_data = ctx_data ctx, ctx_version = nextVersion\<rparr> (ims_contexts s)\<rparr>))"

definition findLatestStepExecution :: "string \<Rightarrow> string \<Rightarrow> (inMemoryState, stepExecution option) M" where
  "findLatestStepExecution jobExecutionId stepName =
     getM (\<lambda>s. foldl (\<lambda>latest step.
         if se_jobExecutionId step = jobExecutionId \<and> se_stepName step = stepName
         then Some step else latest)
       None (mapValues (ims_stepExecutions s)))"

definition inMemoryRepository :: "idGenerator \<Rightarrow> inMemoryState jobRepository" where
  "inMemoryRepository gen = \<lparr>
     repo_getOrCreateJobInstance = getOrCreateJobInstance gen,
     repo_createJobExecution = createJobExecution gen,
     repo_createExecutionAtomic = createExecutionAtomic gen,
     repo_updateJobExecution = updateJobExecution,
     repo_getJobExecution = getJobExecution,
     repo_getJobInstance = getJobInstance,
     repo_findJobInstances = findJobInstances,
     repo_findJobExecutions = findJobExecutions,
     repo_getRunningJobExecution = getRunningJobExecution,
     repo_createStepExecution = createStepExecution gen,
     repo_updateStepExecution = updateStepExecution,
     repo_getStepExecution = getStepExecution,
     repo_findStepExecutions = findStepExecutions,
     repo_getExecutionContext = getExecutionContext,
     repo_saveExecutionContext = saveExecutionContext,
     repo_findLatestStepExecution = findLatestStepExecution\<rparr>"


lemmas inMemory_defs = getOrCreateJobInstance_def insertInstance_def createJobExecution_def
  insertExecution_def createExecutionAtomic_def updateJobExecution_def createStepExecution_def
  updateStepExecution_def saveExecutionContext_def nextId_def

section \<open>The invariant\<close>

text \<open>Every row is stored under its own identifier, which the generator has already yielded.\<close>

definition rowsOk :: "idGenerator \<Rightarrow> nat \<Rightarrow> ('a \<Rightarrow> string) \<Rightarrow> (string, 'a) jsmap \<Rightarrow> bool" where
  "rowsOk gen n ident m \<longleftrightarrow> wfMap m
     \<and> (\<forall>i x. mapGet m i = Some x \<longrightarrow> ident x = i \<and> (\<exists>k < n. i = gen k))"

text \<open>The index by name and key and the map of instances hold the same instances.\<close>

definition keysOk :: "inMemoryState \<Rightarrow> bool" where
  "keysOk s \<longleftrightarrow>
     (\<forall>k inst. mapGet (ims_instancesByKey s) k = Some inst \<longrightarrow>
        k = instanceKey (ji_jobName inst) (ji_jobKey inst)
      \<and> mapGet (ims_instances s) (ji_id inst) = Some inst)
   \<and> (\<forall>i inst. mapGet (ims_instances s) i = Some inst \<longrightarrow>
        mapGet (ims_instancesByKey s) (instanceKey (ji_jobName inst) (ji_jobKey inst)) = Some inst)"

definition imsInv :: "idGenerator \<Rightarrow> inMemoryState \<Rightarrow> bool" where
  "imsInv gen s \<longleftrightarrow> rowsOk gen (ims_counter s) ji_id (ims_instances s)
     \<and> rowsOk gen (ims_counter s) je_id (ims_executions s)
     \<and> rowsOk gen (ims_counter s) se_id (ims_stepExecutions s) \<and> keysOk s"

lemma rowsOk_mono [intro]: "rowsOk gen n ident m \<Longrightarrow> rowsOk gen (Suc n) ident m"
  unfolding rowsOk_def using less_Suc_eq by blast

lemma rowsOk_new:
  "rowsOk gen n ident m \<Longrightarrow> ident x = gen n \<Longrightarrow> rowsOk gen (Suc n) ident (mapSet (gen n) x m)"
  unfolding rowsOk_def by (auto; metis less_SucI)

lemma rowsOk_update:
  "rowsOk gen n ident m \<Longrightarrow> mapGet m i = Some y \<Longrightarrow> ident x = ident y \<Longrightarrow> rowsOk gen n ident (mapSet i x m)"
  unfolding rowsOk_def by auto

lemma rowsOk_fresh: "inj gen \<Longrightarrow> rowsOk gen n ident m \<Longrightarrow> mapGet m (gen n) = None"
  unfolding rowsOk_def by (metis injD nat_neq_iff not_None_eq)

lemma rowsOk_ident: "rowsOk gen n ident m \<Longrightarrow> mapGet m i = Some x \<Longrightarrow> ident x = i"
  unfolding rowsOk_def by blast

lemma imsInv_empty [simp]: "imsInv gen emptyInMemoryState"
  by (simp add: imsInv_def rowsOk_def keysOk_def emptyInMemoryState_def)

lemma insertInstance_inv:
  assumes "inj gen" "imsInv gen s" "mapGet (ims_instancesByKey s) (instanceKey name key) = None"
  shows "imsInv gen (snd (insertInstance gen name key s))"
proof -
  let ?i = "gen (ims_counter s)"
  let ?inst = "\<lparr>ji_id = ?i, ji_jobName = name, ji_jobKey = key, ji_createdAt = ims_clock s\<rparr>"
  have fresh: "mapGet (ims_instances s) ?i = None"
    using assms rowsOk_fresh by (auto simp: imsInv_def)
  have ident: "\<And>j x. mapGet (ims_instances s) j = Some x \<Longrightarrow> ji_id x = j"
    using assms(2) rowsOk_ident by (auto simp: imsInv_def)
  have "keysOk (snd (insertInstance gen name key s))"
    using assms(2,3) fresh ident unfolding imsInv_def keysOk_def
    by (fastforce simp: insertInstance_def nextId_def Let_def bindM_def split: if_splits)
  moreover have "rowsOk gen (Suc (ims_counter s)) ji_id (mapSet ?i ?inst (ims_instances s))"
    using assms(2) by (intro rowsOk_new) (simp_all add: imsInv_def)
  ultimately show ?thesis
    using assms(2)
    by (auto simp: imsInv_def insertInstance_def nextId_def Let_def bindM_def)
qed

lemma getOrCreateJobInstance_inv:
  "inj gen \<Longrightarrow> imsInv gen s \<Longrightarrow> imsInv gen (snd (getOrCreateJobInstance gen name key s))"
  using insertInstance_inv [of gen s name key]
  by (cases "mapGet (ims_instancesByKey s) (instanceKey name key)")
    (simp_all add: getOrCreateJobInstance_def bindM_def)

lemma keysOk_cong [simp]:
  "keysOk (s\<lparr>ims_executions := x\<rparr>) = keysOk s" "keysOk (s\<lparr>ims_stepExecutions := y\<rparr>) = keysOk s"
  "keysOk (s\<lparr>ims_contexts := c\<rparr>) = keysOk s" "keysOk (s\<lparr>ims_counter := n\<rparr>) = keysOk s"
  "keysOk (s\<lparr>ims_clock := t\<rparr>) = keysOk s"
  by (simp_all add: keysOk_def)

lemma insertExecution_inv:
  "imsInv gen s \<Longrightarrow> imsInv gen (snd (insertExecution gen i params s))"
  by (auto simp: insertExecution_def nextId_def Let_def bindM_def imsInv_def intro: rowsOk_new)

lemma createStepExecution_inv:
  "imsInv gen s \<Longrightarrow> imsInv gen (snd (createStepExecution gen i name s))"
  by (auto simp: createStepExecution_def nextId_def Let_def bindM_def imsInv_def intro: rowsOk_new)

lemma createExecutionAtomic_cases:
  obtains (running) inst s' exec where "getOrCreateJobInstance gen name key s = (Value inst, s')"
      "find (isRunningOf (ji_id inst)) (mapValues (ims_executions s')) = Some exec"
      "createExecutionAtomic gen name key params s =
         (Throw (jobExecutionAlreadyRunningError (je_id exec)), s')"
    | (free) inst s' where "getOrCreateJobInstance gen name key s = (Value inst, s')"
      "find (isRunningOf (ji_id inst)) (mapValues (ims_executions s')) = None"
      "createExecutionAtomic gen name key params s = insertExecution gen (ji_id inst) params s'"
proof -
  obtain inst s' where g: "getOrCreateJobInstance gen name key s = (Value inst, s')"
    by (cases "mapGet (ims_instancesByKey s) (instanceKey name key)")
      (simp_all add: getOrCreateJobInstance_def insertInstance_def nextId_def bindM_def Let_def)
  show thesis
    by (cases "find (isRunningOf (ji_id inst)) (mapValues (ims_executions s'))")
      (use g running free in \<open>simp_all add: createExecutionAtomic_def\<close>)
qed

lemma createExecutionAtomic_inv:
  assumes "inj gen" "imsInv gen s"
  shows "imsInv gen (snd (createExecutionAtomic gen name key params s))"
  using getOrCreateJobInstance_inv [OF assms, of name key]
  by (cases rule: createExecutionAtomic_cases [of gen name key s params]) (auto intro: insertExecution_inv)

lemma updateJobExecution_inv: "imsInv gen s \<Longrightarrow> imsInv gen (snd (updateJobExecution i p s))"
  by (auto simp: updateJobExecution_def imsInv_def intro: rowsOk_update split: option.splits)

lemma updateStepExecution_inv: "imsInv gen s \<Longrightarrow> imsInv gen (snd (updateStepExecution i p s))"
  by (auto simp: updateStepExecution_def imsInv_def intro: rowsOk_update split: option.splits)

lemma saveExecutionContext_inv: "imsInv gen s \<Longrightarrow> imsInv gen (snd (saveExecutionContext sc c v s))"
  by (cases "assertJsonTree ''$'' 0 (ctx_data c)")
    (simp_all add: saveExecutionContext_def imsInv_def Let_def bindM_def)

section \<open>The contract, discharged\<close>

definition contextIn :: "inMemoryState \<Rightarrow> executionScope \<Rightarrow> executionContext" where
  "contextIn s scope = (case mapGet (ims_contexts s) (scopeKey scope) of
      Some ctx \<Rightarrow> ctx | None \<Rightarrow> \<lparr>ctx_data = JNull, ctx_version = 0\<rparr>)"

lemma getExecutionContext_contextIn:
  "repo_getExecutionContext (inMemoryRepository gen) scope s = (Value (contextIn s scope), s)"
  by (simp add: inMemoryRepository_def getExecutionContext_def contextIn_def)

lemma contextIn_cong [simp]:
  "contextIn (s\<lparr>ims_executions := x\<rparr>) = contextIn s"
  "contextIn (s\<lparr>ims_stepExecutions := y\<rparr>) = contextIn s"
  "contextIn (s\<lparr>ims_counter := n\<rparr>) = contextIn s"
  by (simp_all add: contextIn_def fun_eq_iff)

lemma map_of_update_fun: "(\<lambda>i. mapGet (mapSet k v m) i) = (\<lambda>i. mapGet m i)(k \<mapsto> v)"
  by (rule ext) simp

lemma inMemory_contract:
  assumes "inj gen"
  shows "repository_contract (inMemoryRepository gen) (imsInv gen)
    (\<lambda>s. mapGet (ims_executions s)) (\<lambda>s. mapGet (ims_stepExecutions s)) contextIn"
proof (unfold_locales, goal_cases)
  case (1 w i e)
  then show ?case using rowsOk_ident by (auto simp: imsInv_def)
next
  case (3 w i e p)
  then show ?case using updateJobExecution_inv [of gen w i p]
    by (simp add: inMemoryRepository_def updateJobExecution_def map_of_update_fun)
next
  case (5 w j name)
  then have "mapGet (ims_stepExecutions w) (gen (ims_counter w)) = None"
    using assms rowsOk_fresh by (auto simp: imsInv_def)
  with 5 createStepExecution_inv [of gen w j name] show ?case
    by (simp add: inMemoryRepository_def createStepExecution_def nextId_def bindM_def Let_def
        map_of_update_fun)
next
  case (6 w i s q)
  then show ?case using updateStepExecution_inv [of gen w i q]
    by (auto simp: inMemoryRepository_def updateStepExecution_def map_of_update_fun intro!: exI)
next
  case (8 w c sc v)
  then show ?case using saveExecutionContext_inv [of gen w sc c v]
    by (auto simp: inMemoryRepository_def saveExecutionContext_def contextIn_def Let_def orKeep_def
        fun_eq_iff split: option.splits)
next
  case (10 w j name)
  let ?last = "foldl (\<lambda>latest step.
      if se_jobExecutionId step = j \<and> se_stepName step = name then Some step else latest)"
  have "acc = Some s \<or> s \<in> set xs \<and> se_jobExecutionId s = j \<and> se_stepName s = name"
    if "?last acc xs = Some s" for acc xs s
    using that by (induction xs arbitrary: acc) (auto split: if_splits)
  from this [of None "mapValues (ims_stepExecutions w)"]
  have last: "s \<in> set (mapValues (ims_stepExecutions w)) \<and> se_jobExecutionId s = j \<and> se_stepName s = name"
    if "?last None (mapValues (ims_stepExecutions w)) = Some s" for s
    using that by blast
  have "mapGet (ims_stepExecutions w) (se_id s) = Some s"
    if "s \<in> set (mapValues (ims_stepExecutions w))" for s
  proof -
    have rows: "rowsOk gen (ims_counter w) se_id (ims_stepExecutions w)" using 10 by (simp add: imsInv_def)
    then have "wfMap (ims_stepExecutions w)" by (simp add: rowsOk_def)
    from wfMap_in_values [OF this] that obtain k where k: "mapGet (ims_stepExecutions w) k = Some s" by blast
    then show ?thesis using rowsOk_ident [OF rows k] by simp
  qed
  with last have "\<forall>s. ?last None (mapValues (ims_stepExecutions w)) = Some s \<longrightarrow>
      mapGet (ims_stepExecutions w) (se_id s) = Some s \<and> se_jobExecutionId s = j \<and> se_stepName s = name"
    by blast
  moreover have "repo_findLatestStepExecution (inMemoryRepository gen) j name w
      = (Value (?last None (mapValues (ims_stepExecutions w))), w)"
    by (simp add: inMemoryRepository_def findLatestStepExecution_def)
  ultimately show ?case by blast
qed (auto simp: inMemoryRepository_def saveExecutionContext_def getJobExecution_def updateJobExecution_def
    getExecutionContext_def contextIn_def split: option.splits)

interpretation im: repository_contract "inMemoryRepository (deterministicIdGenerator prefix)"
    "imsInv (deterministicIdGenerator prefix)" "\<lambda>s. mapGet (ims_executions s)"
    "\<lambda>s. mapGet (ims_stepExecutions s)" contextIn
  for prefix
  by (rule inMemory_contract [OF deterministicIdGenerator_inj])


section \<open>Histories\<close>

text \<open>
  The calls that change the state. Concurrent callers interleave whole calls, so a history
  of the repository is a sequence of them; time may pass in between.
\<close>

datatype repoCall =
    CallGetOrCreate string string
  | CallCreateExecution string jobParameters
  | CallCreateAtomic string string jobParameters
  | CallUpdateJob string jobExecutionPatch
  | CallCreateStep string string
  | CallUpdateStep string stepExecutionPatch
  | CallSaveContext executionScope executionContext "int option"
  | TimePasses date

fun runCall :: "idGenerator \<Rightarrow> repoCall \<Rightarrow> inMemoryState \<Rightarrow> inMemoryState" where
  "runCall gen (CallGetOrCreate name key) s = snd (getOrCreateJobInstance gen name key s)"
| "runCall gen (CallCreateExecution i params) s = snd (createJobExecution gen i params s)"
| "runCall gen (CallCreateAtomic name key params) s = snd (createExecutionAtomic gen name key params s)"
| "runCall gen (CallUpdateJob i p) s = snd (updateJobExecution i p s)"
| "runCall gen (CallCreateStep i name) s = snd (createStepExecution gen i name s)"
| "runCall gen (CallUpdateStep i p) s = snd (updateStepExecution i p s)"
| "runCall gen (CallSaveContext sc c v) s = snd (saveExecutionContext sc c v s)"
| "runCall gen (TimePasses t) s = s\<lparr>ims_clock := ims_clock s + t\<rparr>"

inductive repoReachable :: "idGenerator \<Rightarrow> (repoCall \<Rightarrow> inMemoryState \<Rightarrow> bool) \<Rightarrow> inMemoryState \<Rightarrow> bool"
  for gen allowed where
  repo_start: "repoReachable gen allowed emptyInMemoryState"
| repo_call: "repoReachable gen allowed s \<Longrightarrow> allowed call s \<Longrightarrow> repoReachable gen allowed (runCall gen call s)"

inductive_cases repoReachableE: "repoReachable gen allowed s"

lemma runCall_inv:
  assumes "inj gen" "imsInv gen s"
  shows "imsInv gen (runCall gen call s)"
  using assms
  by (cases call) (simp_all add: getOrCreateJobInstance_inv insertExecution_inv createJobExecution_def
      createExecutionAtomic_inv updateJobExecution_inv createStepExecution_inv
      updateStepExecution_inv saveExecutionContext_inv, simp add: imsInv_def)

lemma repoReachable_inv: "repoReachable gen allowed s \<Longrightarrow> inj gen \<Longrightarrow> imsInv gen s"
  by (induction rule: repoReachable.induct) (simp_all add: runCall_inv)

text \<open>
  The executions are created by the atomic operation only, and no update brings a finished
  execution back to a running status: what launches do, as opposed to restarts.
\<close>

fun launchesOnly :: "repoCall \<Rightarrow> inMemoryState \<Rightarrow> bool" where
  "launchesOnly (CallCreateExecution _ _) s = False"
| "launchesOnly (CallUpdateJob i p) s = (\<forall>st e. jp_status p = Some st \<longrightarrow> isRunningStatus st \<longrightarrow>
     mapGet (ims_executions s) i = Some e \<longrightarrow> isRunningStatus (je_status e))"
| "launchesOnly _ s = True"

definition singleRunning :: "inMemoryState \<Rightarrow> bool" where
  "singleRunning s \<longleftrightarrow> (\<forall>i j a b. mapGet (ims_executions s) i = Some a \<longrightarrow>
     mapGet (ims_executions s) j = Some b \<longrightarrow> je_jobInstanceId a = je_jobInstanceId b \<longrightarrow>
     isRunningStatus (je_status a) \<longrightarrow> isRunningStatus (je_status b) \<longrightarrow> i = j)"

lemma getOrCreateJobInstance_executions [simp]:
  "ims_executions (snd (getOrCreateJobInstance gen name key s)) = ims_executions s"
  by (cases "mapGet (ims_instancesByKey s) (instanceKey name key)")
    (simp_all add: getOrCreateJobInstance_def insertInstance_def nextId_def bindM_def Let_def)

lemma insertExecution_effect:
  "insertExecution gen i params s = (Value \<lparr>je_id = gen (ims_counter s), je_jobInstanceId = i,
      je_status = JobStarting, je_startTime = None, je_endTime = None, je_exitCode = [],
      je_exitMessage = [], je_params = params\<rparr>,
    s\<lparr>ims_counter := ims_counter s + 1,
      ims_executions := mapSet (gen (ims_counter s)) \<lparr>je_id = gen (ims_counter s),
        je_jobInstanceId = i, je_status = JobStarting, je_startTime = None, je_endTime = None,
        je_exitCode = [], je_exitMessage = [], je_params = params\<rparr> (ims_executions s)\<rparr>)"
  by (simp add: insertExecution_def nextId_def bindM_def Let_def)

lemma createExecutionAtomic_single:
  assumes "singleRunning s"
  shows "singleRunning (snd (createExecutionAtomic gen name key params s))"
proof (cases rule: createExecutionAtomic_cases [of gen name key s params])
  case (running inst s' exec)
  then have "ims_executions s' = ims_executions s"
    using getOrCreateJobInstance_executions [of gen name key s] by simp
  with running assms show ?thesis by (simp add: singleRunning_def)
next
  case (free inst s')
  then have e: "ims_executions s' = ims_executions s"
    using getOrCreateJobInstance_executions [of gen name key s] by simp
  have "\<not> isRunningOf (ji_id inst) x" if "mapGet (ims_executions s) j = Some x" for j x
    using free(2) that e mapGet_in_values [OF that] by (auto simp: find_None_set)
  with assms e free show ?thesis
    by (auto simp: singleRunning_def insertExecution_effect isRunningOf_def)
qed

lemma updateJobExecution_single:
  assumes "singleRunning s" "launchesOnly (CallUpdateJob i p) s"
  shows "singleRunning (snd (updateJobExecution i p s))"
proof (cases "mapGet (ims_executions s) i")
  case (Some e)
  then have "isRunningStatus (je_status (patchJobExecution p e)) \<Longrightarrow> isRunningStatus (je_status e)"
    using assms(2) by (cases "jp_status p") auto
  with Some assms(1) show ?thesis
    unfolding singleRunning_def updateJobExecution_def by (auto split: if_splits)
qed (use assms in \<open>simp add: updateJobExecution_def\<close>)

lemma runCall_single:
  assumes "singleRunning s" "launchesOnly call s"
  shows "singleRunning (runCall gen call s)"
proof (cases call)
  case (CallSaveContext sc c v)
  with assms show ?thesis
    by (cases "assertJsonTree ''$'' 0 (ctx_data c)")
      (simp_all add: saveExecutionContext_def singleRunning_def Let_def)
next
  case (CallUpdateStep i p)
  with assms show ?thesis by (simp add: updateStepExecution_def singleRunning_def split: option.splits)
qed (use assms in \<open>simp_all add: createExecutionAtomic_single updateJobExecution_single,
      simp_all add: singleRunning_def createStepExecution_def nextId_def bindM_def Let_def\<close>)

section \<open>Properties\<close>

text \<open>
  Whatever calls interleave, a job instance is unique for its name and key, every row is
  found under its own identifier, and asking for an instance again returns the one that
  exists and changes nothing.
\<close>
theorem instances_unique:
  assumes "inj gen" "repoReachable gen (\<lambda>_ _. True) s"
    and "mapGet (ims_instances s) i = Some a"
  shows "ji_id a = i \<and> getOrCreateJobInstance gen (ji_jobName a) (ji_jobKey a) s = (Value a, s)
    \<and> (\<forall>j b. mapGet (ims_instances s) j = Some b \<and> ji_jobName a = ji_jobName b
        \<and> ji_jobKey a = ji_jobKey b \<longrightarrow> i = j \<and> a = b)"
proof -
  have inv: "imsInv gen s" using repoReachable_inv [OF assms(2,1)] .
  have key: "mapGet (ims_instancesByKey s) (instanceKey (ji_jobName x) (ji_jobKey x)) = Some x"
    and ident: "ji_id x = k" if "mapGet (ims_instances s) k = Some x" for k x
    using inv that rowsOk_ident by (auto simp: imsInv_def keysOk_def)
  have "i = j \<and> a = b"
    if "mapGet (ims_instances s) j = Some b" "ji_jobName a = ji_jobName b" "ji_jobKey a = ji_jobKey b" for j b
  proof -
    have "Some a = Some b"
      using key [OF assms(3)] key [OF that(1)] unfolding that(2,3) by (rule trans [OF sym])
    then show ?thesis using ident [OF assms(3)] ident [OF that(1)] by blast
  qed
  then show ?thesis
    using key [OF assms(3)] ident [OF assms(3)] by (auto simp: getOrCreateJobInstance_def)
qed


text \<open>The atomic creation, both ways it can end.\<close>

lemma createExecutionAtomic_outcome:
  assumes "inj gen" "imsInv gen s"
    and "createExecutionAtomic gen name key params s = (r, s')"
  shows "\<exists>inst. mapGet (ims_instancesByKey s') (instanceKey name key) = Some inst
    \<and> (\<forall>x. mapGet (ims_instancesByKey s) (instanceKey name key) = Some x \<longrightarrow> x = inst)
    \<and> ((\<exists>e. r = Value e \<and> je_jobInstanceId e = ji_id inst \<and> je_status e = JobStarting
          \<and> je_params e = params \<and> mapGet (ims_executions s) (je_id e) = None
          \<and> mapGet (ims_executions s') = (mapGet (ims_executions s))(je_id e \<mapsto> e)
          \<and> (\<forall>x \<in> set (mapValues (ims_executions s)). \<not> isRunningOf (ji_id inst) x))
     \<or> (\<exists>x. r = Throw (jobExecutionAlreadyRunningError (je_id x))
          \<and> x \<in> set (mapValues (ims_executions s)) \<and> isRunningOf (ji_id inst) x
          \<and> ims_executions s' = ims_executions s))"
proof -
  obtain inst s2 where g: "getOrCreateJobInstance gen name key s = (Value inst, s2)"
    by (cases rule: createExecutionAtomic_cases [of gen name key s params])
  then have e: "ims_executions s2 = ims_executions s"
    using getOrCreateJobInstance_executions [of gen name key s] by simp
  have i: "mapGet (ims_instancesByKey s2) (instanceKey name key) = Some inst"
    "\<forall>x. mapGet (ims_instancesByKey s) (instanceKey name key) = Some x \<longrightarrow> x = inst"
    using g by (cases "mapGet (ims_instancesByKey s) (instanceKey name key)",
      auto simp: getOrCreateJobInstance_def insertInstance_def nextId_def bindM_def Let_def)
  have "imsInv gen s2"
    using getOrCreateJobInstance_inv [OF assms(1,2), of name key] g by simp
  then have new: "mapGet (ims_executions s2) (gen (ims_counter s2)) = None"
    using assms(1) rowsOk_fresh by (auto simp: imsInv_def)
  show ?thesis
  proof (cases rule: createExecutionAtomic_cases [of gen name key s params])
    case (running inst' s3 exec)
    then show ?thesis
      using g e i assms(3) find_Some_in_set [OF running(2)] by auto
  next
    case (free inst' s3)
    then show ?thesis using g e i new assms(3)
      by (auto simp: insertExecution_effect map_of_update_fun find_None_set)
  qed
qed

text \<open>
  C19: the atomic creation either yields a new execution in \<open>STARTING\<close>, stored under a fresh
  identifier with no other execution touched, when none of the instance was running; or
  throws \<open>JobExecutionAlreadyRunningError\<close> and creates none.
\<close>
theorem createExecutionAtomic_correct:
  assumes "inj gen" "imsInv gen s"
    and "createExecutionAtomic gen name key params s = (r, s')"
  shows "\<exists>inst. mapGet (ims_instancesByKey s') (instanceKey name key) = Some inst
    \<and> (\<forall>x. mapGet (ims_instancesByKey s) (instanceKey name key) = Some x \<longrightarrow> x = inst)
    \<and> ((\<exists>e. r = Value e \<and> je_jobInstanceId e = ji_id inst \<and> je_status e = JobStarting
          \<and> je_params e = params \<and> mapGet (ims_executions s) (je_id e) = None
          \<and> mapGet (ims_executions s') = (mapGet (ims_executions s))(je_id e \<mapsto> e)
          \<and> (\<forall>x \<in> set (mapValues (ims_executions s)). \<not> isRunningOf (ji_id inst) x))
     \<or> (\<exists>x. r = Throw (jobExecutionAlreadyRunningError (je_id x))
          \<and> x \<in> set (mapValues (ims_executions s)) \<and> isRunningOf (ji_id inst) x
          \<and> ims_executions s' = ims_executions s))"
  using assms by (rule createExecutionAtomic_outcome)

text \<open>A history for the witnesses: a launch, its completion, and a second launch.\<close>

abbreviation exampleGen :: idGenerator where
  "exampleGen \<equiv> deterministicIdGenerator ''id''"

definition launchState :: inMemoryState where
  "launchState = runCall exampleGen (CallCreateAtomic ''job'' ''key'' []) emptyInMemoryState"

lemma launchState_eval:
  "ims_executions launchState = [(''id-2'', \<lparr>je_id = ''id-2'', je_jobInstanceId = ''id-1'',
      je_status = JobStarting, je_startTime = None, je_endTime = None, je_exitCode = [],
      je_exitMessage = [], je_params = []\<rparr>)]"
  "ims_instances launchState = [(''id-1'', \<lparr>ji_id = ''id-1'', ji_jobName = ''job'',
      ji_jobKey = ''key'', ji_createdAt = 0\<rparr>)]"
  by code_simp+

lemma launchState_key: "mapGet (ims_instancesByKey launchState) (instanceKey ''job'' ''key'') =
    Some \<lparr>ji_id = ''id-1'', ji_jobName = ''job'', ji_jobKey = ''key'', ji_createdAt = 0\<rparr>"
  by code_simp

lemma launchState_reachable: "allowed (CallCreateAtomic ''job'' ''key'' []) emptyInMemoryState \<Longrightarrow>
    repoReachable exampleGen allowed launchState"
  unfolding launchState_def by (rule repo_call [OF repo_start])

theorem instances_unique_witness:
  "fst (getOrCreateJobInstance exampleGen ''job'' ''key'' launchState) =
     Value \<lparr>ji_id = ''id-1'', ji_jobName = ''job'', ji_jobKey = ''key'', ji_createdAt = 0\<rparr>"
  using instances_unique [OF deterministicIdGenerator_inj launchState_reachable [of "\<lambda>_ _. True"],
      of "''id-1''"] by (simp add: launchState_eval)


theorem createExecutionAtomic_correct_witness:
  "fst (createExecutionAtomic exampleGen ''job'' ''key'' [] launchState) =
     Throw (jobExecutionAlreadyRunningError ''id-2'')"
proof -
  have "imsInv exampleGen launchState"
    using repoReachable_inv [OF launchState_reachable [of "\<lambda>_ _. True"]] deterministicIdGenerator_inj
    by simp
  then show ?thesis
    using createExecutionAtomic_correct [OF deterministicIdGenerator_inj, of "''id''" launchState
        "''job''" "''key''" "[]" "fst (createExecutionAtomic exampleGen ''job'' ''key'' [] launchState)"]
    by (cases "createExecutionAtomic exampleGen ''job'' ''key'' [] launchState")
      (auto simp: launchState_eval launchState_key isRunningOf_def isRunningStatus_def)
qed

end
