(* ===== verification/Builders.thy ===== *)
theory Builders
  imports DefinitionValidator
begin

text \<open>
  The fluent builders (\<open>packages/core/src/builder\<close>): \<open>FlowBuilder\<close> for one transition,
  \<open>StepBuilder\<close> for one step, \<open>JobBuilder\<close> for a job with its pending transition, and the
  plain configuration \<open>build\<close> emits (\<open>compiler/builder-types.ts\<close>).

  A builder is a record of its private fields, a method takes the record and gives it back
  changed (\<open>this\<close>) or throws, and a chain of method calls is a list of calls run from the
  left. The arrays of a configuration are those of the builder at the moment of \<open>build\<close>.
\<close>

section \<open>Flow literals (core/ir/decider-definition.ts, builder/flow-builder.ts)\<close>

record 'w reusableFlowDefinition =
  rf_transitions :: "transitionDefinition list"
  rf_deciders :: "'w deciderDefinition list option"

definition defineReusableFlow :: "'w reusableFlowDefinition \<Rightarrow> 'w reusableFlowDefinition" where
  "defineReusableFlow flow = \<lparr>rf_transitions = rf_transitions flow, rf_deciders = rf_deciders flow\<rparr>"

definition defineDecider :: "string \<Rightarrow> (deciderContext \<Rightarrow> ('w, string) M) \<Rightarrow> 'w deciderDefinition" where
  "defineDecider after decideFn = \<lparr>afterStepId = after, decide = decideFn\<rparr>"

record flowBuilder =
  fb_fromStepId :: "string option"
  fb_onStatus :: "string option"
  fb_toStepId :: "string option option"
  fb_committed :: bool

definition newFlowBuilder :: flowBuilder where
  "newFlowBuilder = \<lparr>fb_fromStepId = None, fb_onStatus = None, fb_toStepId = None, fb_committed = False\<rparr>"

definition flowAlreadyCommitted :: exn where
  "flowAlreadyCommitted = plainError ''FlowBuilder already committed; create a new instance''"

definition flowFrom :: "string \<Rightarrow> flowBuilder \<Rightarrow> exn + flowBuilder" where
  "flowFrom stepId b =
     (if fb_committed b then Inl flowAlreadyCommitted
      else Inr (b\<lparr>fb_fromStepId := Some stepId\<rparr>))"

text \<open>The static \<open>FlowBuilder.from\<close>.\<close>

definition flowStart :: "string \<Rightarrow> exn + flowBuilder" where
  "flowStart stepId = flowFrom stepId newFlowBuilder"

definition flowOn :: "string \<Rightarrow> flowBuilder \<Rightarrow> exn + flowBuilder" where
  "flowOn status b =
     (if fb_committed b then Inl flowAlreadyCommitted
      else if fb_fromStepId b = None
      then Inl (plainError ''FlowBuilder: call .from(stepId) before .on(status)'')
      else Inr (b\<lparr>fb_onStatus := Some status\<rparr>))"

definition flowTo :: "string \<Rightarrow> flowBuilder \<Rightarrow> exn + flowBuilder" where
  "flowTo stepId b =
     (if fb_committed b then Inl flowAlreadyCommitted
      else if fb_fromStepId b = None \<or> fb_onStatus b = None
      then Inl (plainError ''FlowBuilder: call .from() and .on() before .to()'')
      else Inr (b\<lparr>fb_toStepId := Some (Some stepId), fb_committed := True\<rparr>))"

definition flowEnd :: "flowBuilder \<Rightarrow> exn + flowBuilder" where
  "flowEnd b =
     (if fb_committed b then Inl flowAlreadyCommitted
      else if fb_fromStepId b = None \<or> fb_onStatus b = None
      then Inl (plainError ''FlowBuilder: call .from() and .on() before .end()'')
      else Inr (b\<lparr>fb_toStepId := Some None, fb_committed := True\<rparr>))"

definition flowBuild :: "flowBuilder \<Rightarrow> exn + transitionDefinition" where
  "flowBuild b =
     (if \<not> fb_committed b then Inl (plainError ''FlowBuilder: must be committed via .to() or .end()'')
      else (case fb_fromStepId b of
          None \<Rightarrow> Inl (plainError ''FlowBuilder: missing .from(stepId)'')
        | Some a \<Rightarrow> (case fb_onStatus b of
            None \<Rightarrow> Inl (plainError ''FlowBuilder: missing .on(status)'')
          | Some s \<Rightarrow> (case fb_toStepId b of
              None \<Rightarrow> Inl (plainError ''FlowBuilder: missing .to(stepId) or .end()'')
            | Some target \<Rightarrow> Inr \<lparr>fromStepId = a, onStatus = s, toStepId = target\<rparr>))))"

datatype flowCall = FlowFrom string | FlowOn string | FlowTo string | FlowEnd

fun flowStep :: "flowCall \<Rightarrow> flowBuilder \<Rightarrow> exn + flowBuilder" where
  "flowStep (FlowFrom s) = flowFrom s"
| "flowStep (FlowOn s) = flowOn s"
| "flowStep (FlowTo s) = flowTo s"
| "flowStep FlowEnd = flowEnd"

lemmas flow_defs = flowFrom_def flowOn_def flowTo_def flowEnd_def flowAlreadyCommitted_def

text \<open>A flow builder in use is either open, with no target yet, or complete.\<close>

definition flowInv :: "flowBuilder \<Rightarrow> bool" where
  "flowInv b \<longleftrightarrow> (if fb_committed b
     then fb_fromStepId b \<noteq> None \<and> fb_onStatus b \<noteq> None \<and> fb_toStepId b \<noteq> None
     else fb_toStepId b = None)"

lemma flowInv_new [simp]: "flowInv newFlowBuilder"
  by (simp add: flowInv_def newFlowBuilder_def)

lemma flowInv_step: "flowStep c b = Inr b' \<Longrightarrow> flowInv b \<Longrightarrow> flowInv b'"
  by (cases c) (auto simp: flowInv_def flow_defs split: if_splits)

lemma flowInv_run: "foldE flowStep cs b = Inr b' \<Longrightarrow> flowInv b \<Longrightarrow> flowInv b'"
  by (induction cs arbitrary: b) (auto split: sum.splits dest: flowInv_step)

text \<open>A chain that was committed builds; the messages about missing parts are unreachable.\<close>

lemma flowBuild_iff:
  assumes "foldE flowStep cs newFlowBuilder = Inr b"
  shows "(\<exists>t. flowBuild b = Inr t) \<longleftrightarrow> fb_committed b"
  using flowInv_run [OF assms flowInv_new] by (auto simp: flowInv_def flowBuild_def)

lemma flow_committed_stuck:
  "fb_committed b \<Longrightarrow> flowStep c b = Inl flowAlreadyCommitted"
  by (cases c) (simp_all add: flow_defs)

section \<open>Step builder (builder/step-builder.ts)\<close>

record ('w, 'i) stepBuilder =
  sb_chunkSize :: "int option"
  sb_reader :: "('w, 'i) readerRef option"
  sb_processor :: "('w, 'i) processorRef option"
  sb_writer :: "('w, 'i) writerRef option"
  sb_tasklet :: "'w taskletRef option"
  sb_id :: "string option"
  sb_skipPolicy :: "skipPolicyConfig option"
  sb_retryPolicy :: "retryPolicyConfig option"
  sb_itemListeners :: "('w, 'i) listenerRef list"
  sb_listenerDefs :: "('w, 'i) listenerDefinition list"

definition newStepBuilder :: "('w, 'i) stepBuilder" where
  "newStepBuilder = \<lparr>sb_chunkSize = None, sb_reader = None, sb_processor = None, sb_writer = None,
     sb_tasklet = None, sb_id = None, sb_skipPolicy = None, sb_retryPolicy = None,
     sb_itemListeners = [], sb_listenerDefs = []\<rparr>"

record ('w, 'i) chunkConfig =
  cc_reader :: "('w, 'i) readerRef"
  cc_processor :: "('w, 'i) processorRef option"
  cc_writer :: "('w, 'i) writerRef"
  cc_skipPolicy :: "skipPolicyConfig option"
  cc_retryPolicy :: "retryPolicyConfig option"

definition stepChunk :: "string \<Rightarrow> number \<Rightarrow> ('w, 'i) chunkConfig option \<Rightarrow>
    ('w, 'i) stepBuilder \<Rightarrow> exn + ('w, 'i) stepBuilder" where
  "stepChunk i chunkSize config b =
     (if \<not> isIntegerNumber chunkSize \<or> numLessEq chunkSize (Fin 0)
      then Inl (plainError ''chunkSize must be a positive integer'')
      else let b' = b\<lparr>sb_id := Some i, sb_chunkSize := Some \<lfloor>finiteValue chunkSize\<rfloor>\<rparr> in
        Inr (case config of
            None \<Rightarrow> b'
          | Some c \<Rightarrow> b'\<lparr>sb_reader := Some (cc_reader c), sb_processor := cc_processor c,
              sb_writer := Some (cc_writer c), sb_skipPolicy := cc_skipPolicy c,
              sb_retryPolicy := cc_retryPolicy c\<rparr>))"

definition stepTasklet :: "string \<Rightarrow> 'w taskletRef \<Rightarrow> ('w, 'i) stepBuilder \<Rightarrow> ('w, 'i) stepBuilder" where
  "stepTasklet i r b = b\<lparr>sb_id := Some i, sb_tasklet := Some r\<rparr>"

definition stepReader :: "('w, 'i) readerRef \<Rightarrow> ('w, 'i) stepBuilder \<Rightarrow> ('w, 'i) stepBuilder" where
  "stepReader r b = b\<lparr>sb_reader := Some r\<rparr>"

definition stepProcessor :: "('w, 'i) processorRef \<Rightarrow> ('w, 'i) stepBuilder \<Rightarrow> ('w, 'i) stepBuilder" where
  "stepProcessor r b = b\<lparr>sb_processor := Some r\<rparr>"

definition stepWriter :: "('w, 'i) writerRef \<Rightarrow> ('w, 'i) stepBuilder \<Rightarrow> ('w, 'i) stepBuilder" where
  "stepWriter r b = b\<lparr>sb_writer := Some r\<rparr>"

definition stepSkipPolicy :: "skipPolicyConfig \<Rightarrow> ('w, 'i) stepBuilder \<Rightarrow> ('w, 'i) stepBuilder" where
  "stepSkipPolicy p b = b\<lparr>sb_skipPolicy := Some p\<rparr>"

definition stepRetryPolicy :: "retryPolicyConfig \<Rightarrow> ('w, 'i) stepBuilder \<Rightarrow> ('w, 'i) stepBuilder" where
  "stepRetryPolicy p b = b\<lparr>sb_retryPolicy := Some p\<rparr>"

definition stepAddListener :: "('w, 'i) listenerRef \<Rightarrow> listenerKind \<Rightarrow> listenerPhase \<Rightarrow> bool option \<Rightarrow>
    ('w, 'i) stepBuilder \<Rightarrow> ('w, 'i) stepBuilder" where
  "stepAddListener r kind phase nonCritical b =
     b\<lparr>sb_itemListeners := sb_itemListeners b @ [r],
       sb_listenerDefs := sb_listenerDefs b @ [\<lparr>ld_kind = kind, ld_phase = phase, ld_ref = r,
         ld_skipKind = None, ld_nonCritical = nonCritical\<rparr>]\<rparr>"

text \<open>The truthiness of an optional string.\<close>

definition truthyString :: "string option \<Rightarrow> bool" where
  "truthyString s \<longleftrightarrow> s \<noteq> None \<and> s \<noteq> Some []"

lemma truthyString_simps [simp]:
  "\<not> truthyString None" "truthyString (Some s) \<longleftrightarrow> s \<noteq> []"
  by (simp_all add: truthyString_def)

text \<open>
  The step records of the model leave out \<open>listeners\<close>, which no code reads: the two listener
  lists of the builder end here.
\<close>

definition stepBuild :: "('w, 'i) stepBuilder \<Rightarrow> exn + ('w, 'i) stepDefinition" where
  "stepBuild b =
     (if \<not> truthyString (sb_id b)
      then Inl (plainError ''Step must have an id (call .chunk() or .tasklet() first)'')
      else (case sb_tasklet b of
          Some r \<Rightarrow> Inr (TaskletStep \<lparr>ts_id = the (sb_id b), ts_tasklet = r\<rparr>)
        | None \<Rightarrow> (case (sb_chunkSize b, sb_reader b, sb_writer b) of
            (Some n, Some rd, Some wt) \<Rightarrow> Inr (ChunkStep \<lparr>cs_id = the (sb_id b),
              cs_chunkSize = n, cs_reader = rd, cs_processor = sb_processor b, cs_writer = wt,
              cs_skipPolicy = sb_skipPolicy b, cs_retryPolicy = sb_retryPolicy b,
              cs_partitions = None\<rparr>)
          | _ \<Rightarrow> Inl (plainError ''Step must be either tasklet or chunk with reader+writer''))))"

datatype ('w, 'i) stepCall =
    StepCallChunk string number "('w, 'i) chunkConfig option"
  | StepCallTasklet string "'w taskletRef"
  | StepCallReader "('w, 'i) readerRef"
  | StepCallProcessor "('w, 'i) processorRef"
  | StepCallWriter "('w, 'i) writerRef"
  | StepCallSkipPolicy skipPolicyConfig
  | StepCallRetryPolicy retryPolicyConfig
  | StepCallAddListener "('w, 'i) listenerRef" listenerKind listenerPhase "bool option"

fun stepStep :: "('w, 'i) stepCall \<Rightarrow> ('w, 'i) stepBuilder \<Rightarrow> exn + ('w, 'i) stepBuilder" where
  "stepStep (StepCallChunk i n c) b = stepChunk i n c b"
| "stepStep (StepCallTasklet i r) b = Inr (stepTasklet i r b)"
| "stepStep (StepCallReader r) b = Inr (stepReader r b)"
| "stepStep (StepCallProcessor r) b = Inr (stepProcessor r b)"
| "stepStep (StepCallWriter r) b = Inr (stepWriter r b)"
| "stepStep (StepCallSkipPolicy p) b = Inr (stepSkipPolicy p b)"
| "stepStep (StepCallRetryPolicy p) b = Inr (stepRetryPolicy p b)"
| "stepStep (StepCallAddListener r k p nc) b = Inr (stepAddListener r k p nc b)"

lemmas step_defs = stepTasklet_def stepReader_def stepProcessor_def stepWriter_def
  stepSkipPolicy_def stepRetryPolicy_def stepAddListener_def

text \<open>The chunk size a builder holds is positive, so the validator's size check always passes.\<close>

definition stepInv :: "('w, 'i) stepBuilder \<Rightarrow> bool" where
  "stepInv b \<longleftrightarrow> (\<forall>n. sb_chunkSize b = Some n \<longrightarrow> 0 < n)"

lemma positive_integer: "isIntegerNumber n \<Longrightarrow> \<not> numLessEq n (Fin 0) \<Longrightarrow> 1 \<le> finiteValue n"
proof (cases n)
  case (Fin q)
  assume "isIntegerNumber n" "\<not> numLessEq n (Fin 0)"
  with Fin have q: "rat_of_int \<lfloor>q\<rfloor> = q" "0 < q" by (simp_all del: of_int_floor_cancel)
  then have "0 < rat_of_int \<lfloor>q\<rfloor>" by (simp only:)
  then have "1 \<le> \<lfloor>q\<rfloor>" by (simp only: of_int_0_less_iff zless_imp_add1_zle [of 0, simplified])
  with Fin show ?thesis by simp
qed auto

lemma stepInv_step: "stepStep c b = Inr b' \<Longrightarrow> stepInv b \<Longrightarrow> stepInv b'"
  by (cases c)
    (auto simp: stepInv_def step_defs stepChunk_def Let_def positive_integer split: if_splits option.splits)

lemma stepInv_run: "foldE stepStep cs b = Inr b' \<Longrightarrow> stepInv b \<Longrightarrow> stepInv b'"
  by (induction cs arbitrary: b) (auto split: sum.splits dest: stepInv_step)

lemma stepInv_new [simp]: "stepInv newStepBuilder"
  by (simp add: stepInv_def newStepBuilder_def)

lemma stepBuild_valid:
  "stepBuild b = Inr s \<Longrightarrow> stepInv b \<Longrightarrow> stepIdOf s \<noteq> [] \<and> validateStep (i, s) = Inr ()"
  by (auto simp: stepBuild_def stepInv_def validateStep_def validatePartitions_def truthyString_def
      split: if_splits option.splits)

section \<open>Job builder (builder/job-builder.ts)\<close>

record pendingTransition =
  pt_fromStepId :: "string option"
  pt_onStatus :: "string option"
  pt_toStepId :: "string option option"

record ('w, 'i) jobBuilder =
  jb_restartable :: bool
  jb_allowDuplicateInstances :: bool
  jb_steps :: "(string, ('w, 'i) stepDefinition) jsmap"
  jb_stepOrder :: "string list"
  jb_transitions :: "transitionDefinition list"
  jb_deciders :: "'w deciderDefinition list"
  jb_listeners :: "('w, 'i) listenerDefinition list"
  jb_currentTransition :: "pendingTransition option"
  jb_id :: string

definition createJob :: "string \<Rightarrow> ('w, 'i) jobBuilder" where
  "createJob i = \<lparr>jb_restartable = False, jb_allowDuplicateInstances = False, jb_steps = [],
     jb_stepOrder = [], jb_transitions = [], jb_deciders = [], jb_listeners = [],
     jb_currentTransition = None, jb_id = i\<rparr>"

text \<open>\<open>BatchBuilder.create().job(id)\<close>: the root object has no state.\<close>

definition batchJob :: "string \<Rightarrow> ('w, 'i) jobBuilder" where
  "batchJob i = createJob i"

definition setRestartable :: "bool \<Rightarrow> ('w, 'i) jobBuilder \<Rightarrow> ('w, 'i) jobBuilder" where
  "setRestartable v b = b\<lparr>jb_restartable := v\<rparr>"

definition setAllowDuplicateInstances :: "bool \<Rightarrow> ('w, 'i) jobBuilder \<Rightarrow> ('w, 'i) jobBuilder" where
  "setAllowDuplicateInstances v b = b\<lparr>jb_allowDuplicateInstances := v\<rparr>"

text \<open>A step is given as a literal, or as a callback on a fresh step builder.\<close>

datatype ('w, 'i) stepArgument =
    StepLiteral "('w, 'i) stepDefinition"
  | StepCallback "('w, 'i) stepBuilder \<Rightarrow> exn + ('w, 'i) stepBuilder"

fun stepOfArgument :: "('w, 'i) stepArgument \<Rightarrow> exn + ('w, 'i) stepDefinition" where
  "stepOfArgument (StepLiteral s) = Inr s"
| "stepOfArgument (StepCallback f) = (case f newStepBuilder of Inl e \<Rightarrow> Inl e | Inr b \<Rightarrow> stepBuild b)"

definition addStep :: "('w, 'i) stepArgument \<Rightarrow> ('w, 'i) jobBuilder \<Rightarrow> exn + ('w, 'i) jobBuilder" where
  "addStep arg b = (case stepOfArgument arg of
      Inl e \<Rightarrow> Inl e
    | Inr s \<Rightarrow> Inr (b\<lparr>jb_steps := mapSet (stepIdOf s) s (jb_steps b),
        jb_stepOrder := jb_stepOrder b @ [stepIdOf s]\<rparr>))"

definition commitTransition :: "('w, 'i) jobBuilder \<Rightarrow> ('w, 'i) jobBuilder" where
  "commitTransition b = (case jb_currentTransition b of
      None \<Rightarrow> b
    | Some t \<Rightarrow>
        (let b' = (if truthyString (pt_fromStepId t) \<and> pt_onStatus t \<noteq> None \<and> pt_toStepId t \<noteq> None
            then b\<lparr>jb_transitions := jb_transitions b @ [\<lparr>fromStepId = the (pt_fromStepId t),
              onStatus = the (pt_onStatus t), toStepId = the (pt_toStepId t)\<rparr>]\<rparr>
            else b)
         in b'\<lparr>jb_currentTransition := None\<rparr>))"

definition jobFrom :: "string \<Rightarrow> ('w, 'i) jobBuilder \<Rightarrow> ('w, 'i) jobBuilder" where
  "jobFrom stepId b =
     (let b' = (case jb_currentTransition b of
          Some t \<Rightarrow> if pt_onStatus t \<noteq> None \<and> pt_toStepId t \<noteq> None then commitTransition b else b
        | None \<Rightarrow> b)
      in b'\<lparr>jb_currentTransition := Some \<lparr>pt_fromStepId = Some stepId, pt_onStatus = None,
        pt_toStepId = None\<rparr>\<rparr>)"

definition jobOn :: "string \<Rightarrow> ('w, 'i) jobBuilder \<Rightarrow> exn + ('w, 'i) jobBuilder" where
  "jobOn status b = (case jb_currentTransition b of
      None \<Rightarrow> Inl (plainError ''Transition must start with .from(stepId)'')
    | Some t \<Rightarrow>
        (if truthyString (pt_fromStepId t)
         then Inr (b\<lparr>jb_currentTransition := Some (t\<lparr>pt_onStatus := Some status\<rparr>)\<rparr>)
         else Inl (plainError ''Transition must start with .from(stepId)'')))"

definition jobTo :: "string \<Rightarrow> ('w, 'i) jobBuilder \<Rightarrow> exn + ('w, 'i) jobBuilder" where
  "jobTo stepId b = (case jb_currentTransition b of
      None \<Rightarrow> Inl (plainError ''Use .from(stepId) before .to(stepId)'')
    | Some t \<Rightarrow> Inr (commitTransition
        (b\<lparr>jb_currentTransition := Some (t\<lparr>pt_toStepId := Some (Some stepId)\<rparr>)\<rparr>)))"

definition jobEnd :: "('w, 'i) jobBuilder \<Rightarrow> exn + ('w, 'i) jobBuilder" where
  "jobEnd b = (case jb_currentTransition b of
      None \<Rightarrow> Inl (plainError ''Use .from(stepId) before .end()'')
    | Some t \<Rightarrow> Inr (commitTransition
        (b\<lparr>jb_currentTransition := Some (t\<lparr>pt_toStepId := Some None\<rparr>)\<rparr>)))"

definition addDecider :: "string \<Rightarrow> (deciderContext \<Rightarrow> ('w, string) M) \<Rightarrow> ('w, 'i) jobBuilder \<Rightarrow>
    ('w, 'i) jobBuilder" where
  "addDecider after decideFn b =
     b\<lparr>jb_deciders := jb_deciders b @ [\<lparr>afterStepId = after, decide = decideFn\<rparr>]\<rparr>"

definition useFlow :: "'w reusableFlowDefinition \<Rightarrow> ('w, 'i) jobBuilder \<Rightarrow> ('w, 'i) jobBuilder" where
  "useFlow flow b =
     (let b' = b\<lparr>jb_transitions := jb_transitions b @ rf_transitions flow\<rparr>
      in (case rf_deciders flow of
          None \<Rightarrow> b'
        | Some ds \<Rightarrow> b'\<lparr>jb_deciders := jb_deciders b' @ ds\<rparr>))"

definition addListener :: "('w, 'i) listenerDefinition \<Rightarrow> ('w, 'i) jobBuilder \<Rightarrow> ('w, 'i) jobBuilder" where
  "addListener l b = b\<lparr>jb_listeners := jb_listeners b @ [l]\<rparr>"

text \<open>The plain configuration (\<open>JobBuilderConfig\<close>).\<close>

record ('w, 'i) jobBuilderConfig =
  bc_id :: string
  bc_restartable :: bool
  bc_allowDuplicateInstances :: bool
  bc_steps :: "('w, 'i) stepDefinition list"
  bc_startStepId :: string
  bc_transitions :: "transitionDefinition list"
  bc_deciders :: "'w deciderDefinition list option"
  bc_listeners :: "('w, 'i) listenerDefinition list"

definition buildJob :: "('w, 'i) jobBuilder \<Rightarrow> exn + ('w, 'i) jobBuilderConfig" where
  "buildJob b0 =
     (let b = commitTransition b0
      in (if jb_stepOrder b = []
          then Inl (plainError (''JobBuilder: job '' @ inQuotes (jb_id b) @ '' has no steps''))
          else Inr \<lparr>bc_id = jb_id b, bc_restartable = jb_restartable b,
            bc_allowDuplicateInstances = jb_allowDuplicateInstances b,
            bc_steps = map (\<lambda>i. the (mapGet (jb_steps b) i)) (jb_stepOrder b),
            bc_startStepId = hd (jb_stepOrder b), bc_transitions = jb_transitions b,
            bc_deciders = Some (jb_deciders b), bc_listeners = jb_listeners b\<rparr>))"

datatype ('w, 'i) jobCall =
    CallRestartable bool
  | CallAllowDuplicates bool
  | CallAddStep "('w, 'i) stepArgument"
  | CallFrom string
  | CallOn string
  | CallTo string
  | CallEnd
  | CallAddDecider string "deciderContext \<Rightarrow> ('w, string) M"
  | CallUseFlow "'w reusableFlowDefinition"
  | CallAddListener "('w, 'i) listenerDefinition"

fun jobStep :: "('w, 'i) jobCall \<Rightarrow> ('w, 'i) jobBuilder \<Rightarrow> exn + ('w, 'i) jobBuilder" where
  "jobStep (CallRestartable v) b = Inr (setRestartable v b)"
| "jobStep (CallAllowDuplicates v) b = Inr (setAllowDuplicateInstances v b)"
| "jobStep (CallAddStep s) b = addStep s b"
| "jobStep (CallFrom s) b = Inr (jobFrom s b)"
| "jobStep (CallOn s) b = jobOn s b"
| "jobStep (CallTo s) b = jobTo s b"
| "jobStep CallEnd b = jobEnd b"
| "jobStep (CallAddDecider s d) b = Inr (addDecider s d b)"
| "jobStep (CallUseFlow f) b = Inr (useFlow f b)"
| "jobStep (CallAddListener l) b = Inr (addListener l b)"

text \<open>A whole chain: \<open>JobBuilder.create(id)\<close>, the calls, and \<open>.build()\<close>.\<close>

definition buildChain :: "string \<Rightarrow> ('w, 'i) jobCall list \<Rightarrow> exn + ('w, 'i) jobBuilderConfig" where
  "buildChain i calls = (case foldE jobStep calls (batchJob i) of
      Inl e \<Rightarrow> Inl e
    | Inr b \<Rightarrow> buildJob b)"

section \<open>What a chain keeps\<close>

text \<open>
  The steps are stored under their own ids, the order lists only stored ids and starts with
  the first, every committed transition has a non-empty source when it came from the chain,
  and a pending transition has no target: \<open>to\<close> and \<open>end\<close> commit at once.
\<close>

definition storedById :: "(string, ('w, 'i) stepDefinition) jsmap \<Rightarrow> bool" where
  "storedById steps \<longleftrightarrow> (\<forall>(k, s) \<in> set steps. stepIdOf s = k)"

definition storedSteps :: "(string, ('w, 'i) stepDefinition) jsmap \<Rightarrow> string list \<Rightarrow> bool" where
  "storedSteps steps order \<longleftrightarrow> wfMap steps \<and> storedById steps
     \<and> set order = set (mapKeys steps)"

definition jobInv :: "('w, 'i) jobBuilder \<Rightarrow> bool" where
  "jobInv b \<longleftrightarrow> storedSteps (jb_steps b) (jb_stepOrder b)
     \<and> (\<forall>t. jb_currentTransition b = Some t \<longrightarrow> pt_toStepId t = None)"

lemmas job_defs = setRestartable_def setAllowDuplicateInstances_def addStep_def jobFrom_def
  jobOn_def jobTo_def jobEnd_def addDecider_def useFlow_def addListener_def

lemma commitTransition_pending [simp]: "jb_currentTransition (commitTransition b) = None"
  by (simp add: commitTransition_def Let_def split: option.splits)

lemma commitTransition_other [simp]:
  "jb_steps (commitTransition b) = jb_steps b" "jb_stepOrder (commitTransition b) = jb_stepOrder b"
  "jb_id (commitTransition b) = jb_id b" "jb_restartable (commitTransition b) = jb_restartable b"
  "jb_allowDuplicateInstances (commitTransition b) = jb_allowDuplicateInstances b"
  "jb_deciders (commitTransition b) = jb_deciders b" "jb_listeners (commitTransition b) = jb_listeners b"
  by (simp_all add: commitTransition_def Let_def split: option.splits)

lemma storedById_mapSet [simp]: "storedById m \<Longrightarrow> storedById (mapSet (stepIdOf s) s m)"
proof -
  have "x \<in> set (mapSet (stepIdOf s) s m) \<Longrightarrow> x = (stepIdOf s, s) \<or> x \<in> set m" for x
    by (induction m) (auto split: if_splits)
  then show "storedById m \<Longrightarrow> ?thesis" by (fastforce simp: storedById_def)
qed

lemma storedById_Nil [simp]: "storedById []"
  by (simp add: storedById_def)

lemma keys_mapSet: "fst ` set (mapSet k v m) = insert k (fst ` set m)"
  by (induction m) auto

lemma storedSteps_add:
  "storedSteps m order \<Longrightarrow> storedSteps (mapSet (stepIdOf s) s m) (order @ [stepIdOf s])"
  by (simp add: storedSteps_def keys_mapSet)

lemma jobInv_new [simp]: "jobInv (createJob i)"
  by (simp add: jobInv_def createJob_def storedSteps_def)

lemma jobInv_step: "jobStep c b = Inr b' \<Longrightarrow> jobInv b \<Longrightarrow> jobInv b'"
proof (cases c)
  case (CallAddStep s)
  assume a: "jobStep c b = Inr b'" "jobInv b"
  with CallAddStep obtain s0 where "b' = b\<lparr>jb_steps := mapSet (stepIdOf s0) s0 (jb_steps b),
      jb_stepOrder := jb_stepOrder b @ [stepIdOf s0]\<rparr>"
    by (auto simp: addStep_def split: sum.splits)
  with a(2) show ?thesis by (simp add: jobInv_def storedSteps_add)
qed (auto simp: jobInv_def job_defs Let_def split: option.splits if_splits)

lemma jobInv_run: "foldE jobStep cs b = Inr b' \<Longrightarrow> jobInv b \<Longrightarrow> jobInv b'"
  by (induction cs arbitrary: b) (auto split: sum.splits dest: jobInv_step)

lemma foldE_append:
  "foldE f (xs @ ys) s = (case foldE f xs s of Inl e \<Rightarrow> Inl e | Inr t \<Rightarrow> foldE f ys t)"
  by (induction xs arbitrary: s) (auto split: sum.splits)

text \<open>A pending transition is worth nothing: as no target is pending, committing it drops it.\<close>

lemma pending_dropped:
  "jobInv b \<Longrightarrow> commitTransition b = b\<lparr>jb_currentTransition := None\<rparr>"
  by (auto simp: jobInv_def commitTransition_def Let_def split: option.splits)

lemma jobFrom_inv:
  "jobInv b \<Longrightarrow> jobFrom a b = b\<lparr>jb_currentTransition := Some \<lparr>pt_fromStepId = Some a,
     pt_onStatus = None, pt_toStepId = None\<rparr>\<rparr>"
  by (auto simp: jobInv_def jobFrom_def Let_def split: option.splits)

text \<open>The calls that declare one transition, in the order of the fluent style.\<close>

definition transitionCalls :: "transitionDefinition \<Rightarrow> ('w, 'i) jobCall list" where
  "transitionCalls t = [CallFrom (fromStepId t), CallOn (onStatus t),
     (case toStepId t of None \<Rightarrow> CallEnd | Some s \<Rightarrow> CallTo s)]"

lemma run_transitionCalls:
  assumes "jobInv b" "fromStepId t \<noteq> []"
  shows "foldE jobStep (transitionCalls t) b
    = Inr (b\<lparr>jb_transitions := jb_transitions b @ [t], jb_currentTransition := None\<rparr>)"
  using assms
  by (cases "toStepId t")
    (simp_all add: transitionCalls_def jobFrom_inv jobOn_def jobTo_def jobEnd_def commitTransition_def
      Let_def)

lemma run_all_transitionCalls:
  assumes "jobInv b" "jb_currentTransition b = None" "\<forall>t \<in> set ts. fromStepId t \<noteq> []"
  shows "foldE jobStep (concat (map transitionCalls ts)) b = Inr (b\<lparr>jb_transitions := jb_transitions b @ ts\<rparr>)"
  using assms
proof (induction ts arbitrary: b)
  case (Cons t ts)
  let ?b = "b\<lparr>jb_transitions := jb_transitions b @ [t], jb_currentTransition := None\<rparr>"
  from Cons.prems(1) have "jobInv ?b" by (simp add: jobInv_def)
  with Cons.IH [of ?b] Cons.prems show ?case
    by (simp add: foldE_append run_transitionCalls)
qed simp

lemma run_addSteps:
  "foldE jobStep (map (\<lambda>s. CallAddStep (StepLiteral s)) ss) b
    = Inr (b\<lparr>jb_steps := foldl (\<lambda>m s. mapSet (stepIdOf s) s m) (jb_steps b) ss,
        jb_stepOrder := jb_stepOrder b @ map stepIdOf ss\<rparr>)"
  by (induction ss arbitrary: b) (simp_all add: addStep_def)

lemma run_addDeciders:
  "foldE jobStep (map (\<lambda>d. CallAddDecider (afterStepId d) (decide d)) ds) b
    = Inr (b\<lparr>jb_deciders := jb_deciders b @ ds\<rparr>)"
  by (induction ds arbitrary: b) (simp_all add: addDecider_def)

lemma run_addListeners:
  "foldE jobStep (map CallAddListener ls) b = Inr (b\<lparr>jb_listeners := jb_listeners b @ ls\<rparr>)"
  by (induction ls arbitrary: b) (simp_all add: addListener_def)

end
