(* ===== verification/ScheduleRegistry.thy ===== *)
theory ScheduleRegistry
  imports CoreTypes
begin

text \<open>
  \<open>@BatchScheduled\<close> (\<open>packages/core/src/scheduling/batch-scheduled.ts\<close>): the shape check of
  the cron expression, the time zone check, the metadata record; and the registry the
  explorer fills (\<open>module/batch-schedule-registry.ts\<close>).

  The regular expression is a matcher that consumes the expression from the left; its
  character classes are disjoint, so taking each run whole loses no match. Whether a time
  zone exists is the platform's answer and a parameter.
\<close>

section \<open>Options and metadata\<close>

datatype batchOverlapPolicy = OverlapSkip | OverlapQueue | OverlapParallel

record batchScheduledOptions =
  so_name :: string
  so_timezone :: string
  so_overlap :: "batchOverlapPolicy option"
  so_startAt :: "date option"
  so_endAt :: "date option"

record batchScheduledMetadata =
  sm_cron :: string
  sm_options :: batchScheduledOptions
  sm_inert :: bool

section \<open>The cron shape\<close>

text \<open>One field, \<open>\S+\<close>, and one field with the white space after it, \<open>\S+\s+\<close>.\<close>

definition matchField :: "string \<Rightarrow> string option" where
  "matchField s = (if takeWhile (\<lambda>c. \<not> isJsSpace c) s = [] then None
     else Some (dropWhile (\<lambda>c. \<not> isJsSpace c) s))"

definition matchFieldSpace :: "string \<Rightarrow> string option" where
  "matchFieldSpace s = (case matchField s of
      None \<Rightarrow> None
    | Some r \<Rightarrow> (if takeWhile isJsSpace r = [] then None else Some (dropWhile isJsSpace r)))"

primrec matchRepeated :: "nat \<Rightarrow> string \<Rightarrow> string option" where
  "matchRepeated 0 s = Some s"
| "matchRepeated (Suc n) s = (case matchFieldSpace s of None \<Rightarrow> None | Some r \<Rightarrow> matchRepeated n r)"

text \<open>\<open>CRON_SHAPE\<close>: \<open>n\<close> fields with white space, a last field, the end.\<close>

definition cronShapeOf :: "nat \<Rightarrow> string \<Rightarrow> bool" where
  "cronShapeOf n s = (case matchRepeated n s of
      None \<Rightarrow> False
    | Some r \<Rightarrow> matchField r = Some [])"

definition cronShape :: "string \<Rightarrow> bool" where
  "cronShape s \<longleftrightarrow> cronShapeOf 5 s \<or> cronShapeOf 4 s"

text \<open>\<open>s.split(/\s+/)\<close>: the pieces between the runs of white space, empty ones included.\<close>

function splitSpaces :: "string \<Rightarrow> string list" where
  "splitSpaces s =
     (let field = takeWhile (\<lambda>c. \<not> isJsSpace c) s; r = dropWhile (\<lambda>c. \<not> isJsSpace c) s
      in if r = [] then [field] else field # splitSpaces (dropWhile isJsSpace r))"
  by pat_completeness auto
termination
proof (relation "measure length", simp, goal_cases)
  case (1 s)
  then obtain c r where r: "dropWhile (\<lambda>c. \<not> isJsSpace c) s = c # r"
    by (cases "dropWhile (\<lambda>c. \<not> isJsSpace c) s") auto
  then have "isJsSpace c" by (metis dropWhile_eq_Cons_conv)
  with r have "length (dropWhile isJsSpace (dropWhile (\<lambda>c. \<not> isJsSpace c) s)) \<le> length r"
    by (simp add: length_dropWhile_le)
  also have "\<dots> < length s"
    using length_dropWhile_le [of "\<lambda>c. \<not> isJsSpace c" s] r by simp
  finally show ?case using 1 by simp
qed

declare splitSpaces.simps [simp del]

definition CRON_MIN_FIELDS :: nat where "CRON_MIN_FIELDS = 5"
definition CRON_MAX_FIELDS :: nat where "CRON_MAX_FIELDS = 6"

definition invalidCronError :: "string \<Rightarrow> string \<Rightarrow> exn" where
  "invalidCronError cron reason = ErrorObj [''InvalidBatchScheduledCronError'', ''Error''] []
     (''[BatchScheduled] invalid cron expression '' @ inQuotes cron @ '': '' @ reason @ ''. ''
       @ ''Expected 5 (Linux crontab) or 6 (extended cron) whitespace-separated fields.'')"

definition invalidTimezoneError :: "string \<Rightarrow> string \<Rightarrow> exn" where
  "invalidTimezoneError tz reason = ErrorObj [''InvalidBatchScheduledTimezoneError'', ''Error''] []
     (''[BatchScheduled] invalid timezone '' @ inQuotes tz @ '': '' @ reason @ ''. ''
       @ ''Expected a valid IANA zone identifier (e.g. '' @ inQuotes ''UTC'' @ '', ''
       @ inQuotes ''Asia/Seoul'' @ '', '' @ inQuotes ''America/New_York'' @ '').'')"

definition cronReason :: "nat \<Rightarrow> string" where
  "cronReason fieldCount =
     (if fieldCount < CRON_MIN_FIELDS then ''fewer than 5 fields''
      else if fieldCount > CRON_MAX_FIELDS then ''more than 6 fields''
      else ''not a valid cron expression'')"

definition assertValidCron :: "string \<Rightarrow> exn + unit" where
  "assertValidCron cron =
     (if cron = [] then Inl (invalidCronError cron ''empty'')
      else if \<not> cronShape (trimString cron)
      then Inl (invalidCronError cron (cronReason (length (splitSpaces (trimString cron)))))
      else Inr ())"

definition assertValidTimezone :: "(string \<Rightarrow> bool) \<Rightarrow> string \<Rightarrow> exn + unit" where
  "assertValidTimezone isValidIanaTimezone tz =
     (if trimString tz = [] then Inl (invalidTimezoneError tz ''empty'')
      else if \<not> isValidIanaTimezone tz
      then Inl (invalidTimezoneError tz ''not a valid IANA timezone'')
      else Inr ())"

text \<open>\<open>disabled\<close> is the test of \<open>process.env.BATCH_SCHEDULED_DISABLE\<close> at decoration time.\<close>

definition batchScheduled :: "(string \<Rightarrow> bool) \<Rightarrow> bool \<Rightarrow> string \<Rightarrow> batchScheduledOptions \<Rightarrow>
    exn + batchScheduledMetadata" where
  "batchScheduled isValidIanaTimezone disabled cron options =
     (case thenCheck (assertValidCron cron) (assertValidTimezone isValidIanaTimezone (so_timezone options)) of
        Inl e \<Rightarrow> Inl e
      | Inr _ \<Rightarrow> Inr \<lparr>sm_cron = cron, sm_options = options, sm_inert = disabled\<rparr>)"

section \<open>What the shape check accepts\<close>

text \<open>A string with no white space at either end, as \<open>trim\<close> leaves it.\<close>

definition trimmed :: "string \<Rightarrow> bool" where
  "trimmed s \<longleftrightarrow> s = [] \<or> (\<not> isJsSpace (hd s) \<and> \<not> isJsSpace (last s))"

lemma hd_dropWhile_not: "dropWhile P s \<noteq> [] \<Longrightarrow> \<not> P (hd (dropWhile P s))"
  by (rule hd_dropWhile)

lemma trimmed_trimString: "trimmed (trimString s)"
proof -
  let ?d = "dropWhile isJsSpace s"
  let ?t = "rev (dropWhile isJsSpace (rev ?d))"
  have "\<not> isJsSpace (last ?t)" if "?t \<noteq> []"
    using that hd_dropWhile_not [of isJsSpace "rev ?d"] by (simp add: last_rev)
  moreover have "\<not> isJsSpace (hd ?t)" if "?t \<noteq> []"
  proof -
    have "rev ?d = takeWhile isJsSpace (rev ?d) @ dropWhile isJsSpace (rev ?d)" by simp
    then obtain zs where "?d = ?t @ zs" by (metis rev_append rev_rev_ident)
    with that have "hd ?t = hd ?d" "?d \<noteq> []" by (metis hd_append2, metis append_is_Nil_conv)
    with hd_dropWhile_not [of isJsSpace s] show ?thesis by simp
  qed
  ultimately show ?thesis by (auto simp: trimmed_def trimString_def)
qed

lemma trimmed_step:
  assumes "trimmed s" "dropWhile (\<lambda>c. \<not> isJsSpace c) s = c # r"
  shows "isJsSpace c" "dropWhile isJsSpace (c # r) \<noteq> []" "trimmed (dropWhile isJsSpace (c # r))"
proof -
  let ?t = "dropWhile isJsSpace (c # r)"
  have s: "s = takeWhile (\<lambda>c. \<not> isJsSpace c) s @ takeWhile isJsSpace (c # r) @ ?t"
    using assms(2) by (metis takeWhile_dropWhile_id)
  show c: "isJsSpace c" using assms(2) by (metis dropWhile_eq_Cons_conv)
  have last: "\<not> isJsSpace (last s)" using assms by (auto simp: trimmed_def)
  show ne: "?t \<noteq> []"
  proof
    assume "?t = []"
    then have "\<forall>x \<in> set (c # r). isJsSpace x" by (simp only: dropWhile_eq_Nil_conv)
    moreover have "last s = last (c # r)"
      using assms(2) by (metis last_appendR list.discI takeWhile_dropWhile_id)
    ultimately show False using last by (metis last_in_set list.discI)
  qed
  have "last ?t = last s" using s ne by (metis last_appendR append_is_Nil_conv)
  with last ne hd_dropWhile_not [of isJsSpace "c # r"] show "trimmed ?t"
    by (simp add: trimmed_def)
qed

lemma splitSpaces_nonempty: "splitSpaces s \<noteq> []"
  by (subst splitSpaces.simps) (simp add: Let_def)

lemma cronShapeOf_iff: "trimmed s \<Longrightarrow> s \<noteq> [] \<Longrightarrow> cronShapeOf n s \<longleftrightarrow> length (splitSpaces s) = Suc n"
proof (induction n arbitrary: s)
  case (0 s)
  then have f: "takeWhile (\<lambda>c. \<not> isJsSpace c) s \<noteq> []" by (cases s) (auto simp: trimmed_def)
  then show ?case
    by (subst splitSpaces.simps)
      (simp add: cronShapeOf_def matchField_def Let_def splitSpaces_nonempty)
next
  case (Suc n s)
  then have f: "takeWhile (\<lambda>c. \<not> isJsSpace c) s \<noteq> []" by (cases s) (auto simp: trimmed_def)
  show ?case
  proof (cases "dropWhile (\<lambda>c. \<not> isJsSpace c) s")
    case Nil
    with f have "matchFieldSpace s = None" by (simp only: matchFieldSpace_def matchField_def) simp
    with Nil show ?thesis
      by (subst splitSpaces.simps) (simp only: cronShapeOf_def Let_def, simp)
  next
    case (Cons c r)
    note t = trimmed_step [OF Suc.prems(1) Cons]
    from f Cons t(1) have m: "matchFieldSpace s = Some (dropWhile isJsSpace (c # r))"
      by (simp add: matchFieldSpace_def matchField_def)
    have "cronShapeOf (Suc n) s \<longleftrightarrow> cronShapeOf n (dropWhile isJsSpace (c # r))"
      by (simp add: cronShapeOf_def m del: dropWhile.simps)
    also have "\<dots> \<longleftrightarrow> length (splitSpaces (dropWhile isJsSpace (c # r))) = Suc n"
      by (rule Suc.IH [OF t(3) t(2)])
    finally show ?thesis
      by (subst splitSpaces.simps) (simp add: Let_def Cons del: dropWhile.simps)
  qed
qed

lemma cronShape_iff: "trimmed s \<Longrightarrow> cronShape s \<longleftrightarrow> length (splitSpaces s) \<in> {5, 6}"
proof (cases "s = []")
  case True
  have "\<not> cronShape s" using True
    by (simp add: cronShape_def cronShapeOf_def eval_nat_numeral matchFieldSpace_def matchField_def)
  with True show ?thesis by (simp add: splitSpaces.simps)
qed (auto simp: cronShape_def cronShapeOf_iff)

lemma assertValidCron_iff:
  "assertValidCron cron = Inr () \<longleftrightarrow> cron \<noteq> [] \<and> length (splitSpaces (trimString cron)) \<in> {5, 6}"
  using cronShape_iff [OF trimmed_trimString [of cron]] by (simp add: assertValidCron_def)

section \<open>The registry (module/batch-schedule-registry.ts)\<close>

record batchScheduleEntry =
  be_jobId :: string
  be_scheduleName :: string
  be_methodName :: string
  be_cron :: string
  be_timezone :: string
  be_overlap :: "batchOverlapPolicy option"
  be_startAt :: "date option"
  be_endAt :: "date option"
  be_inert :: bool

type_synonym scheduleRegistry = "(string, batchScheduleEntry) jsmap"

definition registryKey :: "string \<Rightarrow> string \<Rightarrow> string" where
  "registryKey jobId scheduleName = jobId @ CHR 0x00 # scheduleName"

definition duplicateScheduleError :: "string \<Rightarrow> string \<Rightarrow> exn" where
  "duplicateScheduleError jobId scheduleName = ErrorObj [''DuplicateBatchScheduleError'', ''Error''] []
     (''Duplicate @BatchScheduled entry for jobId='' @ inQuotes jobId @ '', name='' @ inQuotes scheduleName
       @ ''. A schedule name can only be registered once per jobId. ''
       @ ''If you want two schedules for the same job, give them distinct names.'')"

definition registerSchedule :: "batchScheduleEntry \<Rightarrow> scheduleRegistry \<Rightarrow> exn + scheduleRegistry" where
  "registerSchedule entry entries =
     (let key = registryKey (be_jobId entry) (be_scheduleName entry)
      in if mapGet entries key \<noteq> None
         then Inl (duplicateScheduleError (be_jobId entry) (be_scheduleName entry))
         else Inr (mapSet key entry entries))"

definition scheduleGet :: "scheduleRegistry \<Rightarrow> string \<Rightarrow> string \<Rightarrow> batchScheduleEntry option" where
  "scheduleGet entries jobId scheduleName = mapGet entries (registryKey jobId scheduleName)"

definition scheduleHas :: "scheduleRegistry \<Rightarrow> string \<Rightarrow> string \<Rightarrow> bool" where
  "scheduleHas entries jobId scheduleName \<longleftrightarrow> mapGet entries (registryKey jobId scheduleName) \<noteq> None"

definition scheduleGetAll :: "scheduleRegistry \<Rightarrow> batchScheduleEntry list" where
  "scheduleGetAll entries = mapValues entries"

definition scheduleSize :: "scheduleRegistry \<Rightarrow> nat" where
  "scheduleSize entries = length entries"

definition scheduleClear :: "scheduleRegistry \<Rightarrow> scheduleRegistry" where
  "scheduleClear entries = []"

text \<open>Registering appends: the registry is the list of its entries under their keys.\<close>

definition keyedEntries :: "batchScheduleEntry list \<Rightarrow> scheduleRegistry" where
  "keyedEntries es = map (\<lambda>e. (registryKey (be_jobId e) (be_scheduleName e), e)) es"

lemma registerSchedule_Inr:
  "registerSchedule e r = Inr r' \<Longrightarrow> r' = r @ keyedEntries [e]
     \<and> mapGet r (registryKey (be_jobId e) (be_scheduleName e)) = None"
  by (auto simp: registerSchedule_def Let_def keyedEntries_def mapSet_fresh split: if_splits)

lemma registerAll_Inr:
  "foldE registerSchedule es r = Inr r' \<Longrightarrow> r' = r @ keyedEntries es"
  by (induction es arbitrary: r)
    (fastforce simp: keyedEntries_def split: sum.splits dest!: registerSchedule_Inr)+

lemma registerAll_wf: "foldE registerSchedule es r = Inr r' \<Longrightarrow> wfMap r \<Longrightarrow> wfMap r'"
  by (induction es arbitrary: r)
    (auto simp: registerSchedule_def Let_def split: sum.splits if_splits)

text \<open>A key determines the pair it was made of as long as no job id holds a NUL.\<close>

lemma registryKey_inject:
  assumes "CHR 0x00 \<notin> set a" "CHR 0x00 \<notin> set b"
  shows "registryKey a x = registryKey b y \<longleftrightarrow> a = b \<and> x = y"
  using assms by (auto simp: registryKey_def append_eq_append_conv2 append_eq_Cons_conv Cons_eq_append_conv)

end
