(* ===== verification/Discovery.thy ===== *)
theory Discovery
  imports ScheduleRegistry
begin

text \<open>
  The decorators (\<open>packages/core/src/decorators\<close>) and the explorer that reads what they left
  (\<open>explorer/batch-explorer.ts\<close>).

  A decorator writes one metadata entry on the method (or class) it decorates; the record
  \<open>methodMetadata\<close> holds the entry of each key, absent until written. A class is its
  constructor's name, its job metadata and its prototype chain, the class's own prototype
  first and \<open>Object.prototype\<close> left out: each prototype lists its own property names in
  order, with the metadata of the method, or \<open>None\<close> for a property that is not a function.
  The container hands the explorer a class with the instance it built, if it has one; a
  method of the instance is kept as the function it is in each role it can be bound to.
\<close>

section \<open>Metadata (decorators)\<close>

record jobableOptions =
  jo_id :: string
  jo_restartable :: "bool option"
  jo_allowDuplicateInstances :: "bool option"

record stepableOptions =
  stp_id :: string
  stp_chunkSize :: "int option"
  stp_skipPolicy :: "skipPolicyConfig option"
  stp_retryPolicy :: "retryPolicyConfig option"
  stp_partitions :: "chunkPartitionConfig option"

record listenerOptions =
  lo_kind :: listenerKind
  lo_phase :: listenerPhase
  lo_skipKind :: "skipSubKind option"
  lo_nonCritical :: "bool option"

record onTransitionOptions =
  ot_fromStep :: string
  ot_onStatus :: string
  ot_toStep :: "string option"

record methodMetadata =
  md_step :: "stepableOptions option"
  md_tasklet :: bool
  md_itemReader :: "bool option"
  md_itemProcessor :: bool
  md_itemWriter :: bool
  md_listener :: "listenerOptions option"
  md_transition :: "onTransitionOptions option"
  md_scheduled :: "batchScheduledMetadata option"

definition noMetadata :: methodMetadata where
  "noMetadata = \<lparr>md_step = None, md_tasklet = False, md_itemReader = None, md_itemProcessor = False,
     md_itemWriter = False, md_listener = None, md_transition = None, md_scheduled = None\<rparr>"

definition stepable :: "stepableOptions \<Rightarrow> methodMetadata \<Rightarrow> methodMetadata" where
  "stepable options m = m\<lparr>md_step := Some options\<rparr>"

definition taskletDecorator :: "methodMetadata \<Rightarrow> methodMetadata" where
  "taskletDecorator m = m\<lparr>md_tasklet := True\<rparr>"

text \<open>\<open>@ItemReader\<close> records whether the option \<open>factory\<close> was exactly \<open>true\<close>.\<close>

definition itemReaderDecorator :: "bool option \<Rightarrow> methodMetadata \<Rightarrow> methodMetadata" where
  "itemReaderDecorator factory m = m\<lparr>md_itemReader := Some (factory = Some True)\<rparr>"

definition itemProcessorDecorator :: "methodMetadata \<Rightarrow> methodMetadata" where
  "itemProcessorDecorator m = m\<lparr>md_itemProcessor := True\<rparr>"

definition itemWriterDecorator :: "methodMetadata \<Rightarrow> methodMetadata" where
  "itemWriterDecorator m = m\<lparr>md_itemWriter := True\<rparr>"

definition listenerDecorator :: "listenerOptions \<Rightarrow> methodMetadata \<Rightarrow> methodMetadata" where
  "listenerDecorator options m = m\<lparr>md_listener := Some options\<rparr>"

definition phaseListener :: "listenerKind \<Rightarrow> listenerPhase \<Rightarrow> methodMetadata \<Rightarrow> methodMetadata" where
  "phaseListener kind phase = listenerDecorator \<lparr>lo_kind = kind, lo_phase = phase, lo_skipKind = None,
     lo_nonCritical = None\<rparr>"

definition skipListener :: "skipSubKind \<Rightarrow> methodMetadata \<Rightarrow> methodMetadata" where
  "skipListener k = listenerDecorator \<lparr>lo_kind = KSkip, lo_phase = PAfter, lo_skipKind = Some k,
     lo_nonCritical = None\<rparr>"

definition beforeJob :: "methodMetadata \<Rightarrow> methodMetadata" where
  "beforeJob = phaseListener KJob PBefore"

definition afterJob :: "methodMetadata \<Rightarrow> methodMetadata" where
  "afterJob = phaseListener KJob PAfter"

definition beforeStep :: "methodMetadata \<Rightarrow> methodMetadata" where
  "beforeStep = phaseListener KStep PBefore"

definition afterStep :: "methodMetadata \<Rightarrow> methodMetadata" where
  "afterStep = phaseListener KStep PAfter"

definition beforeChunk :: "methodMetadata \<Rightarrow> methodMetadata" where
  "beforeChunk = phaseListener KChunk PBefore"

definition afterChunk :: "methodMetadata \<Rightarrow> methodMetadata" where
  "afterChunk = phaseListener KChunk PAfter"

definition onChunkError :: "methodMetadata \<Rightarrow> methodMetadata" where
  "onChunkError = phaseListener KChunk POnError"

definition beforeRead :: "methodMetadata \<Rightarrow> methodMetadata" where
  "beforeRead = phaseListener KItemRead PBefore"

definition afterRead :: "methodMetadata \<Rightarrow> methodMetadata" where
  "afterRead = phaseListener KItemRead PAfter"

definition onReadError :: "methodMetadata \<Rightarrow> methodMetadata" where
  "onReadError = phaseListener KItemRead POnError"

definition beforeProcess :: "methodMetadata \<Rightarrow> methodMetadata" where
  "beforeProcess = phaseListener KItemProcess PBefore"

definition afterProcess :: "methodMetadata \<Rightarrow> methodMetadata" where
  "afterProcess = phaseListener KItemProcess PAfter"

definition onProcessError :: "methodMetadata \<Rightarrow> methodMetadata" where
  "onProcessError = phaseListener KItemProcess POnError"

definition beforeWrite :: "methodMetadata \<Rightarrow> methodMetadata" where
  "beforeWrite = phaseListener KItemWrite PBefore"

definition afterWrite :: "methodMetadata \<Rightarrow> methodMetadata" where
  "afterWrite = phaseListener KItemWrite PAfter"

definition onWriteError :: "methodMetadata \<Rightarrow> methodMetadata" where
  "onWriteError = phaseListener KItemWrite POnError"

definition onSkipRead :: "methodMetadata \<Rightarrow> methodMetadata" where
  "onSkipRead = skipListener SkipRead"

definition onSkipProcess :: "methodMetadata \<Rightarrow> methodMetadata" where
  "onSkipProcess = skipListener SkipProcess"

definition onSkipWrite :: "methodMetadata \<Rightarrow> methodMetadata" where
  "onSkipWrite = skipListener SkipWrite"


definition onTransition :: "onTransitionOptions \<Rightarrow> methodMetadata \<Rightarrow> methodMetadata" where
  "onTransition options m = m\<lparr>md_transition := Some options\<rparr>"

definition scheduledDecorator :: "(string \<Rightarrow> bool) \<Rightarrow> bool \<Rightarrow> string \<Rightarrow> batchScheduledOptions \<Rightarrow>
    methodMetadata \<Rightarrow> exn + methodMetadata" where
  "scheduledDecorator isValidIanaTimezone disabled cron options m =
     (case batchScheduled isValidIanaTimezone disabled cron options of
        Inl e \<Rightarrow> Inl e
      | Inr meta \<Rightarrow> Inr (m\<lparr>md_scheduled := Some meta\<rparr>))"

section \<open>Classes and what is discovered (batch-explorer.ts)\<close>

type_synonym prototypeObject = "(string \<times> methodMetadata option) list"

record jobClass =
  cl_name :: string
  cl_job :: "jobableOptions option"
  cl_prototypes :: "prototypeObject list"

definition jobable :: "jobableOptions \<Rightarrow> jobClass \<Rightarrow> jobClass" where
  "jobable options c = c\<lparr>cl_job := Some options\<rparr>"

text \<open>A bound method, as the function it is in each role.\<close>

record ('w, 'i) jsMethod =
  mt_tasklet :: "('w, taskletContext, string option, 'w tasklet) jsFunction"
  mt_reader :: "('w, itemExecutionContext, 'i option, ('w, 'i) itemReader) jsFunction"
  mt_processor :: "('w, 'i \<times> itemExecutionContext, 'i option, ('w, 'i) itemProcessor) jsFunction"
  mt_writer :: "('w, 'i list \<times> itemExecutionContext, writerResult option, ('w, 'i) itemWriter) jsFunction"
  mt_listener :: "('w, 'i) listenerFn"

type_synonym ('w, 'i) jsInstance = "string \<Rightarrow> ('w, 'i) jsMethod option"

record ('w, 'i) providerLike =
  pv_metatype :: "jobClass option"
  pv_instance :: "('w, 'i) jsInstance option"

record discoveredStep =
  di_stepMethod :: string
  di_stepOptions :: stepableOptions
  di_isTasklet :: bool

datatype discoveredItemKind = ItemReaderKind | ItemProcessorKind | ItemWriterKind

record discoveredItemMethod =
  di_itemMethod :: string
  di_itemKind :: discoveredItemKind
  di_factory :: bool

record discoveredListener =
  di_listenerMethod :: string
  di_kind :: listenerKind
  di_phase :: listenerPhase
  di_skipKind :: "skipSubKind option"
  di_nonCritical :: "bool option"

record discoveredTransition =
  di_transitionMethod :: string
  di_fromStep :: string
  di_onStatus :: string
  di_toStep :: "string option"

record ('w, 'i) discoveredJob =
  dj_classRef :: jobClass
  dj_instance :: "('w, 'i) jsInstance option"
  dj_jobOptions :: jobableOptions
  dj_stepMethods :: "discoveredStep list"
  dj_itemMethods :: "discoveredItemMethod list"
  dj_listenerMethods :: "discoveredListener list"
  dj_transitionMethods :: "discoveredTransition list"

section \<open>The prototype walker\<close>

text \<open>A \<open>Set\<close> keeps the first insertion of a name.\<close>

fun addName :: "string list \<Rightarrow> string \<Rightarrow> string list" where
  "addName names n = (if n = ''constructor'' \<or> n \<in> set names then names else names @ [n])"

definition allMethodNames :: "prototypeObject list \<Rightarrow> string list" where
  "allMethodNames protos = foldl (\<lambda>names proto. foldl addName names (map fst proto)) [] protos"

text \<open>Reading a property walks the chain to the first prototype that owns it.\<close>

fun getMethodHandler :: "prototypeObject list \<Rightarrow> string \<Rightarrow> methodMetadata option" where
  "getMethodHandler [] n = None"
| "getMethodHandler (proto # protos) n =
     (case map_of proto n of Some v \<Rightarrow> v | None \<Rightarrow> getMethodHandler protos n)"

section \<open>The collectors\<close>

definition collectMethods :: "(string \<Rightarrow> methodMetadata \<Rightarrow> 'a list) \<Rightarrow> prototypeObject list \<Rightarrow> 'a list" where
  "collectMethods f protos = concat (map (\<lambda>n. case getMethodHandler protos n of
      None \<Rightarrow> []
    | Some md \<Rightarrow> f n md) (allMethodNames protos))"

definition collectStepMethods :: "prototypeObject list \<Rightarrow> discoveredStep list" where
  "collectStepMethods = collectMethods (\<lambda>n md. case md_step md of
      None \<Rightarrow> []
    | Some opts \<Rightarrow> [\<lparr>di_stepMethod = n, di_stepOptions = opts, di_isTasklet = md_tasklet md\<rparr>])"

definition collectItemMethods :: "prototypeObject list \<Rightarrow> discoveredItemMethod list" where
  "collectItemMethods = collectMethods (\<lambda>n md.
      (case md_itemReader md of
         None \<Rightarrow> []
       | Some factory \<Rightarrow> [\<lparr>di_itemMethod = n, di_itemKind = ItemReaderKind, di_factory = factory\<rparr>])
      @ (if md_itemProcessor md
         then [\<lparr>di_itemMethod = n, di_itemKind = ItemProcessorKind, di_factory = False\<rparr>] else [])
      @ (if md_itemWriter md
         then [\<lparr>di_itemMethod = n, di_itemKind = ItemWriterKind, di_factory = False\<rparr>] else []))"

definition collectListenerMethods :: "prototypeObject list \<Rightarrow> discoveredListener list" where
  "collectListenerMethods = collectMethods (\<lambda>n md. case md_listener md of
      None \<Rightarrow> []
    | Some opts \<Rightarrow> [\<lparr>di_listenerMethod = n, di_kind = lo_kind opts, di_phase = lo_phase opts,
        di_skipKind = lo_skipKind opts, di_nonCritical = lo_nonCritical opts\<rparr>])"

definition collectTransitionMethods :: "prototypeObject list \<Rightarrow> discoveredTransition list" where
  "collectTransitionMethods = collectMethods (\<lambda>n md. case md_transition md of
      None \<Rightarrow> []
    | Some opts \<Rightarrow> [\<lparr>di_transitionMethod = n, di_fromStep = ot_fromStep opts,
        di_onStatus = ot_onStatus opts, di_toStep = ot_toStep opts\<rparr>])"

fun discoverProvider :: "('w, 'i) providerLike \<Rightarrow> ('w, 'i) discoveredJob list" where
  "discoverProvider wrapper = (case pv_metatype wrapper of
      None \<Rightarrow> []
    | Some metatype \<Rightarrow> (case cl_job metatype of
        None \<Rightarrow> []
      | Some options \<Rightarrow> [\<lparr>dj_classRef = metatype, dj_instance = pv_instance wrapper,
          dj_jobOptions = options,
          dj_stepMethods = collectStepMethods (cl_prototypes metatype),
          dj_itemMethods = collectItemMethods (cl_prototypes metatype),
          dj_listenerMethods = collectListenerMethods (cl_prototypes metatype),
          dj_transitionMethods = collectTransitionMethods (cl_prototypes metatype)\<rparr>]))"

declare discoverProvider.simps [simp del]

definition discoverFromProviders :: "('w, 'i) providerLike list \<Rightarrow> ('w, 'i) discoveredJob list" where
  "discoverFromProviders providers = concat (map discoverProvider providers)"

section \<open>Registering the schedules\<close>

definition scheduleEntry :: "string \<Rightarrow> string \<Rightarrow> batchScheduledMetadata \<Rightarrow> batchScheduleEntry" where
  "scheduleEntry jobId n meta = \<lparr>be_jobId = jobId, be_scheduleName = so_name (sm_options meta),
     be_methodName = n, be_cron = sm_cron meta, be_timezone = so_timezone (sm_options meta),
     be_overlap = so_overlap (sm_options meta), be_startAt = so_startAt (sm_options meta),
     be_endAt = so_endAt (sm_options meta), be_inert = sm_inert meta\<rparr>"

definition schedulesOf :: "('w, 'i) discoveredJob \<Rightarrow> batchScheduleEntry list" where
  "schedulesOf d = collectMethods (\<lambda>n md. case md_scheduled md of
      None \<Rightarrow> []
    | Some meta \<Rightarrow> [scheduleEntry (jo_id (dj_jobOptions d)) n meta]) (cl_prototypes (dj_classRef d))"

definition registerSchedules :: "('w, 'i) discoveredJob list \<Rightarrow> scheduleRegistry \<Rightarrow>
    exn + scheduleRegistry" where
  "registerSchedules discovered registry =
     foldE registerSchedule (concat (map schedulesOf discovered)) registry"

text \<open>\<open>onModuleInit\<close>: the discovered jobs, and the schedules in the shared registry.\<close>

definition explorerInit :: "('w, 'i) providerLike list \<Rightarrow> scheduleRegistry \<Rightarrow>
    exn + ('w, 'i) discoveredJob list \<times> scheduleRegistry" where
  "explorerInit providers registry =
     (case registerSchedules (discoverFromProviders providers) registry of
        Inl e \<Rightarrow> Inl e
      | Inr r \<Rightarrow> Inr (discoverFromProviders providers, r))"

section \<open>Facts\<close>

lemma set_addNames: "set (foldl addName names ns) = set names \<union> (set ns - {''constructor''})"
  by (induction ns arbitrary: names) auto

lemma distinct_addNames: "distinct names \<Longrightarrow> distinct (foldl addName names ns)"
  by (induction ns arbitrary: names) auto

lemma allMethodNames_names:
  "set (allMethodNames protos) = (\<Union>p \<in> set protos. fst ` set p) - {''constructor''}"
  "distinct (allMethodNames protos)"
proof -
  have "set (foldl (\<lambda>names proto. foldl addName names (map fst proto)) ns protos)
      = set ns \<union> ((\<Union>p \<in> set protos. fst ` set p) - {''constructor''})" for ns
    by (induction protos arbitrary: ns) (auto simp: set_addNames)
  then show "set (allMethodNames protos) = (\<Union>p \<in> set protos. fst ` set p) - {''constructor''}"
    by (simp add: allMethodNames_def)
  have "distinct (foldl (\<lambda>names proto. foldl addName names (map fst proto)) ns protos)"
    if "distinct ns" for ns
    using that by (induction protos arbitrary: ns) (simp_all add: distinct_addNames)
  then show "distinct (allMethodNames protos)" by (simp add: allMethodNames_def)
qed

text \<open>An overridden method is seen once, as the subclass left it.\<close>

lemma collectMethods_iff:
  "x \<in> set (collectMethods f protos) \<longleftrightarrow>
     (\<exists>n md. n \<noteq> ''constructor'' \<and> getMethodHandler protos n = Some md \<and> x \<in> set (f n md))"
proof -
  have "\<exists>p \<in> set protos. n \<in> fst ` set p" if "getMethodHandler protos n = Some md" for n md
    using that
  proof (induction protos)
    case (Cons p ps)
    then show ?case by (cases "map_of p n") (auto dest: map_of_SomeD intro: image_eqI [rotated])
  qed simp
  then have names: "n \<in> set (allMethodNames protos) \<longleftrightarrow> n \<noteq> ''constructor''"
    if "getMethodHandler protos n = Some md" for n md
    using that by (auto simp: allMethodNames_names)
  have "x \<in> set (collectMethods f protos) \<longleftrightarrow> (\<exists>n \<in> set (allMethodNames protos).
      x \<in> set (case getMethodHandler protos n of None \<Rightarrow> [] | Some md \<Rightarrow> f n md))"
    by (simp add: collectMethods_def)
  also have "\<dots> \<longleftrightarrow> (\<exists>n md. n \<in> set (allMethodNames protos) \<and> getMethodHandler protos n = Some md
      \<and> x \<in> set (f n md))"
  proof -
    have "x \<in> set (case getMethodHandler protos n of None \<Rightarrow> [] | Some md \<Rightarrow> f n md) \<longleftrightarrow>
        (\<exists>md. getMethodHandler protos n = Some md \<and> x \<in> set (f n md))" for n
      by (cases "getMethodHandler protos n") simp_all
    then show ?thesis by auto
  qed
  also have "\<dots> \<longleftrightarrow> (\<exists>n md. n \<noteq> ''constructor'' \<and> getMethodHandler protos n = Some md \<and> x \<in> set (f n md))"
    using names by metis
  finally show ?thesis .
qed

lemma schedulesOf_job: "e \<in> set (schedulesOf d) \<Longrightarrow> be_jobId e = jo_id (dj_jobOptions d)"
  by (auto simp: schedulesOf_def collectMethods_iff scheduleEntry_def split: option.splits)

lemma explorerInit_Inr:
  assumes "explorerInit providers [] = Inr (ds, r)"
  shows "ds = discoverFromProviders providers" "r = keyedEntries (concat (map schedulesOf ds))"
    "wfMap r"
  using assms registerAll_Inr [of "concat (map schedulesOf ds)" "[]" r]
    registerAll_wf [of "concat (map schedulesOf ds)" "[]" r]
  by (auto simp: explorerInit_def registerSchedules_def split: sum.splits)

lemma explorerInit_schedule_job:
  assumes "explorerInit providers [] = Inr (ds, r)" "e \<in> set (scheduleGetAll r)"
  shows "\<exists>d \<in> set ds. be_jobId e = jo_id (dj_jobOptions d)"
proof -
  have "e \<in> set (concat (map schedulesOf ds))"
    using assms(2) explorerInit_Inr(2) [OF assms(1)] by (auto simp: scheduleGetAll_def keyedEntries_def)
  then show ?thesis using schedulesOf_job by fastforce
qed

end
