(* ===== verification/Compiler.thy ===== *)
theory Compiler
  imports Builders Discovery
begin

text \<open>
  \<open>DefinitionCompiler\<close> (\<open>packages/core/src/compiler/definition-compiler.ts\<close>), which turns a
  discovered class or a builder configuration into a validated job definition, and
  \<open>BatchBootstrapper\<close> (\<open>module/nest-batch.module.ts\<close>), which compiles and registers every
  discovered job when the application starts.

  The lemmas compare the two paths: a decorated class compiles to the job that the builder
  calls it stands for compile to.
\<close>

section \<open>References (definition-compiler.ts)\<close>

definition providerNotFoundError :: "string \<Rightarrow> exn" where
  "providerNotFoundError token =
     batchError ''ProviderNotFoundError'' ''PROVIDER_NOT_FOUND'' (''Provider not found: '' @ token)"

definition instanceMethod :: "('w, 'i) discoveredJob \<Rightarrow> string \<Rightarrow> ('w, 'i) jsMethod option" where
  "instanceMethod d n = (case dj_instance d of None \<Rightarrow> None | Some inst \<Rightarrow> inst n)"

text \<open>
  A ref to a method: a lambda that yields the bound method when the class has an instance
  with it, a method ref otherwise. \<open>role\<close> picks the function of the role.
\<close>

definition methodRef :: "(('w, 'i) jsMethod \<Rightarrow> ('w, 'a, 'r, 'o) jsFunction) \<Rightarrow> ('w, 'i) discoveredJob \<Rightarrow>
    string \<Rightarrow> string \<Rightarrow> ('w, 'a, 'r, 'o) ref" where
  "methodRef role d classToken n = (case instanceMethod d n of
      Some m \<Rightarrow> \<lparr>ref_kind = BuilderLambda, ref_token = None,
        ref_fn = Some (\<lambda>_. returnM (functionValue (role m))),
        ref_classToken = None, ref_methodName = None, ref_factory = False\<rparr>
    | None \<Rightarrow> \<lparr>ref_kind = MethodRef, ref_token = None, ref_fn = None,
        ref_classToken = Some classToken, ref_methodName = Some n, ref_factory = False\<rparr>)"

definition buildListenerRef :: "('w, 'i) discoveredJob \<Rightarrow> string \<Rightarrow> string \<Rightarrow> ('w, 'i) listenerRef" where
  "buildListenerRef d classToken n = (case instanceMethod d n of
      Some m \<Rightarrow> \<lparr>lr_kind = BuilderLambda, lr_token = None, lr_fn = Some (mt_listener m),
        lr_classToken = None, lr_methodName = None\<rparr>
    | None \<Rightarrow> \<lparr>lr_kind = MethodRef, lr_token = None, lr_fn = None,
        lr_classToken = Some classToken, lr_methodName = Some n\<rparr>)"

definition buildTaskletStep :: "('w, 'i) discoveredJob \<Rightarrow> string \<Rightarrow> discoveredStep \<Rightarrow>
    'w taskletStepDefinition" where
  "buildTaskletStep d classToken step = \<lparr>ts_id = stp_id (di_stepOptions step),
     ts_tasklet = methodRef mt_tasklet d classToken (di_stepMethod step)\<rparr>"

definition buildReaderMethodRef :: "('w, 'i) discoveredJob \<Rightarrow> string \<Rightarrow> discoveredItemMethod \<Rightarrow>
    ('w, 'i) readerRef" where
  "buildReaderMethodRef d classToken mt =
     (let r = methodRef mt_reader d classToken (di_itemMethod mt)
      in if di_factory mt then r\<lparr>ref_factory := True\<rparr> else r)"

definition findItemMethod :: "('w, 'i) discoveredJob \<Rightarrow> discoveredItemKind \<Rightarrow> discoveredItemMethod option" where
  "findItemMethod d kind = find (\<lambda>m. di_itemKind m = kind) (dj_itemMethods d)"

section \<open>Steps\<close>

definition missingHandler :: "string \<Rightarrow> ('w, 'i) discoveredJob \<Rightarrow> discoveredStep \<Rightarrow> exn" where
  "missingHandler decorator d step = providerNotFoundError
     (decorator @ '' for job '' @ jo_id (dj_jobOptions d) @ '' (step '' @ stp_id (di_stepOptions step) @ '')'')"

definition buildChunkStep :: "('w, 'i) discoveredJob \<Rightarrow> string \<Rightarrow> discoveredStep \<Rightarrow>
    exn + ('w, 'i) chunkStepDefinition" where
  "buildChunkStep d classToken step =
     (let options = di_stepOptions step in
      case findItemMethod d ItemReaderKind of
        None \<Rightarrow> Inl (missingHandler ''@ItemReader'' d step)
      | Some reader \<Rightarrow> (case findItemMethod d ItemWriterKind of
          None \<Rightarrow> Inl (missingHandler ''@ItemWriter'' d step)
        | Some writer \<Rightarrow> (case validatePartitions (stp_partitions options) of
            Inl err \<Rightarrow> Inl (invalidFlowGraphError ''INVALID_PARTITIONS''
              (''Step '' @ inQuotes (stp_id options) @ '' has invalid partitions: '' @ errorText err))
          | Inr _ \<Rightarrow> Inr \<lparr>cs_id = stp_id options, cs_chunkSize = orKeep (stp_chunkSize options) 100,
              cs_reader = buildReaderMethodRef d classToken reader,
              cs_processor = map_option (\<lambda>m. methodRef mt_processor d classToken (di_itemMethod m))
                (findItemMethod d ItemProcessorKind),
              cs_writer = methodRef mt_writer d classToken (di_itemMethod writer),
              cs_skipPolicy = stp_skipPolicy options, cs_retryPolicy = stp_retryPolicy options,
              cs_partitions = stp_partitions options\<rparr>)))"

definition compileStep :: "('w, 'i) discoveredJob \<Rightarrow> discoveredStep \<Rightarrow> exn + ('w, 'i) stepDefinition" where
  "compileStep d step =
     (let classToken = cl_name (dj_classRef d) in
      if di_isTasklet step then Inr (TaskletStep (buildTaskletStep d classToken step))
      else (case buildChunkStep d classToken step of Inl e \<Rightarrow> Inl e | Inr c \<Rightarrow> Inr (ChunkStep c)))"

section \<open>Jobs\<close>

text \<open>\<open>FlowExecutionStatus[t.onStatus] ?? UNKNOWN\<close>: the keys of the enum are its values.\<close>

definition compiledStatus :: "string \<Rightarrow> string" where
  "compiledStatus s = (if s \<in> {''COMPLETED'', ''FAILED'', ''STOPPED'', ''UNKNOWN''} then s
     else flowStatusText FlowUnknown)"

definition compileTransition :: "discoveredTransition \<Rightarrow> transitionDefinition" where
  "compileTransition t = \<lparr>fromStepId = di_fromStep t, onStatus = compiledStatus (di_onStatus t),
     toStepId = di_toStep t\<rparr>"

definition compileListener :: "('w, 'i) discoveredJob \<Rightarrow> discoveredListener \<Rightarrow> ('w, 'i) listenerDefinition" where
  "compileListener d l = \<lparr>ld_kind = di_kind l, ld_phase = di_phase l,
     ld_ref = buildListenerRef d (cl_name (dj_classRef d)) (di_listenerMethod l),
     ld_skipKind = di_skipKind l, ld_nonCritical = di_nonCritical l\<rparr>"

definition validated :: "('w, 'i) jobDefinition \<Rightarrow> exn + ('w, 'i) jobDefinition" where
  "validated job = (case validate job of Inl e \<Rightarrow> Inl e | Inr _ \<Rightarrow> Inr job)"

definition compileFromDiscovered :: "('w, 'i) discoveredJob \<Rightarrow> exn + ('w, 'i) jobDefinition" where
  "compileFromDiscovered d =
     (case foldE (\<lambda>step steps. case compileStep d step of
            Inl e \<Rightarrow> Inl e
          | Inr s \<Rightarrow> Inr (mapSet (stp_id (di_stepOptions step)) s steps)) (dj_stepMethods d) [] of
        Inl e \<Rightarrow> Inl e
      | Inr steps \<Rightarrow> validated \<lparr>job_id = jo_id (dj_jobOptions d), job_steps = steps,
          job_startStepId = (case dj_stepMethods d of [] \<Rightarrow> [] | step # _ \<Rightarrow> stp_id (di_stepOptions step)),
          job_transitions = map compileTransition (dj_transitionMethods d),
          job_deciders = [],
          job_listeners = map (compileListener d) (dj_listenerMethods d),
          job_restartable = orKeep (jo_restartable (dj_jobOptions d)) False,
          job_allowDuplicateInstances = orKeep (jo_allowDuplicateInstances (dj_jobOptions d)) False\<rparr>)"

definition compileFromBuilderConfig :: "('w, 'i) jobBuilderConfig \<Rightarrow> exn + ('w, 'i) jobDefinition" where
  "compileFromBuilderConfig config = validated \<lparr>job_id = bc_id config,
     job_steps = foldl (\<lambda>steps s. mapSet (stepIdOf s) s steps) [] (bc_steps config),
     job_startStepId = bc_startStepId config, job_transitions = bc_transitions config,
     job_deciders = orKeep (bc_deciders config) [], job_listeners = bc_listeners config,
     job_restartable = bc_restartable config,
     job_allowDuplicateInstances = bc_allowDuplicateInstances config\<rparr>"

section \<open>Bootstrap (module/nest-batch.module.ts)\<close>

definition bootstrapJob :: "('w, 'i) discoveredJob \<Rightarrow> ('w, 'i) jobRegistry \<Rightarrow> exn + ('w, 'i) jobRegistry" where
  "bootstrapJob d registry = (case compileFromDiscovered d of
      Inl e \<Rightarrow> Inl e
    | Inr def \<Rightarrow> register def registry)"

definition bootstrapJobs :: "('w, 'i) discoveredJob list \<Rightarrow> ('w, 'i) jobRegistry \<Rightarrow>
    exn + ('w, 'i) jobRegistry" where
  "bootstrapJobs discovered registry = foldE bootstrapJob discovered registry"

text \<open>The start of the application: the explorer's module hook, then the bootstrap hook.\<close>

definition startApplication :: "('w, 'i) providerLike list \<Rightarrow>
    exn + scheduleRegistry \<times> ('w, 'i) jobRegistry" where
  "startApplication providers = (case explorerInit providers [] of
      Inl e \<Rightarrow> Inl e
    | Inr (discovered, schedules) \<Rightarrow> (case bootstrapJobs discovered [] of
        Inl e \<Rightarrow> Inl e
      | Inr registry \<Rightarrow> Inr (schedules, registry)))"

section \<open>Well-typed jobs\<close>

text \<open>What the executors rely on: each step is stored once, under its own id, in a valid graph.\<close>

definition wellTypedJob :: "('w, 'i) jobDefinition \<Rightarrow> bool" where
  "wellTypedJob job \<longleftrightarrow> wfMap (job_steps job) \<and> storedById (job_steps job)
     \<and> validate job = Inr ()"

lemma validated_Inr [simp]: "validated job = Inr job' \<longleftrightarrow> job' = job \<and> validate job = Inr ()"
  by (auto simp: validated_def split: sum.splits)

lemma foldl_mapSet_wf: "wfMap m \<Longrightarrow> wfMap (foldl (\<lambda>m s. mapSet (f s) (g s) m) m xs)"
  by (induction xs arbitrary: m) simp_all

lemma foldl_mapSet_stored:
  "storedById m \<Longrightarrow> storedById (foldl (\<lambda>m s. mapSet (stepIdOf s) s m) m xs)"
  by (induction xs arbitrary: m) simp_all

lemma compileStep_id: "compileStep d step = Inr s \<Longrightarrow> stepIdOf s = stp_id (di_stepOptions step)"
  by (auto simp: compileStep_def buildTaskletStep_def buildChunkStep_def Let_def
      split: if_splits sum.splits option.splits)

text \<open>The step loop: compile every step in turn, then store the compiled steps.\<close>

lemma compileSteps_iff:
  "foldE (\<lambda>step steps. case compileStep d step of
        Inl e \<Rightarrow> Inl e
      | Inr s \<Rightarrow> Inr (mapSet (stp_id (di_stepOptions step)) s steps)) ms m
    = (case traverseE (compileStep d) ms of
        Inl e \<Rightarrow> Inl e
      | Inr ss \<Rightarrow> Inr (foldl (\<lambda>m s. mapSet (stepIdOf s) s m) m ss))"
  by (induction ms arbitrary: m) (auto simp: compileStep_id split: sum.splits)

lemma compileFromDiscovered_typed: "compileFromDiscovered d = Inr job \<Longrightarrow> wellTypedJob job"
  by (auto simp: compileFromDiscovered_def compileSteps_iff wellTypedJob_def foldl_mapSet_wf foldl_mapSet_stored
      split: sum.splits)

lemma compileFromBuilderConfig_typed: "compileFromBuilderConfig c = Inr job \<Longrightarrow> wellTypedJob job"
  by (auto simp: compileFromBuilderConfig_def wellTypedJob_def foldl_mapSet_wf foldl_mapSet_stored)

lemma compileFromDiscovered_id:
  "compileFromDiscovered d = Inr job \<Longrightarrow> job_id job = jo_id (dj_jobOptions d)"
  by (auto simp: compileFromDiscovered_def split: sum.splits)

lemma bootstrapJob_Inr:
  "bootstrapJob d r = Inr r' \<longleftrightarrow>
    (\<exists>job. compileFromDiscovered d = Inr job \<and> register job r = Inr r')"
  by (auto simp: bootstrapJob_def split: sum.splits)

lemma bootstrapJobs_registry:
  assumes "bootstrapJobs ds r = Inr r'" "registryReachable r"
    "\<forall>job \<in> set (mapValues r). wellTypedJob job"
  shows "registryReachable r' \<and> (\<forall>job \<in> set (mapValues r'). wellTypedJob job)
    \<and> mapKeys r' = mapKeys r @ map (\<lambda>d. jo_id (dj_jobOptions d)) ds"
  using assms unfolding bootstrapJobs_def
proof (induction ds arbitrary: r)
  case (Cons d ds)
  obtain r1 where step: "bootstrapJob d r = Inr r1" and rest: "foldE bootstrapJob ds r1 = Inr r'"
    using Cons.prems(1) unfolding foldE_Cons_Inr by blast
  obtain job where job: "compileFromDiscovered d = Inr job" "register job r = Inr r1"
    using step unfolding bootstrapJob_Inr by blast
  from job(2) have r1: "r1 = r @ [(job_id job, job)]" by (simp add: register_Inr_iff mapSet_fresh)
  have reach: "registryReachable r1" using Cons.prems(2) job(2) by (rule registry_add)
  have typed: "\<forall>job \<in> set (mapValues r1). wellTypedJob job"
    using Cons.prems(3) compileFromDiscovered_typed [OF job(1)] by (simp add: r1)
  have keys: "mapKeys r1 = mapKeys r @ [jo_id (dj_jobOptions d)]"
    by (simp add: r1 compileFromDiscovered_id [OF job(1)])
  from Cons.IH [OF rest reach typed] show ?case by (simp add: keys)
qed simp

section \<open>The builder calls a job stands for\<close>

fun stepCalls :: "('w, 'i) stepDefinition \<Rightarrow> ('w, 'i) stepCall list" where
  "stepCalls (TaskletStep t) = [StepCallTasklet (ts_id t) (ts_tasklet t)]"
| "stepCalls (ChunkStep c) = [StepCallChunk (cs_id c) (Fin (of_int (cs_chunkSize c)))
     (Some \<lparr>cc_reader = cs_reader c, cc_processor = cs_processor c, cc_writer = cs_writer c,
       cc_skipPolicy = cs_skipPolicy c, cc_retryPolicy = cs_retryPolicy c\<rparr>)]"

definition stepsCalls :: "(string, ('w, 'i) stepDefinition) jsmap \<Rightarrow> ('w, 'i) jobCall list" where
  "stepsCalls steps = map (\<lambda>(k, s). CallAddStep (StepCallback (foldE stepStep (stepCalls s)))) steps"

definition jobCalls :: "('w, 'i) jobDefinition \<Rightarrow> ('w, 'i) jobCall list" where
  "jobCalls job = [CallRestartable (job_restartable job), CallAllowDuplicates (job_allowDuplicateInstances job)]
     @ stepsCalls (job_steps job)
     @ concat (map transitionCalls (job_transitions job))
     @ map (\<lambda>d. CallAddDecider (afterStepId d) (decide d)) (job_deciders job)
     @ map CallAddListener (job_listeners job)"

definition compileChain :: "string \<Rightarrow> ('w, 'i) jobCall list \<Rightarrow> exn + ('w, 'i) jobDefinition" where
  "compileChain i calls = (case buildChain i calls of
      Inl e \<Rightarrow> Inl e
    | Inr config \<Rightarrow> compileFromBuilderConfig config)"

text \<open>What the step builder cannot say: an empty id, a partition configuration.\<close>

definition plainStep :: "('w, 'i) stepDefinition \<Rightarrow> bool" where
  "plainStep s \<longleftrightarrow> stepIdOf s \<noteq> [] \<and> (\<forall>c. s = ChunkStep c \<longrightarrow> cs_partitions c = None)"

lemma stepCalls_build:
  assumes "validateStep (k, s) = Inr ()" "plainStep s"
  shows "stepOfArgument (StepCallback (foldE stepStep (stepCalls s))) = Inr s"
proof (cases s)
  case (ChunkStep c)
  with assms have n: "0 < cs_chunkSize c" "cs_partitions c = None" "cs_id c \<noteq> []"
    by (simp_all add: validateStep_iff plainStep_def)
  then have "\<not> numLessEq (Fin (rat_of_int (cs_chunkSize c))) (Fin 0)" by simp
  with n ChunkStep show ?thesis
    by (simp add: stepChunk_def stepBuild_def newStepBuilder_def)
next
  case (TaskletStep t)
  with assms show ?thesis
    by (simp add: stepTasklet_def stepBuild_def newStepBuilder_def plainStep_def)
qed

lemma run_stepsCalls:
  assumes "\<forall>(k, s) \<in> set steps. validateStep (k, s) = Inr () \<and> plainStep s"
  shows "foldE jobStep (stepsCalls steps) b
    = foldE jobStep (map (\<lambda>s. CallAddStep (StepLiteral s)) (map snd steps)) b"
  using assms
proof (induction steps arbitrary: b)
  case (Cons x steps)
  obtain k s where x: "x = (k, s)" by (cases x)
  with Cons.prems have "stepOfArgument (StepCallback (foldE stepStep (stepCalls s))) = Inr s"
    by (intro stepCalls_build) auto
  then have step: "jobStep (CallAddStep (StepCallback (foldE stepStep (stepCalls s)))) b
      = jobStep (CallAddStep (StepLiteral s)) b" for b
    by (simp only: jobStep.simps addStep_def stepOfArgument.simps(1))
  from Cons.prems have "\<forall>(k, s) \<in> set steps. validateStep (k, s) = Inr () \<and> plainStep s" by simp
  note IH = Cons.IH [OF this]
  show ?case
    by (simp only: stepsCalls_def x list.map prod.case foldE.simps step snd_conv)
      (cases "jobStep (CallAddStep (StepLiteral s)) b"; simp add: stepsCalls_def [symmetric] IH)
qed (simp add: stepsCalls_def)

lemma foldl_mapSet_self:
  "wfMap (m0 @ steps) \<Longrightarrow> storedById steps \<Longrightarrow>
   foldl (\<lambda>m s. mapSet (stepIdOf s) s m) m0 (map snd steps) = m0 @ steps"
proof (induction steps arbitrary: m0)
  case (Cons x steps)
  obtain k s where x: "x = (k, s)" by (cases x)
  with Cons.prems have "stepIdOf s = k" "mapGet m0 k = None"
    by (auto simp: storedById_def wfMap_def map_of_eq_None_iff)
  then have "mapSet (stepIdOf s) s m0 = m0 @ [(k, s)]" by (simp add: mapSet_fresh)
  with Cons.IH [of "m0 @ [(k, s)]"] Cons.prems show ?case by (simp add: x storedById_def)
qed simp

lemma map_stepIdOf: "storedById steps \<Longrightarrow> map stepIdOf (map snd steps) = mapKeys steps"
  by (induction steps) (auto simp: storedById_def)

lemma map_lookup: "wfMap steps \<Longrightarrow> map (\<lambda>i. the (mapGet steps i)) (mapKeys steps) = map snd steps"
proof -
  assume wf: "wfMap steps"
  have "the (mapGet steps (fst p)) = snd p" if "p \<in> set steps" for p
  proof -
    from that have "(fst p, snd p) \<in> set steps" by simp
    with wf have "mapGet steps (fst p) = Some (snd p)" unfolding wfMap_def by (rule map_of_is_SomeI)
    then show ?thesis by simp
  qed
  then show ?thesis by simp
qed

text \<open>The builder can express every valid job whose start step is its first.\<close>

lemma builder_expresses:
  fixes job :: "('w, 'i) jobDefinition"
  assumes typed: "wellTypedJob job" and first: "job_startStepId job = fst (hd (job_steps job))"
    and plain: "\<forall>s \<in> set (mapValues (job_steps job)). plainStep s"
  shows "compileChain (job_id job) (jobCalls job) = Inr job"
proof -
  let ?steps = "job_steps job"
  have v: "validate job = Inr ()" and wf: "wfMap ?steps" and st: "storedById ?steps"
    using typed by (simp_all add: wellTypedJob_def)
  from v have ne: "?steps \<noteq> []" and steps: "\<forall>p \<in> set ?steps. validateStep p = Inr ()"
    and ends: "\<forall>t \<in> set (job_transitions job). hasStep ?steps (fromStepId t)"
    by (auto simp: validate_def validateTransitionEnds_iff)
  have ids: "\<forall>(k, s) \<in> set ?steps. k \<noteq> []"
    using st plain by (force simp: storedById_def plainStep_def)
  have froms: "\<forall>t \<in> set (job_transitions job). fromStepId t \<noteq> []"
    using ends ids by (fastforce simp: hasStep_def dest: map_of_SomeD)
  have ok: "\<forall>(k, s) \<in> set ?steps. validateStep (k, s) = Inr () \<and> plainStep s"
    using steps plain by force
  define b where "b = (createJob (job_id job) :: ('w, 'i) jobBuilder)
     \<lparr>jb_restartable := job_restartable job, jb_allowDuplicateInstances := job_allowDuplicateInstances job,
      jb_steps := ?steps, jb_stepOrder := mapKeys ?steps\<rparr>"
  have self: "foldl (\<lambda>m s. mapSet (stepIdOf s) s m) [] (map snd ?steps) = ?steps"
    using foldl_mapSet_self [of "[]" ?steps] wf st by simp
  have start: "foldE jobStep [CallRestartable (job_restartable job),
      CallAllowDuplicates (job_allowDuplicateInstances job)] (createJob (job_id job) :: ('w, 'i) jobBuilder)
    = Inr (createJob (job_id job)\<lparr>jb_restartable := job_restartable job,
        jb_allowDuplicateInstances := job_allowDuplicateInstances job\<rparr>)"
    by (simp add: setRestartable_def setAllowDuplicateInstances_def)
  have addSteps: "foldE jobStep (stepsCalls ?steps) (createJob (job_id job)\<lparr>jb_restartable := job_restartable job,
        jb_allowDuplicateInstances := job_allowDuplicateInstances job\<rparr>) = Inr b"
    unfolding run_stepsCalls [OF ok] run_addSteps b_def map_stepIdOf [OF st]
    by (simp add: createJob_def self)
  have "jobInv b" using wf st by (simp add: b_def jobInv_def storedSteps_def createJob_def)
  then have flow: "foldE jobStep (concat (map transitionCalls (job_transitions job))) b
      = Inr (b\<lparr>jb_transitions := job_transitions job\<rparr>)"
    by (subst run_all_transitionCalls) (simp_all add: froms b_def createJob_def)
  have "foldE jobStep (jobCalls job) (createJob (job_id job))
      = Inr (b\<lparr>jb_transitions := job_transitions job, jb_deciders := job_deciders job,
          jb_listeners := job_listeners job\<rparr>)"
    unfolding jobCalls_def foldE_append start addSteps flow run_addDeciders run_addListeners sum.case
    by (simp add: b_def createJob_def run_addDeciders run_addListeners)
  then have "buildChain (job_id job) (jobCalls job) = Inr \<lparr>bc_id = job_id job,
      bc_restartable = job_restartable job, bc_allowDuplicateInstances = job_allowDuplicateInstances job,
      bc_steps = map snd ?steps, bc_startStepId = hd (mapKeys ?steps), bc_transitions = job_transitions job,
      bc_deciders = Some (job_deciders job), bc_listeners = job_listeners job\<rparr>"
    using ne map_lookup [OF wf]
    by (simp add: buildChain_def batchJob_def buildJob_def Let_def commitTransition_def b_def createJob_def)
  moreover have "hd (mapKeys ?steps) = job_startStepId job" using ne first by (simp add: hd_map)
  ultimately have "compileChain (job_id job) (jobCalls job) = validated \<lparr>job_id = job_id job,
      job_steps = ?steps, job_startStepId = job_startStepId job,
      job_transitions = job_transitions job, job_deciders = job_deciders job,
      job_listeners = job_listeners job, job_restartable = job_restartable job,
      job_allowDuplicateInstances = job_allowDuplicateInstances job\<rparr>"
    by (simp only: compileChain_def compileFromBuilderConfig_def self sum.case jobBuilderConfig.simps
        orKeep_simps)
  also have "\<dots> = validated job" by (rule arg_cong [where f = validated]) (cases job, simp)
  finally show ?thesis using v by (simp add: validated_def)
qed

lemma traverse_ids:
  "traverseE (compileStep d) ms = Inr ss \<Longrightarrow> map stepIdOf ss = map (\<lambda>m. stp_id (di_stepOptions m)) ms"
  by (induction ms arbitrary: ss) (auto simp: compileStep_id split: sum.splits)

lemma hd_foldl_mapSet:
  "m \<noteq> [] \<Longrightarrow> fst (hd (foldl (\<lambda>m s. mapSet (f s) (g s) m) m xs)) = fst (hd m)"
proof (induction xs arbitrary: m)
  case (Cons x xs)
  have "mapSet (f x) (g x) m \<noteq> []" "fst (hd (mapSet (f x) (g x) m)) = fst (hd m)"
    using Cons.prems by (cases m; auto)+
  with Cons.IH show ?case by simp
qed simp

lemma compileFromDiscovered_start:
  assumes "compileFromDiscovered d = Inr job"
  shows "job_startStepId job = fst (hd (job_steps job))"
proof -
  from assms obtain ss where ss: "traverseE (compileStep d) (dj_stepMethods d) = Inr ss"
    and job: "job_steps job = foldl (\<lambda>m s. mapSet (stepIdOf s) s m) [] ss"
      "job_startStepId job = (case dj_stepMethods d of [] \<Rightarrow> [] | step # _ \<Rightarrow> stp_id (di_stepOptions step))"
      "validate job = Inr ()"
    by (auto simp: compileFromDiscovered_def compileSteps_iff split: sum.splits)
  from job(3) have ne: "job_steps job \<noteq> []" by (simp add: validate_def)
  with job(1) obtain s ss' where "ss = s # ss'" by (cases ss) auto
  moreover from this traverse_ids [OF ss] obtain m ms where "dj_stepMethods d = m # ms"
      "stepIdOf s = stp_id (di_stepOptions m)"
    by (cases "dj_stepMethods d") auto
  ultimately show ?thesis using job by (simp add: hd_foldl_mapSet)
qed

end
