(* ===== verification/InProcessSchedule.thy ===== *)
theory InProcessSchedule
  imports ScheduleRegistry
begin

text \<open>
  \<open>InProcessSchedule\<close> (\<open>packages/core/src/execution/in-process-schedule.ts\<close>): cron ticks become
  calls of \<open>JobLauncher.launch\<close> under the schedule's overlap policy.

  Each installed schedule has a state object that its \<open>onTick\<close> closure and its \<open>finally\<close>
  handlers share; the objects are kept in a list and referred to by index, as the map
  \<open>states\<close> does. The runtime's side is two more components: \<open>ip_fired\<close>, the calls of
  \<open>launch\<close> made so far, and \<open>ip_inFlight\<close>, the objects whose \<open>launch\<close> promise has not
  settled, one entry per promise. A tick, a settling promise and the shutdown are steps that
  may come in any order. Which expressions the cron library accepts is a parameter.
\<close>

section \<open>State\<close>

record scheduleState =
  ss_entry :: batchScheduleEntry
  ss_timer :: bool
  ss_runningCount :: int
  ss_queued :: bool
  ss_queuedAt :: "date option"

record inProcessSchedule =
  ip_states :: "(string, nat) jsmap"
  ip_stopped :: bool
  ip_objects :: "scheduleState list"
  ip_fired :: "(nat \<times> date) list"
  ip_inFlight :: "nat list"

definition newInProcessSchedule :: inProcessSchedule where
  "newInProcessSchedule = \<lparr>ip_states = [], ip_stopped = True, ip_objects = [], ip_fired = [],
     ip_inFlight = []\<rparr>"

definition scheduleKey :: "batchScheduleEntry \<Rightarrow> string" where
  "scheduleKey entry = be_jobId entry @ ''::'' @ be_scheduleName entry"

definition overlapOf :: "scheduleState \<Rightarrow> batchOverlapPolicy" where
  "overlapOf st = (case be_overlap (ss_entry st) of None \<Rightarrow> OverlapSkip | Some p \<Rightarrow> p)"

section \<open>Operations\<close>

definition installSchedule :: "(string \<Rightarrow> string \<Rightarrow> bool) \<Rightarrow> batchScheduleEntry \<Rightarrow> inProcessSchedule \<Rightarrow>
    inProcessSchedule" where
  "installSchedule cronAccepts entry s =
     (if be_inert entry \<or> \<not> cronAccepts (be_cron entry) (be_timezone entry) then s
      else s\<lparr>ip_objects := ip_objects s @ [\<lparr>ss_entry = entry, ss_timer = True, ss_runningCount = 0,
              ss_queued = False, ss_queuedAt = None\<rparr>],
            ip_states := mapSet (scheduleKey entry) (length (ip_objects s)) (ip_states s)\<rparr>)"

definition scheduleBootstrap :: "(string \<Rightarrow> string \<Rightarrow> bool) \<Rightarrow> scheduleRegistry \<Rightarrow> inProcessSchedule \<Rightarrow>
    inProcessSchedule" where
  "scheduleBootstrap cronAccepts registry s =
     foldl (\<lambda>s e. installSchedule cronAccepts e s) (s\<lparr>ip_stopped := False\<rparr>) (scheduleGetAll registry)"

definition updateObject :: "nat \<Rightarrow> (scheduleState \<Rightarrow> scheduleState) \<Rightarrow> inProcessSchedule \<Rightarrow>
    inProcessSchedule" where
  "updateObject i f s = s\<lparr>ip_objects := (ip_objects s)[i := f (ip_objects s ! i)]\<rparr>"

definition scheduleShutdown :: "inProcessSchedule \<Rightarrow> inProcessSchedule" where
  "scheduleShutdown s =
     (foldl (\<lambda>s i. updateObject i (\<lambda>st. st\<lparr>ss_timer := False\<rparr>) s) (s\<lparr>ip_stopped := True\<rparr>)
        (mapValues (ip_states s)))\<lparr>ip_states := []\<rparr>"

text \<open>\<open>dispatch\<close>; its call of \<open>launch\<close> is logged and its promise is in flight.\<close>

definition dispatch :: "nat \<Rightarrow> date \<Rightarrow> inProcessSchedule \<Rightarrow> inProcessSchedule" where
  "dispatch i scheduledAt s =
     (let st = ip_objects s ! i in
      if ip_stopped s then s
      else if 0 < ss_runningCount st \<and> overlapOf st = OverlapSkip then s
      else if 0 < ss_runningCount st \<and> overlapOf st = OverlapQueue
      then updateObject i (\<lambda>st. st\<lparr>ss_queued := True,
             ss_queuedAt := (case ss_queuedAt st of None \<Rightarrow> Some scheduledAt | Some d \<Rightarrow> Some d)\<rparr>) s
      else (updateObject i (\<lambda>st. st\<lparr>ss_runningCount := ss_runningCount st + 1\<rparr>) s)
             \<lparr>ip_fired := ip_fired s @ [(i, scheduledAt)], ip_inFlight := ip_inFlight s @ [i]\<rparr>)"

text \<open>\<open>onTick\<close>: \<open>lastDate\<close> is the cron job's, \<open>now\<close> the clock.\<close>

definition onTick :: "nat \<Rightarrow> date option \<Rightarrow> date \<Rightarrow> inProcessSchedule \<Rightarrow> inProcessSchedule" where
  "onTick i lastDate now s =
     (if ip_stopped s then s
      else dispatch i (case lastDate of None \<Rightarrow> now | Some d \<Rightarrow> d) s)"

text \<open>The \<open>finally\<close> handler of one launch.\<close>

definition launchSettled :: "nat \<Rightarrow> date \<Rightarrow> inProcessSchedule \<Rightarrow> inProcessSchedule" where
  "launchSettled i now s0 =
     (let s = (updateObject i (\<lambda>st. st\<lparr>ss_runningCount := ss_runningCount st - 1\<rparr>) s0)
            \<lparr>ip_inFlight := remove1 i (ip_inFlight s0)\<rparr>;
          st = ip_objects s ! i
      in if ip_stopped s then s
         else if ss_runningCount st = 0 \<and> ss_queued st
         then dispatch i (case ss_queuedAt st of None \<Rightarrow> now | Some d \<Rightarrow> d)
                (updateObject i (\<lambda>st. st\<lparr>ss_queued := False, ss_queuedAt := None\<rparr>) s)
         else s)"

text \<open>
  The parameters of the launch; \<open>toISOString\<close> renders a date. A launch that fails
  is logged and its promise resolves all the same, so that every launch settles once.
\<close>

definition scheduledParameters :: "(date \<Rightarrow> string) \<Rightarrow> batchScheduleEntry \<Rightarrow> date \<Rightarrow> jobParameters" where
  "scheduledParameters toISOString entry scheduledAt =
     [(''scheduled'', JBool True), (''scheduleName'', JStr (be_scheduleName entry)),
      (''scheduledAt'', JStr (toISOString scheduledAt))]"

section \<open>Runs\<close>

datatype scheduleEvent = Tick nat "date option" date | Settle nat date | Shutdown

fun scheduleEnabled :: "scheduleEvent \<Rightarrow> inProcessSchedule \<Rightarrow> bool" where
  "scheduleEnabled (Tick i _ _) s \<longleftrightarrow> i < length (ip_objects s)"
| "scheduleEnabled (Settle i _) s \<longleftrightarrow> i \<in> set (ip_inFlight s)"
| "scheduleEnabled Shutdown s \<longleftrightarrow> True"

fun scheduleStep :: "scheduleEvent \<Rightarrow> inProcessSchedule \<Rightarrow> inProcessSchedule" where
  "scheduleStep (Tick i d now) s = onTick i d now s"
| "scheduleStep (Settle i now) s = launchSettled i now s"
| "scheduleStep Shutdown s = scheduleShutdown s"

inductive scheduleReachable :: "(string \<Rightarrow> string \<Rightarrow> bool) \<Rightarrow> scheduleRegistry \<Rightarrow> inProcessSchedule \<Rightarrow> bool"
  for cronAccepts registry where
  schedule_start: "scheduleReachable cronAccepts registry
     (scheduleBootstrap cronAccepts registry newInProcessSchedule)"
| schedule_step: "scheduleReachable cronAccepts registry s \<Longrightarrow> scheduleEnabled ev s \<Longrightarrow>
     scheduleReachable cronAccepts registry (scheduleStep ev s)"

section \<open>The invariant\<close>

text \<open>
  The counter of an object is the number of its promises in flight, at most one unless the
  policy is parallel; a tick is queued only under the queue policy, together with its date,
  and only while a launch is in flight (or after the shutdown).
\<close>

definition objectInv :: "bool \<Rightarrow> nat \<Rightarrow> scheduleState \<Rightarrow> bool" where
  "objectInv stopped inFlight st \<longleftrightarrow>
     ss_runningCount st = int inFlight
   \<and> (overlapOf st \<noteq> OverlapParallel \<longrightarrow> inFlight \<le> 1)
   \<and> (ss_queued st \<longleftrightarrow> ss_queuedAt st \<noteq> None)
   \<and> (ss_queued st \<longrightarrow> overlapOf st = OverlapQueue \<and> (0 < inFlight \<or> stopped))"

definition scheduleInv :: "inProcessSchedule \<Rightarrow> bool" where
  "scheduleInv s \<longleftrightarrow> set (ip_inFlight s) \<subseteq> {..<length (ip_objects s)}
     \<and> set (mapValues (ip_states s)) \<subseteq> {..<length (ip_objects s)}
     \<and> (\<forall>i < length (ip_objects s).
          objectInv (ip_stopped s) (count_list (ip_inFlight s) i) (ip_objects s ! i))"

lemma overlapOf_update [simp]:
  "overlapOf (st\<lparr>ss_timer := t\<rparr>) = overlapOf st" "overlapOf (st\<lparr>ss_runningCount := n\<rparr>) = overlapOf st"
  "overlapOf (st\<lparr>ss_queued := q\<rparr>) = overlapOf st" "overlapOf (st\<lparr>ss_queuedAt := d\<rparr>) = overlapOf st"
  by (simp_all add: overlapOf_def)

lemma updateObject_simps [simp]:
  "ip_states (updateObject i f s) = ip_states s" "ip_stopped (updateObject i f s) = ip_stopped s"
  "ip_fired (updateObject i f s) = ip_fired s" "ip_inFlight (updateObject i f s) = ip_inFlight s"
  "length (ip_objects (updateObject i f s)) = length (ip_objects s)"
  "i < length (ip_objects s) \<Longrightarrow> ip_objects (updateObject i f s) ! i = f (ip_objects s ! i)"
  "j \<noteq> i \<Longrightarrow> ip_objects (updateObject i f s) ! j = ip_objects s ! j"
  by (simp_all add: updateObject_def)

lemma count_list_snoc: "count_list (xs @ [x]) y = count_list xs y + (if x = y then 1 else 0)"
  by simp

lemma count_list_remove1: "x \<in> set xs \<Longrightarrow>
    count_list (remove1 x xs) y = count_list xs y - (if x = y then 1 else 0)"
  by (induction xs) (auto simp: count_list_0_iff)

lemma count_list_pos: "x \<in> set xs \<Longrightarrow> 0 < count_list xs x"
  using count_list_0_iff [of xs x] by auto

lemma scheduleInv_dispatch:
  assumes "scheduleInv s" "i < length (ip_objects s)"
  shows "scheduleInv (dispatch i d s)"
proof -
  let ?st = "ip_objects s ! i"
  have inv: "objectInv (ip_stopped s) (count_list (ip_inFlight s) j) (ip_objects s ! j)"
    if "j < length (ip_objects s)" for j
    using assms(1) that by (simp add: scheduleInv_def)
  have sub: "set (ip_inFlight s) \<subseteq> {..<length (ip_objects s)}"
    "set (mapValues (ip_states s)) \<subseteq> {..<length (ip_objects s)}"
    using assms(1) by (simp_all add: scheduleInv_def)
  consider "dispatch i d s = s" | "0 < ss_runningCount ?st" "overlapOf ?st = OverlapQueue"
      "dispatch i d s = updateObject i (\<lambda>st. st\<lparr>ss_queued := True,
         ss_queuedAt := (case ss_queuedAt st of None \<Rightarrow> Some d | Some d \<Rightarrow> Some d)\<rparr>) s"
    | "\<not> (0 < ss_runningCount ?st \<and> overlapOf ?st \<noteq> OverlapParallel)"
      "dispatch i d s = (updateObject i (\<lambda>st. st\<lparr>ss_runningCount := ss_runningCount st + 1\<rparr>) s)
         \<lparr>ip_fired := ip_fired s @ [(i, d)], ip_inFlight := ip_inFlight s @ [i]\<rparr>"
    by (cases "overlapOf ?st"; cases "ip_stopped s"; cases "0 < ss_runningCount ?st")
      (simp_all add: dispatch_def Let_def)
  then show ?thesis
  proof cases
    case 1
    with assms(1) show ?thesis by simp
  next
    case 2
    have "objectInv (ip_stopped s) (count_list (ip_inFlight s) j) (ip_objects (dispatch i d s) ! j)"
      if "j < length (ip_objects s)" for j
      using inv [OF that] 2 assms(2) by (cases "j = i") (auto simp: objectInv_def split: option.splits)
    with 2 sub show ?thesis by (simp add: scheduleInv_def)
  next
    case 3
    have "objectInv (ip_stopped s) (count_list (ip_inFlight s @ [i]) j) (ip_objects (dispatch i d s) ! j)"
      if "j < length (ip_objects s)" for j
      using inv [OF that] 3 assms(2) by (cases "j = i") (auto simp: objectInv_def)
    with 3 sub assms(2) show ?thesis by (simp add: scheduleInv_def)
  qed
qed

lemma dispatch_length [simp]: "length (ip_objects (dispatch i d s)) = length (ip_objects s)"
  by (simp add: dispatch_def Let_def)

lemma scheduleInv_settled:
  assumes "scheduleInv s" "i \<in> set (ip_inFlight s)"
  shows "scheduleInv (launchSettled i now s)"
proof -
  let ?s1 = "(updateObject i (\<lambda>st. st\<lparr>ss_runningCount := ss_runningCount st - 1\<rparr>) s)
     \<lparr>ip_inFlight := remove1 i (ip_inFlight s)\<rparr>"
  let ?st = "ip_objects ?s1 ! i"
  let ?s2 = "updateObject i (\<lambda>st. st\<lparr>ss_queued := False, ss_queuedAt := None\<rparr>) ?s1"
  have i: "i < length (ip_objects s)" using assms by (auto simp: scheduleInv_def)
  have pos: "0 < count_list (ip_inFlight s) i" using assms(2) by (rule count_list_pos)
  have inv: "objectInv (ip_stopped s) (count_list (ip_inFlight s) j) (ip_objects s ! j)"
    if "j < length (ip_objects s)" for j
    using assms(1) that by (simp add: scheduleInv_def)
  have sub: "set (remove1 i (ip_inFlight s)) \<subseteq> {..<length (ip_objects s)}"
    "set (mapValues (ip_states s)) \<subseteq> {..<length (ip_objects s)}"
    using assms(1) set_remove1_subset [of i "ip_inFlight s"] by (auto simp: scheduleInv_def)
  show ?thesis
  proof (cases "\<not> ip_stopped s \<and> ss_runningCount ?st = 0 \<and> ss_queued ?st")
    case True
    have "objectInv (ip_stopped s) (count_list (remove1 i (ip_inFlight s)) j) (ip_objects ?s2 ! j)"
      if "j < length (ip_objects s)" for j
      using inv [OF that] i pos True count_list_remove1 [OF assms(2), of j]
      by (cases "j = i") (auto simp: objectInv_def)
    then have "scheduleInv ?s2" using sub by (simp add: scheduleInv_def)
    then have "scheduleInv (dispatch i d ?s2)" for d by (rule scheduleInv_dispatch) (simp add: i)
    with True show ?thesis by (simp add: launchSettled_def Let_def)
  next
    case False
    have "objectInv (ip_stopped s) (count_list (remove1 i (ip_inFlight s)) j) (ip_objects ?s1 ! j)"
      if "j < length (ip_objects s)" for j
      using inv [OF that] i pos False count_list_remove1 [OF assms(2), of j]
      by (cases "j = i") (auto simp: objectInv_def)
    then have "scheduleInv ?s1" using sub by (simp add: scheduleInv_def)
    with False show ?thesis by (auto simp: launchSettled_def Let_def)
  qed
qed

lemma scheduleInv_timer:
  "scheduleInv s \<Longrightarrow> i < length (ip_objects s) \<Longrightarrow>
   scheduleInv (updateObject i (\<lambda>st. st\<lparr>ss_timer := False\<rparr>) s)"
  unfolding scheduleInv_def
  by (auto simp: objectInv_def updateObject_def nth_list_update)

lemma scheduleInv_stopped: "scheduleInv s \<Longrightarrow> scheduleInv (s\<lparr>ip_stopped := True\<rparr>)"
  by (auto simp: scheduleInv_def objectInv_def)

lemma stopTimers:
  "scheduleInv s \<Longrightarrow> set is \<subseteq> {..<length (ip_objects s)} \<Longrightarrow>
   scheduleInv (foldl (\<lambda>s i. updateObject i (\<lambda>st. st\<lparr>ss_timer := False\<rparr>) s) s is)"
  by (induction "is" arbitrary: s) (simp_all add: scheduleInv_timer)

lemma scheduleInv_shutdown: "scheduleInv s \<Longrightarrow> scheduleInv (scheduleShutdown s)"
proof -
  assume inv: "scheduleInv s"
  let ?s = "foldl (\<lambda>s i. updateObject i (\<lambda>st. st\<lparr>ss_timer := False\<rparr>) s) (s\<lparr>ip_stopped := True\<rparr>)
    (mapValues (ip_states s))"
  have "scheduleInv ?s"
    by (rule stopTimers [OF scheduleInv_stopped [OF inv]]) (use inv in \<open>simp add: scheduleInv_def\<close>)
  then show ?thesis by (simp add: scheduleInv_def scheduleShutdown_def)
qed

lemma values_mapSet_bound:
  "snd ` set m \<subseteq> {..<n} \<Longrightarrow> snd ` set (mapSet k n m) \<subseteq> {..<Suc n}"
  by (induction m) auto

lemma scheduleInv_install:
  assumes "scheduleInv s"
  shows "scheduleInv (installSchedule cronAccepts e s)"
proof -
  let ?n = "length (ip_objects s)"
  let ?new = "\<lparr>ss_entry = e, ss_timer = True, ss_runningCount = 0, ss_queued = False, ss_queuedAt = None\<rparr>"
  have "?n \<notin> set (ip_inFlight s)" using assms by (auto simp: scheduleInv_def)
  then have 0: "count_list (ip_inFlight s) ?n = 0" by (simp add: count_list_0_iff)
  have "objectInv (ip_stopped s) (count_list (ip_inFlight s) j) ((ip_objects s @ [?new]) ! j)"
    if "j < Suc ?n" for j
  proof (cases "j = ?n")
    case True
    with 0 show ?thesis by (simp add: objectInv_def)
  next
    case False
    with that assms show ?thesis by (simp add: scheduleInv_def nth_append)
  qed
  moreover have "set (ip_inFlight s) \<subseteq> {..<Suc ?n}" using assms by (auto simp: scheduleInv_def)
  moreover have "snd ` set (mapSet (scheduleKey e) ?n (ip_states s)) \<subseteq> {..<Suc ?n}"
    using assms by (intro values_mapSet_bound) (simp add: scheduleInv_def)
  ultimately show ?thesis
    using assms by (simp add: installSchedule_def scheduleInv_def)
qed

lemma scheduleInv_installAll:
  "scheduleInv s \<Longrightarrow> scheduleInv (foldl (\<lambda>s e. installSchedule cronAccepts e s) s es)"
  by (induction es arbitrary: s) (simp_all add: scheduleInv_install)

lemma reachable_inv: "scheduleReachable cronAccepts registry s \<Longrightarrow> scheduleInv s"
proof (induction rule: scheduleReachable.induct)
  case schedule_start
  have "scheduleInv (newInProcessSchedule\<lparr>ip_stopped := False\<rparr>)"
    by (simp add: scheduleInv_def newInProcessSchedule_def)
  then show ?case unfolding scheduleBootstrap_def by (rule scheduleInv_installAll)
next
  case (schedule_step s ev)
  then show ?case
    by (cases ev) (simp_all add: onTick_def scheduleInv_dispatch scheduleInv_settled scheduleInv_shutdown)
qed

section \<open>The schedules installed\<close>

abbreviation entriesOf :: "inProcessSchedule \<Rightarrow> batchScheduleEntry list" where
  "entriesOf s \<equiv> map ss_entry (ip_objects s)"

lemma entries_updateObject:
  "(\<And>st. ss_entry (f st) = ss_entry st) \<Longrightarrow> entriesOf (updateObject i f s) = entriesOf s"
  by (cases "i < length (ip_objects s)")
    (auto simp: updateObject_def list_eq_iff_nth_eq nth_list_update list_update_beyond)

lemma entries_dispatch [simp]: "entriesOf (dispatch i d s) = entriesOf s"
  by (simp add: dispatch_def Let_def entries_updateObject)

lemma entries_stopTimers:
  "entriesOf (foldl (\<lambda>s i. updateObject i (\<lambda>st. st\<lparr>ss_timer := t\<rparr>) s) s is) = entriesOf s"
  by (induction "is" arbitrary: s) (simp_all add: entries_updateObject)

lemma entries_step [simp]: "entriesOf (scheduleStep ev s) = entriesOf s"
  by (cases ev)
    (simp_all add: onTick_def launchSettled_def Let_def entries_updateObject scheduleShutdown_def
      entries_stopTimers)

lemma entries_bootstrap:
  "entriesOf (foldl (\<lambda>s e. installSchedule cronAccepts e s) s es)
    = entriesOf s @ filter (\<lambda>e. \<not> be_inert e \<and> cronAccepts (be_cron e) (be_timezone e)) es"
  by (induction es arbitrary: s) (simp_all add: installSchedule_def)

lemma reachable_entries: "scheduleReachable cronAccepts registry s \<Longrightarrow>
   entriesOf s = filter (\<lambda>e. \<not> be_inert e \<and> cronAccepts (be_cron e) (be_timezone e)) (scheduleGetAll registry)"
  by (induction rule: scheduleReachable.induct)
    (simp_all add: scheduleBootstrap_def entries_bootstrap newInProcessSchedule_def)

section \<open>What a tick does\<close>

text \<open>The object after a tick that came while a launch of a queueing schedule was in flight.\<close>

abbreviation queuedFor :: "date \<Rightarrow> scheduleState \<Rightarrow> scheduleState" where
  "queuedFor d st \<equiv> st\<lparr>ss_queued := True, ss_queuedAt := Some d\<rparr>"

lemma tick_idle:
  assumes "scheduleInv s" "i < length (ip_objects s)" "\<not> ip_stopped s" "i \<notin> set (ip_inFlight s)"
  shows "ip_fired (onTick i (Some d) now s) = ip_fired s @ [(i, d)]"
proof -
  from assms(4) have "count_list (ip_inFlight s) i = 0" by (simp add: count_list_0_iff)
  with assms have "ss_runningCount (ip_objects s ! i) = 0" by (auto simp: scheduleInv_def objectInv_def)
  with assms(3) show ?thesis by (simp add: onTick_def dispatch_def Let_def)
qed

lemma running_pos:
  assumes "scheduleInv s" "i < length (ip_objects s)" "i \<in> set (ip_inFlight s)"
  shows "0 < ss_runningCount (ip_objects s ! i)"
  using assms count_list_pos [OF assms(3)] by (auto simp: scheduleInv_def objectInv_def)

lemma tick_skipped:
  assumes "scheduleInv s" "i < length (ip_objects s)" "i \<in> set (ip_inFlight s)"
    "overlapOf (ip_objects s ! i) = OverlapSkip"
  shows "onTick i d now s = s"
  using running_pos [OF assms(1-3)] assms(4) by (simp add: onTick_def dispatch_def Let_def)

lemma tick_queued:
  assumes "\<not> ip_stopped s" "0 < ss_runningCount (ip_objects s ! i)"
    "overlapOf (ip_objects s ! i) = OverlapQueue" "\<not> ss_queued (ip_objects s ! i)"
    "ss_queuedAt (ip_objects s ! i) = None"
  shows "onTick i (Some d) now s = updateObject i (queuedFor d) s"
  using assms by (simp add: onTick_def dispatch_def Let_def updateObject_def)

lemma tick_queued_again:
  assumes "\<not> ip_stopped s" "0 < ss_runningCount (ip_objects s ! i)" "i < length (ip_objects s)"
    "overlapOf (ip_objects s ! i) = OverlapQueue"
  shows "onTick i (Some d') now (updateObject i (queuedFor d) s) = updateObject i (queuedFor d) s"
  using assms by (simp add: onTick_def dispatch_def Let_def updateObject_def overlapOf_def)

lemma ticks_queued_again:
  assumes "\<not> ip_stopped s" "0 < ss_runningCount (ip_objects s ! i)" "i < length (ip_objects s)"
    "overlapOf (ip_objects s ! i) = OverlapQueue"
  shows "foldl (\<lambda>s d. onTick i (Some d) now s) (updateObject i (queuedFor d) s) ds
    = updateObject i (queuedFor d) s"
  using assms by (induction ds) (simp_all add: tick_queued_again)

lemma settle_queued:
  assumes "\<not> ip_stopped s" "ss_runningCount (ip_objects s ! i) = 1" "i < length (ip_objects s)"
  shows "ip_fired (launchSettled i now (updateObject i (queuedFor d) s)) = ip_fired s @ [(i, d)]"
    "ip_inFlight (launchSettled i now (updateObject i (queuedFor d) s)) = remove1 i (ip_inFlight s) @ [i]"
    "\<not> ss_queued (ip_objects (launchSettled i now (updateObject i (queuedFor d) s)) ! i)"
  using assms by (simp_all add: launchSettled_def Let_def dispatch_def)

lemma stopped_quiet:
  "ip_stopped s \<Longrightarrow> ip_fired (scheduleStep ev s) = ip_fired s \<and> ip_stopped (scheduleStep ev s)"
proof (cases ev)
  case Shutdown
  have "ip_fired (foldl (\<lambda>s i. updateObject i f s) t is) = ip_fired t
      \<and> ip_stopped (foldl (\<lambda>s i. updateObject i f s) t is) = ip_stopped t" for f t "is"
    by (induction "is" arbitrary: t) simp_all
  with Shutdown show "ip_stopped s \<Longrightarrow> ?thesis" by (simp add: scheduleShutdown_def)
qed (simp_all add: onTick_def launchSettled_def Let_def)

section \<open>Properties\<close>

text \<open>
  C17: in every state the scheduler can reach, through ticks, launches that settle and the
  shutdown in any order, each installed schedule is a registered one that is not inert and
  whose cron expression the library accepted; its counter is the number of its launches in
  flight, which is at most one unless the policy is \<open>parallel\<close>; a tick that finds no launch
  in flight is fired with its own date, a tick that finds one is ignored under the default
  policy \<open>skip\<close>; and after the shutdown nothing is fired any more.
\<close>
theorem schedule_overlap:
  assumes "scheduleReachable cronAccepts registry s" "i < length (ip_objects s)"
  shows "ss_entry (ip_objects s ! i) \<in> set (scheduleGetAll registry)
    \<and> \<not> be_inert (ss_entry (ip_objects s ! i))
    \<and> ss_runningCount (ip_objects s ! i) = int (count_list (ip_inFlight s) i)
    \<and> (overlapOf (ip_objects s ! i) \<noteq> OverlapParallel \<longrightarrow> count_list (ip_inFlight s) i \<le> 1)
    \<and> (\<not> ip_stopped s \<and> i \<notin> set (ip_inFlight s) \<longrightarrow>
         ip_fired (onTick i (Some d) now s) = ip_fired s @ [(i, d)])
    \<and> (i \<in> set (ip_inFlight s) \<and> overlapOf (ip_objects s ! i) = OverlapSkip \<longrightarrow> onTick i (Some d) now s = s)
    \<and> (ip_stopped s \<longrightarrow> ip_fired (foldl (\<lambda>s ev. scheduleStep ev s) s evs) = ip_fired s)"
proof -
  note inv = reachable_inv [OF assms(1)]
  have "ss_entry (ip_objects s ! i) \<in> set (entriesOf s)" using assms(2) by simp
  then have e: "ss_entry (ip_objects s ! i) \<in> set (scheduleGetAll registry)"
    "\<not> be_inert (ss_entry (ip_objects s ! i))"
    unfolding reachable_entries [OF assms(1)] by auto
  have "objectInv (ip_stopped s) (count_list (ip_inFlight s) i) (ip_objects s ! i)"
    using inv assms(2) by (simp add: scheduleInv_def)
  moreover have "ip_fired (foldl (\<lambda>s ev. scheduleStep ev s) s evs) = ip_fired s" if "ip_stopped s"
    using that by (induction evs arbitrary: s) (simp_all add: stopped_quiet)
  ultimately show ?thesis
    using e tick_idle [OF inv assms(2)] tick_skipped [OF inv assms(2)] by (simp add: objectInv_def)
qed

definition nightlyEntry :: "batchOverlapPolicy option \<Rightarrow> batchScheduleEntry" where
  "nightlyEntry overlap = \<lparr>be_jobId = ''report'', be_scheduleName = ''nightly'', be_methodName = ''run'',
     be_cron = ''0 2 * * *'', be_timezone = ''UTC'', be_overlap = overlap, be_startAt = None,
     be_endAt = None, be_inert = False\<rparr>"

definition nightly :: "batchOverlapPolicy option \<Rightarrow> inProcessSchedule" where
  "nightly overlap = scheduleBootstrap (\<lambda>_ _. True) (keyedEntries [nightlyEntry overlap]) newInProcessSchedule"

lemma nightly_state: "nightly overlap = \<lparr>ip_states = [(''report::nightly'', 0)], ip_stopped = False,
    ip_objects = [\<lparr>ss_entry = nightlyEntry overlap, ss_timer = True, ss_runningCount = 0,
      ss_queued = False, ss_queuedAt = None\<rparr>], ip_fired = [], ip_inFlight = []\<rparr>"
  by (simp add: nightly_def scheduleBootstrap_def keyedEntries_def scheduleGetAll_def
      newInProcessSchedule_def installSchedule_def nightlyEntry_def scheduleKey_def)

lemma nightly_reachable: "scheduleReachable (\<lambda>_ _. True) (keyedEntries [nightlyEntry overlap]) (nightly overlap)"
  unfolding nightly_def by (rule schedule_start)

theorem schedule_overlap_witness:
  "ip_fired (onTick 0 (Some 7) 8 (nightly None)) = [(0, 7)]"
  using schedule_overlap [OF nightly_reachable [of None], where i = 0 and d = 7 and now = 8]
  by (simp add: nightly_state)

text \<open>
  C37: under the policy \<open>queue\<close>, any number of ticks that come while a launch is in flight are
  kept as one: when that launch settles, exactly one more is fired, with the date of the
  first of them, and the other ticks are gone.
\<close>
theorem schedule_queue_coalesces:
  assumes "scheduleReachable cronAccepts registry s" "i < length (ip_objects s)" "\<not> ip_stopped s"
    "overlapOf (ip_objects s ! i) = OverlapQueue" "i \<in> set (ip_inFlight s)"
    "\<not> ss_queued (ip_objects s ! i)"
  shows "let s' = launchSettled i t (foldl (\<lambda>s d. onTick i (Some d) now s) s (d # ds))
    in ip_fired s' = ip_fired s @ [(i, d)] \<and> count_list (ip_inFlight s') i = 1
       \<and> \<not> ss_queued (ip_objects s' ! i)"
proof -
  note inv = reachable_inv [OF assms(1)]
  have o: "objectInv (ip_stopped s) (count_list (ip_inFlight s) i) (ip_objects s ! i)"
    using inv assms(2) by (simp add: scheduleInv_def)
  with assms(4) count_list_pos [OF assms(5)] have c: "count_list (ip_inFlight s) i = 1"
    by (auto simp: objectInv_def)
  with o have run: "ss_runningCount (ip_objects s ! i) = 1" by (simp add: objectInv_def)
  have none: "ss_queuedAt (ip_objects s ! i) = None" using o assms(6) by (simp add: objectInv_def)
  have "foldl (\<lambda>s d. onTick i (Some d) now s) s (d # ds) = updateObject i (queuedFor d) s"
    using ticks_queued_again [OF assms(3) _ assms(2, 4)] tick_queued [OF assms(3) _ assms(4, 6) none] run
    by simp
  then show ?thesis
    using settle_queued [OF assms(3) run assms(2)] count_list_remove1 [OF assms(5), of i] c
    by (simp add: Let_def)
qed

theorem schedule_queue_coalesces_witness:
  "ip_fired (launchSettled 0 9 (foldl (\<lambda>s d. onTick 0 (Some d) 9 s)
     (scheduleStep (Tick 0 (Some 1) 1) (nightly (Some OverlapQueue))) [2, 3, 4])) = [(0, 1), (0, 2)]"
proof -
  let ?s = "scheduleStep (Tick 0 (Some 1) 1) (nightly (Some OverlapQueue))"
  have s: "?s = \<lparr>ip_states = [(''report::nightly'', 0)], ip_stopped = False,
    ip_objects = [\<lparr>ss_entry = nightlyEntry (Some OverlapQueue), ss_timer = True, ss_runningCount = 1,
      ss_queued = False, ss_queuedAt = None\<rparr>], ip_fired = [(0, 1)], ip_inFlight = [0]\<rparr>"
    by (simp add: nightly_state onTick_def dispatch_def Let_def updateObject_def)
  have "scheduleReachable (\<lambda>_ _. True) (keyedEntries [nightlyEntry (Some OverlapQueue)]) ?s"
    by (rule schedule_step [OF nightly_reachable]) (simp add: nightly_state)
  from schedule_queue_coalesces [OF this, where i = 0 and t = 9 and now = 9 and d = 2 and ds = "[3, 4]"]
  show ?thesis unfolding s by (simp add: Let_def overlapOf_def nightlyEntry_def)
qed

end
