(* ===== verification/ListenerInvoker.thy ===== *)
theory ListenerInvoker
  imports CoreTypes
begin

text \<open>
  Listener dispatch (\<open>execution/listener-invoker.ts\<close>) and the look-up of provider tokens
  (\<open>execution/ref-resolver.ts\<close>). A resolver map is an insertion-ordered map whose keys say
  which phase and kind a listener is for; dispatch runs the entries whose key has the
  prefix, in order. The log line of a swallowed failure is not modelled.
\<close>

section \<open>Resolver maps\<close>

record ('w, 'i) listenerEntry =
  le_fn :: "('w, 'i) listenerFn"
  le_nonCritical :: "bool option"

type_synonym ('w, 'i) resolverMap = "(string, ('w, 'i) listenerEntry) jsmap"

text \<open>
  \<open>invokeMatching\<close> yields the arguments as the listeners leave them: a listener may have
  written into an object it was handed, even one that then failed non-critically.
\<close>

fun invokeMatching :: "('w, 'i) resolverMap \<Rightarrow> string \<Rightarrow> 'i listenerArg list \<Rightarrow>
    ('w, 'i listenerArg list) M" where
  "invokeMatching [] prefix args w = (Value args, w)"
| "invokeMatching ((key, entry) # rest) prefix args w =
     (if \<not> startsWith prefix key then invokeMatching rest prefix args w
      else (case le_fn entry args w of
          ((Value _, args'), w') \<Rightarrow> invokeMatching rest prefix args' w'
        | ((Throw err, args'), w') \<Rightarrow>
            if le_nonCritical entry = Some True then invokeMatching rest prefix args' w'
            else (Throw err, w')
        | ((OutOfFuel, args'), w') \<Rightarrow> (OutOfFuel, w')))"

definition runListeners :: "('w, 'i) resolverMap \<Rightarrow> string \<Rightarrow> 'i listenerArg list \<Rightarrow> ('w, unit) M" where
  "runListeners resolvers prefix args = thenM (invokeMatching resolvers prefix args) (returnM ())"

definition buildCallArgs :: "listenerKind \<Rightarrow> listenerContext \<Rightarrow> 'i listenerArg option \<Rightarrow> 'i listenerArg list" where
  "buildCallArgs kind ctx args =
     (if kind \<in> {KItemRead, KItemProcess, KItemWrite}
      then (case args of None \<Rightarrow> [LContext ctx] | Some a \<Rightarrow> [a, LContext ctx])
      else if kind \<in> {KJob, KStep, KChunk}
      then (case args of None \<Rightarrow> [LContext ctx] | Some a \<Rightarrow> [LContext ctx, a])
      else [LContext ctx])"

definition phasePrefix :: "string \<Rightarrow> listenerKind \<Rightarrow> string" where
  "phasePrefix phase kind = phase @ '':'' @ listenerKindText kind @ '':''"

definition invokeBefore :: "('w, 'i) resolverMap \<Rightarrow> listenerKind \<Rightarrow> listenerContext \<Rightarrow>
    'i listenerArg option \<Rightarrow> ('w, unit) M" where
  "invokeBefore resolvers kind ctx args =
     runListeners resolvers (phasePrefix ''before'' kind) (buildCallArgs kind ctx args)"

definition invokeAfter :: "('w, 'i) resolverMap \<Rightarrow> listenerKind \<Rightarrow> listenerContext \<Rightarrow>
    'i listenerArg option \<Rightarrow> ('w, unit) M" where
  "invokeAfter resolvers kind ctx args =
     runListeners resolvers (phasePrefix ''after'' kind) (buildCallArgs kind ctx args)"

definition invokeOnError :: "('w, 'i) resolverMap \<Rightarrow> listenerKind \<Rightarrow> listenerContext \<Rightarrow> exn \<Rightarrow>
    ('w, unit) M" where
  "invokeOnError resolvers kind ctx err =
     runListeners resolvers (phasePrefix ''on-error'' kind) [LContext ctx, LError err]"

text \<open>
  The after-step call hands the live step result to the listeners; this is the result as
  they leave it.
\<close>

fun resultOfArgs :: "stepResult \<Rightarrow> 'i listenerArg list \<Rightarrow> stepResult" where
  "resultOfArgs result [_, LResult r] = r"
| "resultOfArgs result _ = result"

definition invokeAfterStepResult :: "('w, 'i) resolverMap \<Rightarrow> listenerContext \<Rightarrow> stepResult \<Rightarrow>
    ('w, stepResult) M" where
  "invokeAfterStepResult resolvers ctx result =
     bindM (invokeMatching resolvers (phasePrefix ''after'' KStep)
             (buildCallArgs KStep ctx (Some (LResult result))))
       (\<lambda>args. returnM (resultOfArgs result args))"

section \<open>Item and skip listeners\<close>

definition invokeBeforeRead :: "('w, 'i) resolverMap \<Rightarrow> listenerContext \<Rightarrow> ('w, unit) M" where
  "invokeBeforeRead rs ctx = runListeners rs (phasePrefix ''before'' KItemRead) [LContext ctx]"

definition invokeAfterRead :: "('w, 'i) resolverMap \<Rightarrow> 'i \<Rightarrow> listenerContext \<Rightarrow> ('w, unit) M" where
  "invokeAfterRead rs item ctx =
     runListeners rs (phasePrefix ''after'' KItemRead) [LItem item, LContext ctx]"

definition invokeOnReadError :: "('w, 'i) resolverMap \<Rightarrow> exn \<Rightarrow> listenerContext \<Rightarrow> ('w, unit) M" where
  "invokeOnReadError rs err ctx =
     runListeners rs (phasePrefix ''on-error'' KItemRead) [LError err, LContext ctx]"

definition invokeBeforeProcess :: "('w, 'i) resolverMap \<Rightarrow> 'i \<Rightarrow> listenerContext \<Rightarrow> ('w, unit) M" where
  "invokeBeforeProcess rs item ctx =
     runListeners rs (phasePrefix ''before'' KItemProcess) [LItem item, LContext ctx]"

definition invokeAfterProcess :: "('w, 'i) resolverMap \<Rightarrow> 'i \<Rightarrow> 'i option \<Rightarrow> listenerContext \<Rightarrow>
    ('w, unit) M" where
  "invokeAfterProcess rs item result ctx =
     runListeners rs (phasePrefix ''after'' KItemProcess)
       [LItem item, LProcessed result, LContext ctx]"

definition invokeOnProcessError :: "('w, 'i) resolverMap \<Rightarrow> 'i \<Rightarrow> exn \<Rightarrow> listenerContext \<Rightarrow>
    ('w, unit) M" where
  "invokeOnProcessError rs item err ctx =
     runListeners rs (phasePrefix ''on-error'' KItemProcess) [LItem item, LError err, LContext ctx]"

definition invokeBeforeWrite :: "('w, 'i) resolverMap \<Rightarrow> 'i list \<Rightarrow> listenerContext \<Rightarrow> ('w, unit) M" where
  "invokeBeforeWrite rs items ctx =
     runListeners rs (phasePrefix ''before'' KItemWrite) [LItems items, LContext ctx]"

definition invokeAfterWrite :: "('w, 'i) resolverMap \<Rightarrow> 'i list \<Rightarrow> writerResult option \<Rightarrow>
    listenerContext \<Rightarrow> ('w, unit) M" where
  "invokeAfterWrite rs items result ctx =
     runListeners rs (phasePrefix ''after'' KItemWrite)
       [LItems items, LWritten result, LContext ctx]"

definition invokeOnWriteError :: "('w, 'i) resolverMap \<Rightarrow> 'i list \<Rightarrow> exn \<Rightarrow> listenerContext \<Rightarrow>
    ('w, unit) M" where
  "invokeOnWriteError rs items err ctx =
     runListeners rs (phasePrefix ''on-error'' KItemWrite) [LItems items, LError err, LContext ctx]"

definition skipPrefix :: "skipSubKind \<Rightarrow> string" where
  "skipPrefix k = ''on-skip:'' @ skipSubKindText k @ '':''"

text \<open>The executor skips a read with no item, so the second argument is null there.\<close>

definition invokeOnSkipRead :: "('w, 'i) resolverMap \<Rightarrow> exn \<Rightarrow> ('w, unit) M" where
  "invokeOnSkipRead rs err = runListeners rs (skipPrefix SkipRead) [LError err, LNull]"

definition invokeOnSkipProcess :: "('w, 'i) resolverMap \<Rightarrow> 'i \<Rightarrow> exn \<Rightarrow> ('w, unit) M" where
  "invokeOnSkipProcess rs item err = runListeners rs (skipPrefix SkipProcess) [LItem item, LError err]"

definition invokeOnSkipWrite :: "('w, 'i) resolverMap \<Rightarrow> 'i list \<Rightarrow> exn \<Rightarrow> ('w, unit) M" where
  "invokeOnSkipWrite rs items err = runListeners rs (skipPrefix SkipWrite) [LItems items, LError err]"

lemmas invoke_defs = invokeBefore_def invokeAfter_def invokeOnError_def invokeBeforeRead_def
  invokeAfterRead_def invokeOnReadError_def invokeBeforeProcess_def invokeAfterProcess_def
  invokeOnProcessError_def invokeBeforeWrite_def invokeAfterWrite_def invokeOnWriteError_def
  invokeOnSkipRead_def invokeOnSkipProcess_def invokeOnSkipWrite_def

section \<open>Legacy step listeners\<close>

type_synonym ('w, 'i) legacyResolvers = "(string, ('w, 'i) listenerFn) jsmap"

definition convertLegacyResolvers :: "('w, 'i) legacyResolvers \<Rightarrow> string \<Rightarrow> string \<Rightarrow> ('w, 'i) resolverMap" where
  "convertLegacyResolvers legacy legacyPrefix newPhase =
     foldl (\<lambda>out (key, fn).
         if startsWith legacyPrefix key
         then mapSet (newPhase @ '':step:'' @ drop (length legacyPrefix) key)
                \<lparr>le_fn = fn, le_nonCritical = None\<rparr> out
         else out)
       [] legacy"

definition invokeBeforeStep :: "('w, 'i) legacyResolvers \<Rightarrow> listenerContext \<Rightarrow> ('w, unit) M" where
  "invokeBeforeStep resolvers ctx =
     invokeBefore (convertLegacyResolvers resolvers ''before-step:'' ''before'') KStep ctx None"

definition invokeAfterStep :: "('w, 'i) legacyResolvers \<Rightarrow> listenerContext \<Rightarrow> stepResult \<Rightarrow>
    ('w, stepResult) M" where
  "invokeAfterStep resolvers ctx result =
     invokeAfterStepResult (convertLegacyResolvers resolvers ''after-step:'' ''after'') ctx result"

definition invokeOnErrorStep :: "('w, 'i) legacyResolvers \<Rightarrow> listenerContext \<Rightarrow> exn \<Rightarrow> ('w, unit) M" where
  "invokeOnErrorStep resolvers ctx err =
     invokeOnError (convertLegacyResolvers resolvers ''on-step-error:'' ''on-error'') KStep ctx err"

section \<open>Provider tokens (ref-resolver.ts)\<close>

definition resolveProviderToken :: "string \<Rightarrow> string option \<Rightarrow> (string, 'v) jsmap option \<Rightarrow> exn + 'v" where
  "resolveProviderToken role tok resolvers =
     (if tok = None \<or> tok = Some []
      then Inl (plainError (''Missing token on '' @ role
             @ '' ref: RefKind.ProviderToken requires a non-empty `token` field''))
      else (case resolvers of
          None \<Rightarrow> Inl (plainError (''No provider resolvers available for '' @ role @ '' ref (token=''
            @ the tok @ ''); the executor context did not receive a `providerResolvers` map''))
        | Some m \<Rightarrow> (case mapGet m (the tok) of
              None \<Rightarrow> Inl (plainError (''Provider for '' @ role @ '' token '' @ [CHR 0x22] @ the tok
                @ [CHR 0x22] @ '' was not found in the provider resolvers map''))
            | Some v \<Rightarrow> Inr v)))"

section \<open>Facts about dispatch\<close>

text \<open>Dispatch is the run, in order, of the entries with the prefix.\<close>

definition matching :: "('w, 'i) resolverMap \<Rightarrow> string \<Rightarrow> ('w, 'i) listenerEntry list" where
  "matching resolvers prefix = map snd (filter (\<lambda>(key, _). startsWith prefix key) resolvers)"

fun runEntries :: "('w, 'i) listenerEntry list \<Rightarrow> 'i listenerArg list \<Rightarrow> ('w, 'i listenerArg list) M" where
  "runEntries [] args w = (Value args, w)"
| "runEntries (entry # rest) args w = (case le_fn entry args w of
       ((Value _, args'), w') \<Rightarrow> runEntries rest args' w'
     | ((Throw err, args'), w') \<Rightarrow>
         if le_nonCritical entry = Some True then runEntries rest args' w' else (Throw err, w')
     | ((OutOfFuel, args'), w') \<Rightarrow> (OutOfFuel, w'))"

lemma invokeMatching_runEntries:
  "invokeMatching resolvers prefix args w = runEntries (matching resolvers prefix) args w"
  by (induction resolvers prefix args w rule: invokeMatching.induct)
    (auto simp: matching_def split: prod.splits outcome.splits)

lemma runListeners_runEntries:
  "runListeners resolvers prefix args = thenM (runEntries (matching resolvers prefix) args) (returnM ())"
  unfolding runListeners_def thenM_def bindM_def by (simp only: invokeMatching_runEntries)

text \<open>Listeners that neither fail nor change anything: dispatch is then invisible.\<close>

definition quiet :: "('w, 'i) resolverMap \<Rightarrow> bool" where
  "quiet resolvers \<longleftrightarrow>
     (\<forall>(key, entry) \<in> set resolvers. \<forall>args w. le_fn entry args w = ((Value (), args), w))"

lemma quiet_Nil [simp]: "quiet []"
  by (simp add: quiet_def)

lemma invokeMatching_quiet: "quiet resolvers \<Longrightarrow> invokeMatching resolvers prefix args w = (Value args, w)"
  by (induction resolvers prefix args w rule: invokeMatching.induct) (auto simp: quiet_def)

lemma runListeners_quiet: "quiet resolvers \<Longrightarrow> runListeners resolvers prefix args = returnM ()"
  by (rule ext) (simp add: runListeners_def thenM_def bindM_def invokeMatching_quiet)

lemma invoke_quiet:
  assumes "quiet rs"
  shows "invokeBefore rs k c a = returnM ()" "invokeAfter rs k c a = returnM ()"
    "invokeOnError rs k c e = returnM ()" "invokeBeforeRead rs c = returnM ()"
    "invokeAfterRead rs x c = returnM ()" "invokeOnReadError rs e c = returnM ()"
    "invokeBeforeProcess rs x c = returnM ()" "invokeAfterProcess rs x y c = returnM ()"
    "invokeOnProcessError rs x e c = returnM ()" "invokeBeforeWrite rs xs c = returnM ()"
    "invokeAfterWrite rs xs wr c = returnM ()" "invokeOnWriteError rs xs e c = returnM ()"
    "invokeOnSkipRead rs e = returnM ()" "invokeOnSkipProcess rs x e = returnM ()"
    "invokeOnSkipWrite rs xs e = returnM ()"
  using assms by (simp_all add: invoke_defs runListeners_quiet)

lemma invokeAfterStepResult_quiet:
  "quiet rs \<Longrightarrow> invokeAfterStepResult rs c result = returnM result"
  by (rule ext) (simp add: invokeAfterStepResult_def buildCallArgs_def bindM_def invokeMatching_quiet)

text \<open>Whatever all listeners preserve, dispatch preserves.\<close>

definition listenersPreserve :: "('w \<Rightarrow> bool) \<Rightarrow> ('w, 'i) resolverMap \<Rightarrow> bool" where
  "listenersPreserve P resolvers \<longleftrightarrow>
     (\<forall>(key, entry) \<in> set resolvers. \<forall>args w. P w \<longrightarrow> P (snd (le_fn entry args w)))"

lemma invokeMatching_preserves:
  "listenersPreserve P resolvers \<Longrightarrow> P w \<Longrightarrow> P (snd (invokeMatching resolvers prefix args w))"
proof (induction resolvers prefix args w rule: invokeMatching.induct)
  case (2 key entry rest prefix args w)
  have rest: "listenersPreserve P rest" using "2.prems"(1) by (auto simp: listenersPreserve_def)
  show ?case
  proof (cases "startsWith prefix key")
    case True
    obtain r a w' where e: "le_fn entry args w = ((r, a), w')" by (metis surj_pair)
    have "P (snd (le_fn entry args w))" using "2.prems" by (simp add: listenersPreserve_def)
    with e have "P w'" by simp
    with True e rest "2.IH" show ?thesis by (cases r) auto
  qed (use "2.IH" rest "2.prems" in simp)
qed simp

lemma runListeners_preserves:
  "listenersPreserve P resolvers \<Longrightarrow> preserves P (runListeners resolvers prefix args)"
  unfolding runListeners_def preserves_def thenM_def bindM_def
  using invokeMatching_preserves [of P resolvers _ prefix args]
  by (fastforce split: prod.splits outcome.splits)

lemma convertLegacy_matching:
  assumes "wfMap legacy"
  shows "map le_fn (matching (convertLegacyResolvers legacy lp np) (np @ '':step:'')) =
      map snd (filter (\<lambda>(key, _). startsWith lp key) legacy)
    \<and> (\<forall>e \<in> set (matching (convertLegacyResolvers legacy lp np) (np @ '':step:'')). le_nonCritical e = None)"
proof -
  let ?new = "\<lambda>(key, fn). (np @ '':step:'' @ drop (length lp) key, \<lparr>le_fn = fn, le_nonCritical = None\<rparr>)"
  let ?step = "\<lambda>out (key, fn). if startsWith lp key
      then mapSet (np @ '':step:'' @ drop (length lp) key) \<lparr>le_fn = fn, le_nonCritical = None\<rparr> out
      else out"
  have "foldl ?step (map ?new (filter (\<lambda>(k, _). startsWith lp k) done')) rest
      = map ?new (filter (\<lambda>(k, _). startsWith lp k) (done' @ rest))"
    if "wfMap (done' @ rest)" for done' rest
    using that
  proof (induction rest arbitrary: done')
    case (Cons p rest)
    obtain key fn where p: "p = (key, fn)" by (cases p)
    have IH: "foldl ?step (map ?new (filter (\<lambda>(k, _). startsWith lp k) (done' @ [p]))) rest
        = map ?new (filter (\<lambda>(k, _). startsWith lp k) (done' @ p # rest))"
      using Cons.IH [of "done' @ [p]"] Cons.prems by simp
    show ?case
    proof (cases "startsWith lp key")
      case True
      then obtain t where t: "key = lp @ t" by (auto simp: startsWith_iff)
      have "mapGet (map ?new (filter (\<lambda>(k, _). startsWith lp k) done')) (np @ '':step:'' @ t) = None"
        using Cons.prems p t by (force simp: map_of_eq_None_iff wfMap_def startsWith_iff)
      with IH p t True show ?thesis by (simp add: mapSet_fresh)
    qed (use IH p in simp)
  qed simp
  from this [of "[]" legacy] assms
  have conv: "convertLegacyResolvers legacy lp np = map ?new (filter (\<lambda>(k, _). startsWith lp k) legacy)"
    by (simp add: convertLegacyResolvers_def)
  have all: "filter (\<lambda>(k, _). startsWith (np @ '':step:'') k) (map ?new ys) = map ?new ys" for ys
    by (induction ys) (auto simp: startsWith_iff)
  show ?thesis unfolding conv matching_def all by (auto simp: comp_def split_beta)
qed


lemma matching_legacy:
  assumes "wfMap legacy"
  shows "matching (convertLegacyResolvers legacy lp np) (np @ '':step:'') =
      map (\<lambda>(_, fn). \<lparr>le_fn = fn, le_nonCritical = None\<rparr>) (filter (\<lambda>(key, _). startsWith lp key) legacy)"
proof -
  let ?m = "matching (convertLegacyResolvers legacy lp np) (np @ '':step:'')"
  have fns: "map le_fn ?m = map snd (filter (\<lambda>(key, _). startsWith lp key) legacy)"
    and "\<forall>e \<in> set ?m. le_nonCritical e = None"
    using convertLegacy_matching [OF assms, of lp np] by blast+
  then have "?m = map (\<lambda>fn. \<lparr>le_fn = fn, le_nonCritical = None\<rparr>) (map le_fn ?m)"
    unfolding map_map by (intro map_idI [symmetric]) auto
  also have "\<dots> = map (\<lambda>fn. \<lparr>le_fn = fn, le_nonCritical = None\<rparr>)
      (map snd (filter (\<lambda>(key, _). startsWith lp key) legacy))"
    by (simp only: fns)
  finally show ?thesis by (simp add: comp_def split_beta)
qed

text \<open>
  A call of the legacy step API runs exactly the legacy functions registered for that
  phase, in registration order, each of them critical; on the current API, exactly the
  entries whose key has the phase and kind as its prefix.
\<close>
theorem legacy_dispatch:
  assumes "wfMap legacy"
  shows "invokeBeforeStep legacy ctx = thenM
      (runEntries (map (\<lambda>(_, fn). \<lparr>le_fn = fn, le_nonCritical = None\<rparr>)
         (filter (\<lambda>(key, _). startsWith ''before-step:'' key) legacy)) [LContext ctx]) (returnM ())
    \<and> invokeOnErrorStep legacy ctx err = thenM
      (runEntries (map (\<lambda>(_, fn). \<lparr>le_fn = fn, le_nonCritical = None\<rparr>)
         (filter (\<lambda>(key, _). startsWith ''on-step-error:'' key) legacy)) [LContext ctx, LError err]) (returnM ())
    \<and> invokeBefore resolvers KStep ctx None =
      thenM (runEntries (matching resolvers ''before:step:'') [LContext ctx]) (returnM ())"
  using matching_legacy [OF assms, of "''before-step:''" "''before''"]
    matching_legacy [OF assms, of "''on-step-error:''" "''on-error''"]
  by (simp_all add: invokeBeforeStep_def invokeOnErrorStep_def invoke_defs phasePrefix_def
      buildCallArgs_def runListeners_runEntries)

text \<open>Two legacy listeners of the phase and one of another; the world records who ran.\<close>

definition recordingListener :: "string \<Rightarrow> (string list, unit) listenerFn" where
  "recordingListener name args w = ((Value (), args), w @ [name])"

theorem legacy_dispatch_witness:
  "invokeBeforeStep [(''before-step:b'', recordingListener ''b''), (''after-step:x'', recordingListener ''x''),
     (''before-step:a'', recordingListener ''a'')]
     \<lparr>lc_jobExecutionId = ''e'', lc_stepExecutionId = ''s'', lc_stepName = None, lc_jobParameters = [],
       lc_chunkIndex = None\<rparr> [] = (Value (), [''b'', ''a''])"
  by (subst legacy_dispatch [THEN conjunct1]) (simp_all add: wfMap_def startsWith_def recordingListener_def)

end
