(* ===== verification/TaskletStepExecutor.thy ===== *)
theory TaskletStepExecutor
  imports Repository ListenerInvoker
begin

text \<open>
  \<open>TaskletStepExecutor\<close> (\<open>execution/tasklet-step-executor.ts\<close>): one call of the tasklet in a
  transaction, its error turned into a FAILED result, and the step listeners around it. The
  context closures a tasklet may call act on the world the tasklet runs on.
\<close>

section \<open>The executor\<close>

record ('w, 'i) taskletExecutionContext =
  tx_jobExecutionId :: string
  tx_stepExecutionId :: "string option"
  tx_stepName :: "string option"
  tx_jobParameters :: "jobParameters option"
  tx_withTransaction :: "('w, string option) M \<Rightarrow> ('w, string option) M"
  tx_listenerResolvers :: "('w, 'i) legacyResolvers"
  tx_providerResolvers :: "(string, 'w tasklet) jsmap option"

definition taskletNotSupported :: "string \<Rightarrow> exn" where
  "taskletNotSupported text = plainError (''Tasklet resolution not supported for ref kind: '' @ text)"

definition resolveTasklet :: "'w taskletRef \<Rightarrow> ('w, 'i) taskletExecutionContext \<Rightarrow> ('w, 'w tasklet) M" where
  "resolveTasklet r context = (case (ref_kind r, ref_fn r) of
      (BuilderLambda, Some fn) \<Rightarrow>
        bindM (fn None) (\<lambda>result. case asFunction result of
            Some f \<Rightarrow> returnM (callResult f)
          | None \<Rightarrow> (case asObject result of
                Some t \<Rightarrow> returnM t
              | None \<Rightarrow> returnM (\<lambda>ctx. bindM (fn (Some ctx)) (\<lambda>v. settleM (asPlain v)))))
    | (ProviderToken, _) \<Rightarrow>
        liftE (resolveProviderToken ''tasklet'' (ref_token r) (tx_providerResolvers context))
    | (BuilderLambda, None) \<Rightarrow> throwM (taskletNotSupported ''builder-lambda'')
    | (MethodRef, _) \<Rightarrow> throwM (taskletNotSupported ''method''))"

definition taskletListenerContext :: "'w taskletStepDefinition \<Rightarrow> ('w, 'i) taskletExecutionContext \<Rightarrow>
    listenerContext" where
  "taskletListenerContext step context = \<lparr>
     lc_jobExecutionId = tx_jobExecutionId context,
     lc_stepExecutionId = orKeep (tx_stepExecutionId context) ''<pending>'',
     lc_stepName = Some (orKeep (tx_stepName context) (ts_id step)),
     lc_jobParameters = orKeep (tx_jobParameters context) [],
     lc_chunkIndex = None\<rparr>"

definition taskletContextOf :: "('w, 'i) taskletExecutionContext \<Rightarrow> taskletContext" where
  "taskletContextOf context = \<lparr>
     tc_jobExecutionId = tx_jobExecutionId context,
     tc_stepExecutionId = orKeep (tx_stepExecutionId context) ''<pending>'',
     tc_jobParameters = orKeep (tx_jobParameters context) []\<rparr>"

definition taskletResult :: "StepStatus \<Rightarrow> string \<Rightarrow> string \<Rightarrow> stepResult" where
  "taskletResult status code msg = \<lparr>sr_status = status, sr_exitCode = code, sr_exitMessage = msg,
     sr_readCount = 0, sr_writeCount = 0, sr_skipCount = 0, sr_commitCount = None\<rparr>"

text \<open>Resolving and running the tasklet: what the \<open>try\<close> block awaits.\<close>

definition runTasklet :: "'w taskletStepDefinition \<Rightarrow> ('w, 'i) taskletExecutionContext \<Rightarrow>
    ('w, string option) M" where
  "runTasklet step context =
     bindM (resolveTasklet (ts_tasklet step) context) (\<lambda>taskletInstance.
       tx_withTransaction context (taskletInstance (taskletContextOf context)))"

definition executeTasklet :: "'w taskletStepDefinition \<Rightarrow> ('w, 'i) taskletExecutionContext \<Rightarrow>
    ('w, stepResult) M" where
  "executeTasklet step context =
     (let lctx = taskletListenerContext step context; resolvers = tx_listenerResolvers context in
      thenM (invokeBeforeStep resolvers lctx)
      (bindM (catchM
          (bindM (runTasklet step context) (\<lambda>txResult.
            returnM (taskletResult StepCompleted ''COMPLETED'' (orKeep txResult []))))
          (\<lambda>err. thenM (invokeOnErrorStep resolvers lctx err)
            (returnM (taskletResult StepFailed ''FAILED'' (errorText err)))))
        (\<lambda>result. invokeAfterStep resolvers lctx result)))"

section \<open>Facts\<close>

lemma legacy_nil_quiet [simp]: "convertLegacyResolvers [] p q = []"
  by (simp add: convertLegacyResolvers_def)

lemma executeTasklet_no_listeners:
  assumes "tx_listenerResolvers context = []"
  shows "executeTasklet step context w = (case runTasklet step context w of
      (Value r, w') \<Rightarrow> (Value (taskletResult StepCompleted ''COMPLETED'' (orKeep r [])), w')
    | (Throw e, w') \<Rightarrow> (Value (taskletResult StepFailed ''FAILED'' (errorText e)), w')
    | (OutOfFuel, w') \<Rightarrow> (OutOfFuel, w'))"
  using assms
  by (simp add: executeTasklet_def Let_def invokeBeforeStep_def invokeAfterStep_def invokeOnErrorStep_def
      invokeAfterStepResult_def invoke_defs runListeners_quiet invokeMatching_quiet buildCallArgs_def
      catchM_def bindM_def thenM_def split: prod.splits outcome.splits)

end
