(* ===== verification/CompilerProperties.thy ===== *)
theory CompilerProperties
  imports Compiler InProcessSchedule TaskletStepExecutor
begin

text \<open>
  From the decorated classes to the jobs and schedules of a started application: the
  properties of discovery, compilation and registration together, and what the step
  executor does with a compiled ref.
\<close>

section \<open>A started application\<close>

lemma startApplication_Inr:
  assumes "startApplication providers = Inr (schedules, registry)"
  shows "explorerInit providers [] = Inr (discoverFromProviders providers, schedules)"
    "bootstrapJobs (discoverFromProviders providers) [] = Inr registry"
proof -
  obtain ds where ds: "explorerInit providers [] = Inr (ds, schedules)" "bootstrapJobs ds [] = Inr registry"
    using assms by (auto simp: startApplication_def split: sum.splits)
  then show "explorerInit providers [] = Inr (discoverFromProviders providers, schedules)"
    "bootstrapJobs (discoverFromProviders providers) [] = Inr registry"
    using explorerInit_Inr(1) [OF ds(1)] by simp_all
qed

lemma registry_key:
  assumes "registryReachable r" "i \<in> set (mapKeys r)" "\<forall>job \<in> set (mapValues r). wellTypedJob job"
  shows "\<exists>job. registryGet r i = Inr job \<and> wellTypedJob job"
proof -
  obtain job where job: "mapGet r i = Some job"
    using assms(2) by (cases "mapGet r i") (auto simp: map_of_eq_None_iff)
  have "wellTypedJob job" by (rule bspec [OF assms(3) mapGet_in_values [OF job]])
  with job show ?thesis by (simp add: registryGet_def)
qed

lemma schedule_registered:
  assumes "startApplication providers = Inr (schedules, registry)" "e \<in> set (scheduleGetAll schedules)"
  shows "\<exists>job. registryGet registry (be_jobId e) = Inr job \<and> wellTypedJob job"
proof -
  note start = startApplication_Inr [OF assms(1)]
  have r: "registryReachable registry" "\<forall>job \<in> set (mapValues registry). wellTypedJob job"
    and keys: "mapKeys registry = map (\<lambda>d. jo_id (dj_jobOptions d)) (discoverFromProviders providers)"
    using bootstrapJobs_registry [OF start(2) registry_empty] by simp_all
  obtain d where "d \<in> set (discoverFromProviders providers)" "be_jobId e = jo_id (dj_jobOptions d)"
    using explorerInit_schedule_job [OF start(1) assms(2)] by blast
  then have "be_jobId e \<in> set (mapKeys registry)" unfolding keys by simp
  with r show ?thesis by (intro registry_key)
qed

definition greetMethod :: "(unit, unit) jsMethod" where
  "greetMethod = \<lparr>mt_tasklet = \<lparr>callResult = \<lambda>_. returnM (Some ''hello''), callObject = \<lambda>_. returnM None\<rparr>,
     mt_reader = \<lparr>callResult = \<lambda>_. returnM None, callObject = \<lambda>_. returnM None\<rparr>,
     mt_processor = \<lparr>callResult = \<lambda>_. returnM None, callObject = \<lambda>_. returnM None\<rparr>,
     mt_writer = \<lparr>callResult = \<lambda>_. returnM None, callObject = \<lambda>_. returnM None\<rparr>,
     mt_listener = \<lambda>args w. ((Value (), args), w)\<rparr>"

text \<open>A class with one scheduled tasklet step, as its decorators leave it.\<close>

definition greetClass :: jobClass where
  "greetClass = jobable \<lparr>jo_id = ''greet'', jo_restartable = None, jo_allowDuplicateInstances = None\<rparr>
    \<lparr>cl_name = ''GreetJob'', cl_job = None, cl_prototypes = [[(''constructor'', None), (''run'', Some (taskletDecorator (stepable \<lparr>stp_id = ''run'',
       stp_chunkSize = None, stp_skipPolicy = None, stp_retryPolicy = None, stp_partitions = None\<rparr>
       (noMetadata\<lparr>md_scheduled := Some \<lparr>sm_cron = ''0 2 * * *'', sm_options = \<lparr>so_name = ''nightly'',
         so_timezone = ''UTC'', so_overlap = None, so_startAt = None, so_endAt = None\<rparr>,
         sm_inert = False\<rparr>\<rparr>))))]]\<rparr>"

definition greetProvider :: "(unit, unit) jsInstance option \<Rightarrow> (unit, unit) providerLike" where
  "greetProvider inst = \<lparr>pv_metatype = Some greetClass, pv_instance = inst\<rparr>"

definition greetDiscovered :: "(unit, unit) jsInstance option \<Rightarrow> (unit, unit) discoveredJob" where
  "greetDiscovered inst = hd (discoverProvider (greetProvider inst))"

lemmas collect_defs = collectStepMethods_def collectItemMethods_def collectListenerMethods_def
  collectTransitionMethods_def collectMethods_def allMethodNames_def

lemma greet_discovered: "discoverProvider (greetProvider inst) = [greetDiscovered inst]"
  "greetDiscovered inst = \<lparr>dj_classRef = greetClass, dj_instance = inst,
     dj_jobOptions = \<lparr>jo_id = ''greet'', jo_restartable = None, jo_allowDuplicateInstances = None\<rparr>,
     dj_stepMethods = [\<lparr>di_stepMethod = ''run'', di_stepOptions = \<lparr>stp_id = ''run'', stp_chunkSize = None,
       stp_skipPolicy = None, stp_retryPolicy = None, stp_partitions = None\<rparr>, di_isTasklet = True\<rparr>],
     dj_itemMethods = [], dj_listenerMethods = [], dj_transitionMethods = []\<rparr>"
  by (simp_all add: discoverProvider.simps greetDiscovered_def greetProvider_def greetClass_def jobable_def collect_defs
      taskletDecorator_def stepable_def noMetadata_def)

lemma greet_fields [simp]:
  "cl_name (dj_classRef (greetDiscovered inst)) = ''GreetJob''" "dj_instance (greetDiscovered inst) = inst"
  "dj_jobOptions (greetDiscovered inst)
    = \<lparr>jo_id = ''greet'', jo_restartable = None, jo_allowDuplicateInstances = None\<rparr>"
  "dj_stepMethods (greetDiscovered inst) = [\<lparr>di_stepMethod = ''run'', di_stepOptions = \<lparr>stp_id = ''run'',
     stp_chunkSize = None, stp_skipPolicy = None, stp_retryPolicy = None, stp_partitions = None\<rparr>,
     di_isTasklet = True\<rparr>]"
  "dj_listenerMethods (greetDiscovered inst) = []" "dj_transitionMethods (greetDiscovered inst) = []"
  by (simp_all add: greet_discovered(2)) (simp add: greetClass_def jobable_def)

definition greetJob :: "(unit, unit) jsInstance option \<Rightarrow> (unit, unit) jobDefinition" where
  "greetJob inst = \<lparr>job_id = ''greet'', job_steps = [(''run'', TaskletStep \<lparr>ts_id = ''run'',
       ts_tasklet = methodRef mt_tasklet (greetDiscovered inst) ''GreetJob'' ''run''\<rparr>)],
     job_startStepId = ''run'', job_transitions = [], job_deciders = [], job_listeners = [],
     job_restartable = False, job_allowDuplicateInstances = False\<rparr>"

lemma greet_compiled: "compileFromDiscovered (greetDiscovered inst) = Inr (greetJob inst)"
proof -
  have v: "validate (greetJob inst) = Inr ()"
    by (simp add: greetJob_def validate_def hasStep_def validateStep_def collectReachable_def succs_def
        assertAcyclic_def)
  have "compileFromDiscovered (greetDiscovered inst) = validated (greetJob inst)"
    by (simp add: compileFromDiscovered_def compileStep_def buildTaskletStep_def greetJob_def)
  with v show ?thesis by (simp add: validated_def)
qed

lemma greet_started:
  "startApplication [greetProvider inst] =
     Inr (keyedEntries (schedulesOf (greetDiscovered inst)), [(''greet'', greetJob inst)])"
  "schedulesOf (greetDiscovered inst) = [nightlyEntry None\<lparr>be_jobId := ''greet''\<rparr>]"
proof -
  show s: "schedulesOf (greetDiscovered inst) = [nightlyEntry None\<lparr>be_jobId := ''greet''\<rparr>]"
    by (simp add: schedulesOf_def greetClass_def jobable_def greet_discovered(2) collect_defs taskletDecorator_def
        stepable_def noMetadata_def scheduleEntry_def nightlyEntry_def)
  have "registerSchedules [greetDiscovered inst] [] = Inr (keyedEntries (schedulesOf (greetDiscovered inst)))"
    by (simp add: registerSchedules_def s registerSchedule_def keyedEntries_def Let_def)
  moreover have "register (greetJob inst) [] = Inr [(''greet'', greetJob inst)]"
    using compileFromDiscovered_typed [OF greet_compiled [of inst]]
    by (simp add: register_Inr_iff wellTypedJob_def) (simp add: greetJob_def)
  ultimately show "startApplication [greetProvider inst] =
     Inr (keyedEntries (schedulesOf (greetDiscovered inst)), [(''greet'', greetJob inst)])"
    by (simp add: startApplication_def explorerInit_def discoverFromProviders_def greet_discovered(1)
        bootstrapJobs_def bootstrapJob_def greet_compiled)
qed

section \<open>Running a compiled tasklet\<close>

text \<open>The ref of a tasklet method bound to an instance gives the method back.\<close>

lemma resolve_bound:
  assumes "instanceMethod d n = Some m"
  shows "resolveTasklet (methodRef mt_tasklet d classToken n) ctx w = (Value (callResult (mt_tasklet m)), w)"
  using assms by (simp add: resolveTasklet_def methodRef_def functionValue_def)

lemma resolve_unbound:
  assumes "instanceMethod d n = None"
  shows "resolveTasklet (methodRef mt_tasklet d classToken n) ctx = throwM (taskletNotSupported ''method'')"
  using assms by (simp add: resolveTasklet_def methodRef_def)

lemma executeTasklet_compiled:
  assumes "tx_listenerResolvers ctx = []"
  shows "executeTasklet (buildTaskletStep d classToken step) ctx w =
    (case instanceMethod d (di_stepMethod step) of
      Some m \<Rightarrow> (case tx_withTransaction ctx (callResult (mt_tasklet m) (taskletContextOf ctx)) w of
          (Value r, w') \<Rightarrow> (Value (taskletResult StepCompleted ''COMPLETED'' (orKeep r [])), w')
        | (Throw e, w') \<Rightarrow> (Value (taskletResult StepFailed ''FAILED'' (errorText e)), w')
        | (OutOfFuel, w') \<Rightarrow> (OutOfFuel, w'))
    | None \<Rightarrow> (Value (taskletResult StepFailed ''FAILED''
          ''Tasklet resolution not supported for ref kind: method''), w))"
proof (cases "instanceMethod d (di_stepMethod step)")
  case None
  then show ?thesis
    by (simp add: executeTasklet_no_listeners [OF assms] runTasklet_def buildTaskletStep_def
        resolve_unbound taskletNotSupported_def plainError_def)
next
  case (Some m)
  then have "runTasklet (buildTaskletStep d classToken step) ctx w
      = tx_withTransaction ctx (callResult (mt_tasklet m) (taskletContextOf ctx)) w"
    by (simp add: runTasklet_def buildTaskletStep_def resolve_bound)
  with Some show ?thesis by (simp add: executeTasklet_no_listeners [OF assms])
qed

section \<open>Properties\<close>

text \<open>
  C14: when an application starts, the job registry holds one job per decorated class, in the
  order of the providers and under its declared id, and every one is well typed: its steps
  are stored once, under their own ids, in a graph the validator accepts. Every schedule the
  explorer registered, and so every schedule a tick can fire, names a job of that registry.
\<close>
theorem application_well_typed:
  assumes "startApplication providers = Inr (schedules, registry)"
  shows "registryReachable registry
    \<and> mapKeys registry = map (\<lambda>d. jo_id (dj_jobOptions d)) (discoverFromProviders providers)
    \<and> (\<forall>job \<in> set (mapValues registry). wellTypedJob job)
    \<and> (\<forall>e \<in> set (scheduleGetAll schedules).
         \<exists>job. registryGet registry (be_jobId e) = Inr job \<and> wellTypedJob job)
    \<and> (\<forall>cronAccepts s. scheduleReachable cronAccepts schedules s \<longrightarrow> (\<forall>i < length (ip_objects s).
         \<exists>job. registryGet registry (be_jobId (ss_entry (ip_objects s ! i))) = Inr job))"
proof -
  note start = startApplication_Inr [OF assms]
  have "\<exists>job. registryGet registry (be_jobId (ss_entry (ip_objects s ! i))) = Inr job"
    if "scheduleReachable cronAccepts schedules s" "i < length (ip_objects s)" for cronAccepts s i
  proof -
    have "ss_entry (ip_objects s ! i) \<in> set (entriesOf s)" using that(2) by simp
    then have "ss_entry (ip_objects s ! i) \<in> set (scheduleGetAll schedules)"
      unfolding reachable_entries [OF that(1)] by simp
    then show ?thesis using schedule_registered [OF assms] by blast
  qed
  then show ?thesis
    using bootstrapJobs_registry [OF start(2) registry_empty] schedule_registered [OF assms] by simp
qed

theorem application_well_typed_witness:
  "\<exists>job. registryGet [(''greet'', greetJob None)] ''greet'' = Inr job \<and> wellTypedJob job"
  using application_well_typed [OF greet_started(1) [of None]]
  by (simp add: greet_started(2) keyedEntries_def scheduleGetAll_def)

text \<open>
  C24: the two front ends agree. If a decorated class compiles, and its steps have non-empty
  ids and no partition configuration (which the fluent builder cannot express), then the
  chain of builder calls that declares the same flags, steps, transitions and listeners
  runs without an error and compiles to the very same job definition.
\<close>
theorem decorators_equal_builder:
  assumes "compileFromDiscovered d = Inr job" "\<forall>s \<in> set (mapValues (job_steps job)). plainStep s"
  shows "compileChain (jo_id (dj_jobOptions d)) (jobCalls job) = compileFromDiscovered d"
  using builder_expresses [OF compileFromDiscovered_typed [OF assms(1)]
      compileFromDiscovered_start [OF assms(1)] assms(2)] assms(1)
  by (simp add: compileFromDiscovered_id [OF assms(1)])

theorem decorators_equal_builder_witness:
  "compileChain ''greet'' [CallRestartable False, CallAllowDuplicates False,
     CallAddStep (StepCallback (foldE stepStep
       [StepCallTasklet ''run'' (methodRef mt_tasklet (greetDiscovered None) ''GreetJob'' ''run'')]))]
   = compileFromDiscovered (greetDiscovered None)"
proof -
  have "\<forall>s \<in> set (mapValues (job_steps (greetJob None))). plainStep s"
    by (simp add: greetJob_def plainStep_def)
  from decorators_equal_builder [OF greet_compiled this] show ?thesis
    by (simp add: jobCalls_def greetJob_def stepsCalls_def)
qed

text \<open>
  A decorated tasklet runs if, and only if, the container had built the instance when the
  job was compiled. With the instance, the step runs its method in the transaction and
  reports its result or its error; without it, the step fails on every execution with the
  message that method refs are not supported: no executor looks the class up at run time.
\<close>
theorem decorated_tasklet_needs_instance:
  assumes "compileStep d step = Inr (TaskletStep t)" "tx_listenerResolvers ctx = []"
  shows "executeTasklet t ctx w = (case instanceMethod d (di_stepMethod step) of
      Some m \<Rightarrow> (case tx_withTransaction ctx (callResult (mt_tasklet m) (taskletContextOf ctx)) w of
          (Value r, w') \<Rightarrow> (Value (taskletResult StepCompleted ''COMPLETED'' (orKeep r [])), w')
        | (Throw e, w') \<Rightarrow> (Value (taskletResult StepFailed ''FAILED'' (errorText e)), w')
        | (OutOfFuel, w') \<Rightarrow> (OutOfFuel, w'))
    | None \<Rightarrow> (Value (taskletResult StepFailed ''FAILED''
          ''Tasklet resolution not supported for ref kind: method''), w))"
proof -
  have "t = buildTaskletStep d (cl_name (dj_classRef d)) step"
    using assms(1) by (auto simp: compileStep_def Let_def split: if_splits sum.splits)
  then show ?thesis by (simp only: executeTasklet_compiled [OF assms(2)])
qed

definition greetContext :: "(unit, unit) taskletExecutionContext" where
  "greetContext = \<lparr>tx_jobExecutionId = ''e1'', tx_stepExecutionId = None, tx_stepName = None,
     tx_jobParameters = None, tx_withTransaction = id, tx_listenerResolvers = [], tx_providerResolvers = None\<rparr>"

theorem decorated_tasklet_needs_instance_witness:
  "fst (executeTasklet (buildTaskletStep (greetDiscovered None) ''GreetJob''
      (hd (dj_stepMethods (greetDiscovered None)))) greetContext ()) =
    Value (taskletResult StepFailed ''FAILED'' ''Tasklet resolution not supported for ref kind: method'')"
proof -
  let ?step = "hd (dj_stepMethods (greetDiscovered None))"
  have "compileStep (greetDiscovered None) ?step
      = Inr (TaskletStep (buildTaskletStep (greetDiscovered None) ''GreetJob'' ?step))"
    by (simp add: compileStep_def)
  from decorated_tasklet_needs_instance [OF this, where ctx = greetContext and w = "()"] show ?thesis
    by (simp add: instanceMethod_def greetContext_def)
qed

end
