(* ===== verification/ChunkStepExecutor.thy ===== *)
theory ChunkStepExecutor
  imports Policies PartitionHelpers JsonContext Repository ListenerInvoker
begin

text \<open>
  \<open>ChunkStepExecutor\<close> (\<open>execution/chunk-step-executor.ts\<close>): the read / process / write loop
  with skip, retry, partition ranges, restart and checkpoints.

  The local variables of \<open>execute\<close> that survive into its \<open>catch\<close> block are the fields of
  \<open>chunkState\<close>, beside the world; the body runs in the effect monad over that state.
  The outer \<open>while (true)\<close> takes fuel; every other loop is structural. Item arrays are
  values: a listener that wrote into one would not be seen. The waiting time of a backoff
  has no effect on the state.
\<close>

section \<open>Context, state, options\<close>

type_synonym ('w, 'i) readerFunction =
  "('w, itemExecutionContext, 'i option, ('w, 'i) itemReader) jsFunction"
type_synonym ('w, 'i) processorFunction =
  "('w, 'i \<times> itemExecutionContext, 'i option, ('w, 'i) itemProcessor) jsFunction"
type_synonym ('w, 'i) writerFunction =
  "('w, 'i list \<times> itemExecutionContext, writerResult option, ('w, 'i) itemWriter) jsFunction"
type_synonym ('w, 'i) readerValue =
  "('w, itemExecutionContext, 'i option, ('w, 'i) itemReader) jsValue"

text \<open>
  The method resolvers and the provider map hold values of every role; the model has one
  view of each map per role.
\<close>

record ('w, 'i) chunkExecutionContext =
  xc_jobExecutionId :: string
  xc_stepExecutionId :: string
  xc_stepName :: "string option"
  xc_jobParameters :: "jobParameters option"
  xc_jobRepository :: "'w jobRepository"
  xc_withTransaction :: "('w, writerResult option) M \<Rightarrow> ('w, writerResult option) M"
  xc_listenerResolvers :: "('w, 'i) resolverMap option"
  xc_skipListenerResolvers :: "('w, 'i) resolverMap option"
  xc_readerMethods :: "(string, ('w, 'i) readerFunction) jsmap"
  xc_processorMethods :: "(string, ('w, 'i) processorFunction) jsmap"
  xc_writerMethods :: "(string, ('w, 'i) writerFunction) jsmap"
  xc_jobExecutionId2 :: string
  xc_readerProviders :: "(string, ('w, 'i) readerValue) jsmap option"
  xc_processorProviders :: "(string, ('w, 'i) itemProcessor) jsmap option"
  xc_writerProviders :: "(string, ('w, 'i) itemWriter) jsmap option"
  xc_resumeFromChunkIndex :: "rat option"
  xc_partitionIndex :: "number option"
  xc_partitionCount :: "number option"

record 'w chunkState =
  cst_world :: 'w
  cst_readCount :: int
  cst_writeCount :: int
  cst_skipCount :: int
  cst_commitCount :: int
  cst_chunkIndex :: rat
  cst_openedStreams :: "'w itemStream list"
  cst_streamContext :: "executionContext option"

definition initialChunkState :: "'w \<Rightarrow> 'w chunkState" where
  "initialChunkState w = \<lparr>cst_world = w, cst_readCount = 0, cst_writeCount = 0, cst_skipCount = 0,
     cst_commitCount = 0, cst_chunkIndex = 0, cst_openedStreams = [], cst_streamContext = None\<rparr>"

definition inWorld :: "('w, 'a) M \<Rightarrow> ('w chunkState, 'a) M" where
  "inWorld m = zoomM cst_world (\<lambda>w s. s\<lparr>cst_world := w\<rparr>) m"

lemma inWorld_apply: "inWorld m s = (case m (cst_world s) of (r, w) \<Rightarrow> (r, s\<lparr>cst_world := w\<rparr>))"
  by (simp add: inWorld_def zoomM_def)

datatype phase = ReadPhase | ProcessPhase | WritePhase

fun phaseText :: "phase \<Rightarrow> string" where
  "phaseText ReadPhase = ''read''"
| "phaseText ProcessPhase = ''process''"
| "phaseText WritePhase = ''write''"

datatype 'v phaseResult = PhaseOk 'v | PhaseSkipped

record ('s, 'v) phaseOptions =
  po_phase :: phase
  po_skipPolicy :: "skipPolicy option"
  po_retryPolicy :: "retryPolicy option"
  po_skipLimit :: number
  po_retryLimit :: number
  po_getSkipCount :: "'s \<Rightarrow> int"
  po_onSkip :: "exn \<Rightarrow> ('s, unit) M"
  po_before :: "('s, unit) M"
  po_after :: "'v \<Rightarrow> ('s, unit) M"
  po_onError :: "exn \<Rightarrow> ('s, unit) M"

section \<open>One read, process or write (runPhase)\<close>

text \<open>\<open>try { ... } catch\<close> around the operation alone: its error becomes a value.\<close>

definition attemptM :: "('s, 'v) M \<Rightarrow> ('s, exn + 'v) M" where
  "attemptM m = catchM (bindM m (\<lambda>v. returnM (Inr v))) (\<lambda>e. returnM (Inl e))"

text \<open>Whether the error is skipped; throws when it would be but the budget is spent.\<close>

definition consultSkip :: "('s, 'v) phaseOptions \<Rightarrow> exn \<Rightarrow> ('s, bool) M" where
  "consultSkip opts err = (case po_skipPolicy opts of
      None \<Rightarrow> returnM False
    | Some policy \<Rightarrow>
        bindM (liftE (policy err \<lparr>kc_skipCount = Fin 0, kc_skipLimit = po_skipLimit opts\<rparr>)) (\<lambda>member.
          if \<not> member then returnM False
          else bindM (getM (po_getSkipCount opts)) (\<lambda>skipCount.
            if numLess (po_skipLimit opts) (Fin (of_int (skipCount + 1)))
            then throwM (skipLimitExceededError (po_skipLimit opts))
            else thenM (po_onSkip opts err) (returnM True))))"

text \<open>Whether the operation is retried; throws when the retries are exhausted.\<close>

definition consultRetry :: "('s, 'v) phaseOptions \<Rightarrow> nat \<Rightarrow> exn \<Rightarrow> ('s, bool) M" where
  "consultRetry opts attempt err = (case po_retryPolicy opts of
      None \<Rightarrow> returnM False
    | Some policy \<Rightarrow>
        bindM (liftE (canRetry policy err \<lparr>yc_attempt = attempt, yc_retryLimit = po_retryLimit opts\<rparr>))
          (\<lambda>retry.
            if retry then returnM True
            else if numLess (po_retryLimit opts) (Fin (of_nat attempt))
            then bindM (liftE (canRetry policy err \<lparr>yc_attempt = 1, yc_retryLimit = PosInf\<rparr>))
              (\<lambda>isRetryable.
                if isRetryable then throwM (retryLimitExceededError (po_retryLimit opts))
                else returnM False)
            else returnM False))"

definition exhaustedAttempts :: "phase \<Rightarrow> exn" where
  "exhaustedAttempts p = plainError (''ChunkStepExecutor: phase '' @ [CHR 0x22] @ phaseText p
     @ [CHR 0x22] @ '' exhausted attempts without a retry policy'')"

text \<open>The first argument counts the iterations left of \<open>attempt <= outerCap\<close>.\<close>

fun runPhaseLoop :: "nat \<Rightarrow> nat \<Rightarrow> ('s, 'v) M \<Rightarrow> ('s, 'v) phaseOptions \<Rightarrow> ('s, 'v phaseResult) M" where
  "runPhaseLoop 0 attempt op opts = throwM (exhaustedAttempts (po_phase opts))"
| "runPhaseLoop (Suc left) attempt op opts =
     thenM (po_before opts) (bindM (attemptM op) (\<lambda>r. case r of
         Inr value \<Rightarrow> thenM (po_after opts value) (returnM (PhaseOk value))
       | Inl err \<Rightarrow>
           thenM (po_onError opts err) (bindM (consultSkip opts err) (\<lambda>skipped.
             if skipped then returnM PhaseSkipped
             else bindM (consultRetry opts attempt err) (\<lambda>retry.
               if retry then runPhaseLoop left (attempt + 1) op opts
               else throwM err)))))"

definition outerCap :: "('s, 'v) phaseOptions \<Rightarrow> nat" where
  "outerCap opts = (if po_retryPolicy opts = None then 1 else 999)"

definition runPhase :: "('s, 'v) M \<Rightarrow> ('s, 'v) phaseOptions \<Rightarrow> ('s, 'v phaseResult) M" where
  "runPhase op opts = runPhaseLoop (outerCap opts) 1 op opts"

section \<open>Contexts handed out\<close>

definition stepNameOf :: "('w, 'i) chunkStepDefinition \<Rightarrow> ('w, 'i) chunkExecutionContext \<Rightarrow> string" where
  "stepNameOf step context = orKeep (xc_stepName context) (cs_id step)"

definition buildListenerContext :: "('w, 'i) chunkStepDefinition \<Rightarrow> ('w, 'i) chunkExecutionContext \<Rightarrow>
    rat option \<Rightarrow> listenerContext" where
  "buildListenerContext step context chunkIndex = \<lparr>
     lc_jobExecutionId = xc_jobExecutionId context,
     lc_stepExecutionId = xc_stepExecutionId context,
     lc_stepName = Some (stepNameOf step context),
     lc_jobParameters = orKeep (xc_jobParameters context) [],
     lc_chunkIndex = chunkIndex\<rparr>"

definition buildItemContext :: "('w, 'i) chunkStepDefinition \<Rightarrow> ('w, 'i) chunkExecutionContext \<Rightarrow>
    rat \<Rightarrow> itemExecutionContext" where
  "buildItemContext step context chunkIndex = \<lparr>
     ic_jobExecutionId = xc_jobExecutionId context,
     ic_stepExecutionId = xc_stepExecutionId context,
     ic_stepName = stepNameOf step context,
     ic_jobParameters = orKeep (xc_jobParameters context) [],
     ic_chunkIndex = chunkIndex\<rparr>"

definition withLastChunkIndex :: "executionContext \<Rightarrow> rat \<Rightarrow> executionContext" where
  "withLastChunkIndex ctx chunkIndex =
     \<lparr>ctx_data = JObj (mapSet ''lastChunkIndex'' (JNum (Fin chunkIndex)) (asJsonRecord (Some (ctx_data ctx)))),
      ctx_version = ctx_version ctx\<rparr>"

section \<open>Streams\<close>

fun updateStreams :: "'w itemStream list \<Rightarrow> executionContext \<Rightarrow> ('w, executionContext) M" where
  "updateStreams [] ctx = returnM ctx"
| "updateStreams (stream # streams) ctx = bindM (st_update stream ctx) (updateStreams streams)"

definition closeStreams :: "'w itemStream list \<Rightarrow> ('w, unit) M" where
  "closeStreams streams = forEachM (rev streams) st_close"

fun openStreams :: "'w itemStream list \<Rightarrow> ('w chunkState, unit) M" where
  "openStreams [] = returnM ()"
| "openStreams (stream # streams) =
     bindM (getM cst_streamContext) (\<lambda>ctx.
     bindM (inWorld (st_open stream (the ctx))) (\<lambda>ctx'.
     thenM (modifyM (\<lambda>s. s\<lparr>cst_streamContext := Some ctx',
              cst_openedStreams := cst_openedStreams s @ [stream]\<rparr>))
       (openStreams streams)))"


section \<open>Resolving the reader, processor and writer\<close>

fun refKindText :: "refKind \<Rightarrow> string" where
  "refKindText ProviderToken = ''provider-token''"
| "refKindText BuilderLambda = ''builder-lambda''"
| "refKindText MethodRef = ''method''"

definition methodOf :: "string option \<Rightarrow> string option \<Rightarrow> (string \<times> string) option" where
  "methodOf cls meth = (case (cls, meth) of
      (Some c, Some m) \<Rightarrow> if c \<noteq> [] \<and> m \<noteq> [] then Some (c, m) else None
    | _ \<Rightarrow> None)"

definition methodKey :: "string \<Rightarrow> string \<Rightarrow> string \<Rightarrow> string \<Rightarrow> string" where
  "methodKey ns role cls meth = ns @ ''::'' @ role @ ''::'' @ cls @ ''::'' @ meth"

definition notResolved :: "string \<Rightarrow> string \<Rightarrow> string \<Rightarrow> exn" where
  "notResolved role cls meth = plainError (role @ '' not resolved: '' @ cls @ ''.'' @ meth)"

definition unsupportedKind :: "string \<Rightarrow> refKind \<Rightarrow> exn" where
  "unsupportedKind role k = plainError (''Unsupported '' @ role @ '' ref kind: '' @ refKindText k)"

text \<open>\<open>{ read: fn }\<close>, for a function or for the lambda of a ref itself.\<close>

definition functionReader :: "(itemExecutionContext \<Rightarrow> ('w, 'i option) M) \<Rightarrow> ('w, 'i) itemReader" where
  "functionReader f = \<lparr>rd_read = f, rd_stream = None\<rparr>"

definition functionWriter :: "('i list \<times> itemExecutionContext \<Rightarrow> ('w, writerResult option) M) \<Rightarrow>
    ('w, 'i) itemWriter" where
  "functionWriter f = \<lparr>wt_write = f, wt_stream = None\<rparr>"

definition directCall :: "('a option \<Rightarrow> ('w, ('w, 'a, 'r, 'o) jsValue) M) \<Rightarrow> 'a \<Rightarrow> ('w, 'r) M" where
  "directCall fn args = bindM (fn (Some args)) (\<lambda>v. settleM (asPlain v))"

definition invokeReaderFactory :: "('w, 'i) readerValue \<Rightarrow> itemExecutionContext \<Rightarrow>
    ('w, ('w, 'i) itemReader) M" where
  "invokeReaderFactory factory ctx =
     bindM (case asFunction factory of
         Some f \<Rightarrow> callObject f ctx
       | None \<Rightarrow> returnM (asObject factory))
     (\<lambda>r. case r of
         Some reader \<Rightarrow> returnM reader
       | None \<Rightarrow> throwM (plainError ''@ItemReader({ factory: true }) must return an ItemReader''))"

definition resolveReader :: "('w, 'i) readerRef \<Rightarrow> ('w, 'i) chunkExecutionContext \<Rightarrow>
    ('w, 'i) chunkStepDefinition \<Rightarrow> ('w, ('w, 'i) itemReader) M" where
  "resolveReader r context step =
     (let factoryContext = buildItemContext step context 0 in
      case (ref_kind r, ref_fn r, methodOf (ref_classToken r) (ref_methodName r)) of
        (BuilderLambda, Some fn, _) \<Rightarrow>
          bindM (fn None) (\<lambda>result.
            if ref_factory r then invokeReaderFactory result factoryContext
            else (case asFunction result of
                Some f \<Rightarrow> returnM (functionReader (callResult f))
              | None \<Rightarrow> (case asObject result of
                    Some reader \<Rightarrow> returnM reader
                  | None \<Rightarrow> returnM (functionReader (directCall fn)))))
      | (ProviderToken, _, _) \<Rightarrow>
          bindM (liftE (resolveProviderToken ''reader'' (ref_token r) (xc_readerProviders context)))
            (\<lambda>resolved.
              if ref_factory r then invokeReaderFactory resolved factoryContext
              else returnM (case asObject resolved of
                  Some reader \<Rightarrow> reader
                | None \<Rightarrow> functionReader (\<lambda>_. throwM (typeError ''reader.read is not a function''))))
      | (MethodRef, _, Some (cls, meth)) \<Rightarrow>
          (case mapGet (xc_readerMethods context) (methodKey (xc_jobExecutionId2 context) ''reader'' cls meth) of
             None \<Rightarrow> throwM (notResolved ''Reader'' cls meth)
           | Some f \<Rightarrow>
               if ref_factory r then invokeReaderFactory (functionValue f) factoryContext
               else returnM (functionReader (callResult f)))
      | _ \<Rightarrow> throwM (unsupportedKind ''reader'' (ref_kind r)))"

definition resolveProcessor :: "('w, 'i) processorRef \<Rightarrow> ('w, 'i) chunkExecutionContext \<Rightarrow>
    ('w, ('w, 'i) itemProcessor) M" where
  "resolveProcessor r context =
     (case (ref_kind r, ref_fn r, methodOf (ref_classToken r) (ref_methodName r)) of
        (BuilderLambda, Some fn, _) \<Rightarrow>
          bindM (fn None) (\<lambda>result. case asFunction result of
              Some f \<Rightarrow> returnM (callResult f)
            | None \<Rightarrow> (case asObject result of
                  Some processor \<Rightarrow> returnM processor
                | None \<Rightarrow> returnM (directCall fn)))
      | (ProviderToken, _, _) \<Rightarrow>
          liftE (resolveProviderToken ''processor'' (ref_token r) (xc_processorProviders context))
      | (MethodRef, _, Some (cls, meth)) \<Rightarrow>
          (case mapGet (xc_processorMethods context) (methodKey (xc_jobExecutionId2 context) ''processor'' cls meth) of
             None \<Rightarrow> throwM (notResolved ''Processor'' cls meth)
           | Some f \<Rightarrow> returnM (callResult f))
      | _ \<Rightarrow> throwM (unsupportedKind ''processor'' (ref_kind r)))"

definition resolveWriter :: "('w, 'i) writerRef \<Rightarrow> ('w, 'i) chunkExecutionContext \<Rightarrow>
    ('w, ('w, 'i) itemWriter) M" where
  "resolveWriter r context =
     (case (ref_kind r, ref_fn r, methodOf (ref_classToken r) (ref_methodName r)) of
        (BuilderLambda, Some fn, _) \<Rightarrow>
          bindM (fn None) (\<lambda>result. case asFunction result of
              Some f \<Rightarrow> returnM (functionWriter (callResult f))
            | None \<Rightarrow> (case asObject result of
                  Some writer \<Rightarrow> returnM writer
                | None \<Rightarrow> returnM (functionWriter (directCall fn))))
      | (ProviderToken, _, _) \<Rightarrow>
          liftE (resolveProviderToken ''writer'' (ref_token r) (xc_writerProviders context))
      | (MethodRef, _, Some (cls, meth)) \<Rightarrow>
          (case mapGet (xc_writerMethods context) (methodKey (xc_jobExecutionId2 context) ''writer'' cls meth) of
             None \<Rightarrow> throwM (notResolved ''Writer'' cls meth)
           | Some f \<Rightarrow> returnM (functionWriter (callResult f)))
      | _ \<Rightarrow> throwM (unsupportedKind ''writer'' (ref_kind r)))"

section \<open>The chunk loop (execute)\<close>

text \<open>What \<open>execute\<close> computes before its loop and the loop only reads.\<close>

record ('w, 'i) chunkEnv =
  ev_step :: "('w, 'i) chunkStepDefinition"
  ev_context :: "('w, 'i) chunkExecutionContext"
  ev_listeners :: "('w, 'i) resolverMap"
  ev_skipListeners :: "('w, 'i) resolverMap"
  ev_skipPolicy :: "skipPolicy option"
  ev_retryPolicy :: "retryPolicy option"
  ev_skipLimit :: number
  ev_retryLimit :: number
  ev_partition :: "(int \<times> int) option"
  ev_reader :: "('w, 'i) itemReader"
  ev_processor :: "('w, 'i) itemProcessor option"
  ev_writer :: "('w, 'i) itemWriter"

definition addSkips :: "int \<Rightarrow> ('w chunkState, unit) M" where
  "addSkips n = modifyM (\<lambda>s. s\<lparr>cst_skipCount := cst_skipCount s + n\<rparr>)"

definition readOptions :: "('w, 'i) chunkEnv \<Rightarrow> listenerContext \<Rightarrow> ('w chunkState, 'i option) phaseOptions" where
  "readOptions env lctx = \<lparr>po_phase = ReadPhase, po_skipPolicy = ev_skipPolicy env,
     po_retryPolicy = ev_retryPolicy env, po_skipLimit = ev_skipLimit env,
     po_retryLimit = ev_retryLimit env, po_getSkipCount = cst_skipCount,
     po_onSkip = (\<lambda>err. thenM (addSkips 1) (inWorld (invokeOnSkipRead (ev_skipListeners env) err))),
     po_before = inWorld (invokeBeforeRead (ev_listeners env) lctx),
     po_after = (\<lambda>item. case item of
         None \<Rightarrow> returnM ()
       | Some x \<Rightarrow> inWorld (invokeAfterRead (ev_listeners env) x lctx)),
     po_onError = (\<lambda>err. inWorld (invokeOnReadError (ev_listeners env) err lctx))\<rparr>"

definition processOptions :: "('w, 'i) chunkEnv \<Rightarrow> listenerContext \<Rightarrow> 'i \<Rightarrow>
    ('w chunkState, 'i option) phaseOptions" where
  "processOptions env lctx item = \<lparr>po_phase = ProcessPhase, po_skipPolicy = ev_skipPolicy env,
     po_retryPolicy = ev_retryPolicy env, po_skipLimit = ev_skipLimit env,
     po_retryLimit = ev_retryLimit env, po_getSkipCount = cst_skipCount,
     po_onSkip = (\<lambda>err. thenM (addSkips 1) (inWorld (invokeOnSkipProcess (ev_skipListeners env) item err))),
     po_before = inWorld (invokeBeforeProcess (ev_listeners env) item lctx),
     po_after = (\<lambda>value. inWorld (invokeAfterProcess (ev_listeners env) item value lctx)),
     po_onError = (\<lambda>err. inWorld (invokeOnProcessError (ev_listeners env) item err lctx))\<rparr>"

definition writeOptions :: "('w, 'i) chunkEnv \<Rightarrow> listenerContext \<Rightarrow> 'i list \<Rightarrow>
    ('w chunkState, writerResult option) phaseOptions" where
  "writeOptions env lctx processed = \<lparr>po_phase = WritePhase, po_skipPolicy = ev_skipPolicy env,
     po_retryPolicy = ev_retryPolicy env, po_skipLimit = ev_skipLimit env,
     po_retryLimit = ev_retryLimit env, po_getSkipCount = cst_skipCount,
     po_onSkip = (\<lambda>err. thenM (addSkips 1) (inWorld (invokeOnSkipWrite (ev_skipListeners env) processed err))),
     po_before = inWorld (invokeBeforeWrite (ev_listeners env) processed lctx),
     po_after = (\<lambda>value. inWorld (invokeAfterWrite (ev_listeners env) processed value lctx)),
     po_onError = (\<lambda>err. inWorld (invokeOnWriteError (ev_listeners env) processed err lctx))\<rparr>"

text \<open>The read phase: the first argument is how many turns the \<open>for\<close> loop has left.\<close>

fun readItems :: "nat \<Rightarrow> ('w, 'i) chunkEnv \<Rightarrow> itemExecutionContext \<Rightarrow> listenerContext \<Rightarrow> 'i list \<Rightarrow>
    ('w chunkState, 'i list) M" where
  "readItems 0 env ictx lctx items = returnM items"
| "readItems (Suc n) env ictx lctx items =
     bindM (runPhase (inWorld (rd_read (ev_reader env) ictx)) (readOptions env lctx)) (\<lambda>r. case r of
         PhaseSkipped \<Rightarrow> readItems n env ictx lctx items
       | PhaseOk None \<Rightarrow> returnM items
       | PhaseOk (Some item) \<Rightarrow>
           thenM (modifyM (\<lambda>s. s\<lparr>cst_readCount := cst_readCount s + 1\<rparr>))
             (readItems n env ictx lctx (items @ [item])))"

fun processItems :: "'i list \<Rightarrow> ('w, 'i) chunkEnv \<Rightarrow> itemExecutionContext \<Rightarrow> listenerContext \<Rightarrow> 'i list \<Rightarrow>
    ('w chunkState, 'i list) M" where
  "processItems [] env ictx lctx processed = returnM processed"
| "processItems (item # items) env ictx lctx processed = (case ev_processor env of
       None \<Rightarrow> processItems items env ictx lctx (processed @ [item])
     | Some process \<Rightarrow>
         bindM (runPhase (inWorld (process (item, ictx))) (processOptions env lctx item)) (\<lambda>r. case r of
             PhaseSkipped \<Rightarrow> processItems items env ictx lctx processed
           | PhaseOk (Some value) \<Rightarrow> processItems items env ictx lctx (processed @ [value])
           | PhaseOk None \<Rightarrow> thenM (addSkips 1) (processItems items env ictx lctx processed)))"

definition writeItems :: "'i list \<Rightarrow> ('w, 'i) chunkEnv \<Rightarrow> itemExecutionContext \<Rightarrow> listenerContext \<Rightarrow>
    ('w chunkState, unit) M" where
  "writeItems processed env ictx lctx =
     (if processed = [] then returnM ()
      else bindM (runPhase
          (inWorld (xc_withTransaction (ev_context env) (wt_write (ev_writer env) (processed, ictx))))
          (writeOptions env lctx processed))
        (\<lambda>r. case r of
            PhaseSkipped \<Rightarrow> returnM ()
          | PhaseOk (Some v) \<Rightarrow> modifyM (\<lambda>s. s\<lparr>cst_writeCount := cst_writeCount s + wr_written v,
                cst_skipCount := cst_skipCount s + wr_skipped v\<rparr>)
          | PhaseOk None \<Rightarrow>
              modifyM (\<lambda>s. s\<lparr>cst_writeCount := cst_writeCount s + int (length processed)\<rparr>)))"

definition saveCheckpoint :: "('w, 'i) chunkEnv \<Rightarrow> ('w chunkState, unit) M" where
  "saveCheckpoint env =
     (let repo = xc_jobRepository (ev_context env);
          scope = StepScope (xc_stepExecutionId (ev_context env)) in
      thenM (modifyM (\<lambda>s. s\<lparr>cst_streamContext :=
               Some (withLastChunkIndex (the (cst_streamContext s)) (cst_chunkIndex s))\<rparr>))
      (bindM (getM (\<lambda>s. (cst_openedStreams s, the (cst_streamContext s)))) (\<lambda>(streams, ctx).
       bindM (inWorld (updateStreams streams ctx)) (\<lambda>updated.
       thenM (modifyM (\<lambda>s. s\<lparr>cst_streamContext := Some updated\<rparr>))
       (thenM (inWorld (repo_saveExecutionContext repo scope updated None))
       (bindM (inWorld (repo_getExecutionContext repo scope)) (\<lambda>stored.
        modifyM (\<lambda>s. s\<lparr>cst_streamContext := Some stored\<rparr>))))))))"

definition progressOf :: "int \<Rightarrow> 'w chunkState \<Rightarrow> 'i listenerArg" where
  "progressOf commits s = LChunk \<lparr>cp_status = StepCompleted, cp_readCount = cst_readCount s,
     cp_writeCount = cst_writeCount s, cp_skipCount = cst_skipCount s, cp_commitCount = commits\<rparr>"

definition remainingOf :: "('w, 'i) chunkEnv \<Rightarrow> 'w chunkState \<Rightarrow> int" where
  "remainingOf env s = (case ev_partition env of
      None \<Rightarrow> cs_chunkSize (ev_step env)
    | Some (lo, hi) \<Rightarrow> max 0 (hi - lo - cst_readCount s))"

fun drainItems :: "nat \<Rightarrow> ('w, 'i) chunkEnv \<Rightarrow> itemExecutionContext \<Rightarrow> nat \<Rightarrow> ('w chunkState, nat) M" where
  "drainItems 0 env ictx drained = returnM drained"
| "drainItems (Suc n) env ictx drained =
     bindM (inWorld (rd_read (ev_reader env) ictx)) (\<lambda>item. case item of
         None \<Rightarrow> returnM drained
       | Some _ \<Rightarrow> drainItems n env ictx (drained + 1))"

text \<open>
  One turn of \<open>while (true)\<close>; the result says whether the loop goes on. \<open>skipTurn\<close> is the
  restart branch, \<open>workTurn\<close> the rest of the body.
\<close>

definition skipTurn :: "('w, 'i) chunkEnv \<Rightarrow> ('w chunkState, bool) M" where
  "skipTurn env =
     bindM (getM (\<lambda>s. (remainingOf env s, cst_chunkIndex s))) (\<lambda>(skipCap, chunkIndex).
       if skipCap = 0 then returnM False
       else bindM (drainItems (nat skipCap) env (buildItemContext (ev_step env) (ev_context env) chunkIndex) 0)
         (\<lambda>drained.
           if drained = 0 then returnM False
           else thenM (modifyM (\<lambda>s. s\<lparr>cst_chunkIndex := cst_chunkIndex s + 1\<rparr>)) (returnM True)))"

definition workTurn :: "('w, 'i) chunkEnv \<Rightarrow> ('w chunkState, bool) M" where
  "workTurn env =
     bindM (getM (\<lambda>s. (remainingOf env s, cst_chunkIndex s))) (\<lambda>(remaining, chunkIndex).
       if remaining = 0 then returnM False
       else
         (let ictx = buildItemContext (ev_step env) (ev_context env) chunkIndex;
              lctx = buildListenerContext (ev_step env) (ev_context env) (Some chunkIndex) in
          thenM (inWorld (invokeBefore (ev_listeners env) KChunk lctx None))
          (bindM (readItems (nat remaining) env ictx lctx []) (\<lambda>items.
            if items = [] then
              bindM (getM (\<lambda>s. progressOf (cst_commitCount s) s)) (\<lambda>progress.
              thenM (inWorld (invokeAfter (ev_listeners env) KChunk lctx (Some progress)))
                (returnM False))
            else
              bindM (processItems items env ictx lctx []) (\<lambda>processed.
              thenM (writeItems processed env ictx lctx)
              (thenM (saveCheckpoint env)
              (bindM (getM (\<lambda>s. progressOf (cst_commitCount s + 1) s)) (\<lambda>progress.
               thenM (inWorld (invokeAfter (ev_listeners env) KChunk lctx (Some progress)))
               (thenM (modifyM (\<lambda>s. s\<lparr>cst_commitCount := cst_commitCount s + 1,
                        cst_chunkIndex := cst_chunkIndex s + 1\<rparr>))
                 (returnM True))))))))))"

definition inRestart :: "('w, 'i) chunkEnv \<Rightarrow> 'w chunkState \<Rightarrow> bool" where
  "inRestart env s \<longleftrightarrow> (case xc_resumeFromChunkIndex (ev_context env) of
      None \<Rightarrow> False
    | Some k \<Rightarrow> rd_stream (ev_reader env) = None \<and> cst_chunkIndex s \<le> k)"

definition chunkTurn :: "('w, 'i) chunkEnv \<Rightarrow> ('w chunkState, bool) M" where
  "chunkTurn env = bindM (getM (inRestart env)) (\<lambda>restart.
     if restart then skipTurn env else workTurn env)"

fun chunkLoop :: "nat \<Rightarrow> ('w, 'i) chunkEnv \<Rightarrow> ('w chunkState, unit) M" where
  "chunkLoop 0 env = outOfFuelM"
| "chunkLoop (Suc fuel) env =
     bindM (chunkTurn env) (\<lambda>more. if more then chunkLoop fuel env else returnM ())"

section \<open>execute\<close>

definition partitionOf :: "('w, 'i) chunkStepDefinition \<Rightarrow> ('w, 'i) chunkExecutionContext \<Rightarrow>
    exn + (int \<times> int) option" where
  "partitionOf step context = (case (xc_partitionIndex context, xc_partitionCount context) of
      (Some i, Some n) \<Rightarrow>
        (case enforcePartitionIndex (Some i) n of
           Inl e \<Rightarrow> Inl e
         | Inr _ \<Rightarrow>
             (case Option.bind (cs_partitions step) pc_range of
                None \<Rightarrow> Inr None
              | Some rangeFn \<Rightarrow>
                  (let (lo, hi) = rangeFn i n in
                   if lo < 0 \<or> hi < lo
                   then Inl (plainError (''[ChunkStepExecutor] partitions.range('' @ showNumber i @ '', ''
                          @ showNumber n @ '') returned invalid ['' @ showInt lo @ '', ''
                          @ showInt hi @ '')''))
                   else Inr (Some (lo, hi)))))
    | _ \<Rightarrow> Inr None)"

definition stepResultOf :: "StepStatus \<Rightarrow> string \<Rightarrow> string \<Rightarrow> 'w chunkState \<Rightarrow> stepResult" where
  "stepResultOf status code msg s = \<lparr>sr_status = status, sr_exitCode = code, sr_exitMessage = msg,
     sr_readCount = cst_readCount s, sr_writeCount = cst_writeCount s, sr_skipCount = cst_skipCount s,
     sr_commitCount = Some (cst_commitCount s)\<rparr>"

text \<open>The body of the \<open>try\<close> block, up to the end of the loop.\<close>

definition setupAndLoop :: "nat \<Rightarrow> ('w, 'i) chunkEnv \<Rightarrow> ('w chunkState, unit) M" where
  "setupAndLoop fuel env0 =
     (let step = ev_step env0; context = ev_context env0 in
      bindM (inWorld (resolveReader (cs_reader step) context step)) (\<lambda>reader.
      bindM (case cs_processor step of
          None \<Rightarrow> returnM None
        | Some p \<Rightarrow> bindM (inWorld (resolveProcessor p context)) (\<lambda>pr. returnM (Some pr))) (\<lambda>processor.
      bindM (inWorld (resolveWriter (cs_writer step) context)) (\<lambda>writer.
      let streams = (case rd_stream reader of None \<Rightarrow> [] | Some st \<Rightarrow> [st])
            @ (case wt_stream writer of None \<Rightarrow> [] | Some st \<Rightarrow> [st]);
          env = env0\<lparr>ev_reader := reader, ev_processor := processor, ev_writer := writer\<rparr> in
      bindM (inWorld (repo_getExecutionContext (xc_jobRepository context)
                 (StepScope (xc_stepExecutionId context)))) (\<lambda>ctx.
      thenM (modifyM (\<lambda>s. s\<lparr>cst_streamContext := Some ctx\<rparr>))
      (thenM (openStreams streams)
      (thenM (case (rd_stream reader, xc_resumeFromChunkIndex context) of
          (Some _, Some k) \<Rightarrow> modifyM (\<lambda>s. s\<lparr>cst_chunkIndex := k + 1\<rparr>)
        | _ \<Rightarrow> returnM ())
       (chunkLoop fuel env))))))))"

text \<open>Taking the opened streams out of the variable and closing them.\<close>

definition takeAndClose :: "('w chunkState, unit) M" where
  "takeAndClose = bindM (getM cst_openedStreams) (\<lambda>streams.
     thenM (modifyM (\<lambda>s. s\<lparr>cst_openedStreams := []\<rparr>)) (inWorld (closeStreams streams)))"

definition finishCompleted :: "('w, 'i) chunkEnv \<Rightarrow> ('w chunkState, stepResult) M" where
  "finishCompleted env =
     thenM takeAndClose
     (bindM (getM (stepResultOf StepCompleted ''COMPLETED'' [])) (\<lambda>result.
      inWorld (invokeAfterStepResult (ev_listeners env)
        (buildListenerContext (ev_step env) (ev_context env) None) result)))"

definition finishFailed :: "('w, 'i) chunkEnv \<Rightarrow> exn \<Rightarrow> ('w chunkState, stepResult) M" where
  "finishFailed env err =
     (let lctx = buildListenerContext (ev_step env) (ev_context env) in
      bindM (catchM (thenM takeAndClose (returnM err)) (\<lambda>closeErr. returnM closeErr)) (\<lambda>finalError.
      bindM (getM cst_chunkIndex) (\<lambda>chunkIndex.
      thenM (inWorld (invokeOnError (ev_listeners env) KChunk (lctx (Some chunkIndex)) finalError))
      (bindM (getM (stepResultOf StepFailed ''FAILED'' (errorText finalError))) (\<lambda>result.
       thenM (inWorld (invokeOnError (ev_listeners env) KStep (lctx None) finalError))
       (inWorld (invokeAfterStepResult (ev_listeners env) (lctx None) result)))))))"

definition executeBody :: "nat \<Rightarrow> ('w, 'i) chunkEnv \<Rightarrow> ('w chunkState, stepResult) M" where
  "executeBody fuel env =
     thenM (inWorld (invokeBefore (ev_listeners env) KStep
              (buildListenerContext (ev_step env) (ev_context env) None) None))
       (catchM (thenM (setupAndLoop fuel env) (finishCompleted env)) (finishFailed env))"

definition compileOptional :: "('c \<Rightarrow> exn + 'p) \<Rightarrow> 'c option \<Rightarrow> exn + 'p option" where
  "compileOptional f c = (case c of None \<Rightarrow> Inr None | Some x \<Rightarrow> map_sum id Some (f x))"

text \<open>
  The environment before the reader, processor and writer are resolved holds placeholders
  for them that fail when called; \<open>setupAndLoop\<close> replaces all three.
\<close>

definition unresolvedReader :: "('w, 'i) itemReader" where
  "unresolvedReader = functionReader (\<lambda>_. outOfFuelM)"

definition unresolvedWriter :: "('w, 'i) itemWriter" where
  "unresolvedWriter = functionWriter (\<lambda>_. outOfFuelM)"

definition prepareEnv :: "('w, 'i) chunkStepDefinition \<Rightarrow> ('w, 'i) chunkExecutionContext \<Rightarrow>
    exn + ('w, 'i) chunkEnv" where
  "prepareEnv step context =
     (case compileOptional compileSkipPolicy (cs_skipPolicy step) of
        Inl e \<Rightarrow> Inl e
      | Inr skipPolicy \<Rightarrow>
     (case compileOptional compileRetryPolicy (cs_retryPolicy step) of
        Inl e \<Rightarrow> Inl e
      | Inr retryPolicy \<Rightarrow>
     (case partitionOf step context of
        Inl e \<Rightarrow> Inl e
      | Inr part \<Rightarrow>
          (let listenerResolvers = orKeep (xc_listenerResolvers context) [] in
           Inr \<lparr>ev_step = step, ev_context = context, ev_listeners = listenerResolvers,
             ev_skipListeners = orKeep (xc_skipListenerResolvers context) listenerResolvers,
             ev_skipPolicy = skipPolicy, ev_retryPolicy = retryPolicy,
             ev_skipLimit = (case cs_skipPolicy step of None \<Rightarrow> Fin 0 | Some c \<Rightarrow> sc_limit c),
             ev_retryLimit = (case cs_retryPolicy step of None \<Rightarrow> Fin 0 | Some c \<Rightarrow> rc_limit c),
             ev_partition = part, ev_reader = unresolvedReader, ev_processor = None,
             ev_writer = unresolvedWriter\<rparr>))))"

definition executeChunkStep :: "nat \<Rightarrow> ('w, 'i) chunkStepDefinition \<Rightarrow> ('w, 'i) chunkExecutionContext \<Rightarrow>
    ('w, stepResult) M" where
  "executeChunkStep fuel step context w = (case prepareEnv step context of
      Inl e \<Rightarrow> (Throw e, w)
    | Inr env \<Rightarrow> (case executeBody fuel env (initialChunkState w) of (r, s) \<Rightarrow> (r, cst_world s)))"

end
