(* ===== verification/ChunkPipeline.thy ===== *)
theory ChunkPipeline
  imports ChunkStepExecutor
begin

text \<open>
  What the chunk loop computes. The contract of the parties it drives (a reader that gives
  the items of a source one by one, a processor, a transactional writer, a repository) is a
  locale; inside it the loop is shown to write the processed items chunk by chunk, to leave
  a checkpoint after every chunk, and, after a failure, to resume behind the last one.
\<close>

section \<open>Quiet listeners\<close>

lemma inWorld_Value: "m (cst_world s) = (r, w) \<Longrightarrow> inWorld m s = (r, s\<lparr>cst_world := w\<rparr>)"
  by (simp add: inWorld_apply)

lemma inWorld_returnM [simp]: "inWorld (returnM x) = returnM x"
  by (rule ext) (simp add: inWorld_apply)

section \<open>One phase\<close>

lemma attemptM_Value: "m s = (Value v, s') \<Longrightarrow> attemptM m s = (Value (Inr v), s')"
  by (simp add: attemptM_def catchM_def bindM_def)

lemma attemptM_Throw: "m s = (Throw e, s') \<Longrightarrow> attemptM m s = (Value (Inl e), s')"
  by (simp add: attemptM_def catchM_def bindM_def)

lemma outerCap_Suc: "\<exists>n. outerCap opts = Suc n"
  by (simp add: outerCap_def)

lemma runPhase_ok:
  assumes "po_before opts = returnM ()" "\<And>v. po_after opts v = returnM ()" "op s = (Value v, s')"
  shows "runPhase op opts s = (Value (PhaseOk v), s')"
  using outerCap_Suc [of opts] assms by (auto simp: runPhase_def attemptM_Value)

lemma runPhase_fail:
  assumes "po_before opts = returnM ()" "\<And>e. po_onError opts e = returnM ()"
    and "po_skipPolicy opts = None" "po_retryPolicy opts = None" "op s = (Throw e, s')"
  shows "runPhase op opts s = (Throw e, s')"
  using assms by (simp add: runPhase_def outerCap_def attemptM_Throw consultSkip_def consultRetry_def)

section \<open>Chunks of a list\<close>

function chunksOf :: "nat \<Rightarrow> 'a list \<Rightarrow> 'a list list" where
  "chunksOf n xs = (if xs = [] \<or> n = 0 then [] else take n xs # chunksOf n (drop n xs))"
  by pat_completeness auto
termination
  by (relation "measure (\<lambda>(n, xs). length xs)") auto

declare chunksOf.simps [simp del]

lemma chunksOf_Nil [simp]: "chunksOf n [] = []"
  by (simp add: chunksOf.simps)

lemma chunksOf_step: "0 < n \<Longrightarrow> xs \<noteq> [] \<Longrightarrow> chunksOf n xs = take n xs # chunksOf n (drop n xs)"
  by (subst chunksOf.simps) simp

lemma concat_chunksOf: "0 < n \<Longrightarrow> concat (chunksOf n xs) = xs"
proof (induction n xs rule: chunksOf.induct)
  case (1 n xs)
  then show ?case by (cases "xs = []") (simp_all add: chunksOf_step)
qed

lemma length_chunksOf: "length (chunksOf n xs) \<le> length xs"
proof (induction n xs rule: chunksOf.induct)
  case (1 n xs)
  show ?case
  proof (cases "xs = [] \<or> n = 0")
    case False
    with 1 have "length (chunksOf n (drop n xs)) \<le> length xs - n" by simp
    moreover have "length xs - n < length xs" using False by simp
    ultimately have "length (chunksOf n (drop n xs)) < length xs" by linarith
    then show ?thesis using False by (simp add: chunksOf_step)
  qed (auto simp: chunksOf.simps)
qed

lemma chunksOf_drop: "0 < n \<Longrightarrow> chunksOf n (drop (k * n) xs) = drop k (chunksOf n xs)"
proof (induction k arbitrary: xs)
  case (Suc k)
  show ?case
  proof (cases "xs = []")
    case False
    have "drop (Suc k * n) xs = drop (k * n) (drop n xs)" by (simp add: add.commute)
    with Suc.IH [OF Suc.prems, of "drop n xs"] Suc.prems False show ?thesis by (simp add: chunksOf_step [of n xs])
  qed simp
qed simp

lemma drop_chunksOf: "0 < n \<Longrightarrow> drop (length (chunksOf n xs) * n) xs = []"
proof (rule ccontr)
  assume n: "0 < n" and "drop (length (chunksOf n xs) * n) xs \<noteq> []"
  then have "chunksOf n (drop (length (chunksOf n xs) * n) xs) \<noteq> []"
    using chunksOf_step [of n "drop (length (chunksOf n xs) * n) xs"] by auto
  then show False using n by (simp add: chunksOf_drop)
qed

text \<open>
  The reference: the batches the chunks of a list give, each chunk's surviving items, empty
  batches left out.
\<close>

definition batchOf :: "('a \<Rightarrow> 'b option) \<Rightarrow> 'a list \<Rightarrow> 'b list" where
  "batchOf f chunk = List.map_filter f chunk"

definition batches :: "('a \<Rightarrow> 'b option) \<Rightarrow> 'a list list \<Rightarrow> 'b list list" where
  "batches f chunks = filter (\<lambda>b. b \<noteq> []) (map (batchOf f) chunks)"

lemma batches_simps [simp]:
  "batches f [] = []"
  "batches f (c # cs) = (if batchOf f c = [] then batches f cs else batchOf f c # batches f cs)"
  "batches f (cs @ ds) = batches f cs @ batches f ds"
  by (simp_all add: batches_def)

lemma concat_filter_nonempty: "concat (filter (\<lambda>b. b \<noteq> []) bs) = concat bs"
  by (induction bs) auto

lemma concat_batches: "0 < n \<Longrightarrow> concat (batches f (chunksOf n xs)) = List.map_filter f xs"
proof -
  have "concat (map (List.map_filter f) cs) = List.map_filter f (concat cs)" for cs
    by (induction cs) (simp_all add: map_filter_def)
  then show "0 < n \<Longrightarrow> ?thesis"
    by (simp add: batches_def batchOf_def [abs_def] concat_filter_nonempty concat_chunksOf)
qed

text \<open>How many chunks are committed before the writer stops, when \<open>n\<close> batches were written.\<close>

fun committed :: "(nat \<Rightarrow> bool) \<Rightarrow> ('a \<Rightarrow> 'b option) \<Rightarrow> nat \<Rightarrow> 'a list list \<Rightarrow> nat" where
  "committed stop f n [] = 0"
| "committed stop f n (c # cs) =
     (if batchOf f c = [] then Suc (committed stop f n cs)
      else if stop n then 0 else Suc (committed stop f (Suc n) cs))"

lemma committed_le: "committed stop f n cs \<le> length cs"
  by (induction cs arbitrary: n) auto

lemma committed_all: "(\<And>n. \<not> stop n) \<Longrightarrow> committed stop f n cs = length cs"
  by (induction cs arbitrary: n) auto

section \<open>The contract of the parties\<close>

definition savable :: "executionContext \<Rightarrow> bool" where
  "savable c \<longleftrightarrow> assertJsonTree ''$'' 0 (ctx_data c) = Inr ()"

definition lastIndexOf :: "executionContext \<Rightarrow> rat option" where
  "lastIndexOf c = (case mapGet (asJsonRecord (Some (ctx_data c))) ''lastChunkIndex'' of
      Some (JNum (Fin q)) \<Rightarrow> Some q
    | _ \<Rightarrow> None)"

lemma lastIndexOf_withLastChunkIndex [simp]: "lastIndexOf (withLastChunkIndex c q) = Some q"
  by (simp add: lastIndexOf_def withLastChunkIndex_def)

lemma set_mapSet: "set (mapSet k v m) \<subseteq> insert (k, v) (set m)"
  by (induction m) auto

lemma savable_withLastChunkIndex: "savable c \<Longrightarrow> savable (withLastChunkIndex c q)"
proof -
  assume "savable c"
  then have "\<forall>(k, x) \<in> set (asJsonRecord (Some (ctx_data c))). assertJsonTree (''$'' @ ''.'' @ k) 1 x = Inr ()"
    by (cases "ctx_data c") (auto simp: savable_def asJsonRecord_def MAX_DEPTH_def)
  then show ?thesis
    using set_mapSet [of "''lastChunkIndex''" "JNum (Fin q)" "asJsonRecord (Some (ctx_data c))"]
    by (fastforce simp: savable_def withLastChunkIndex_def MAX_DEPTH_def)
qed

text \<open>
  The streams among the parties, opening them on the stored context, and committing a chunk:
  what the code does to the context between two chunks.
\<close>

definition streamsOf :: "('w, 'i) chunkEnv \<Rightarrow> 'w itemStream list" where
  "streamsOf env = (case rd_stream (ev_reader env) of None \<Rightarrow> [] | Some st \<Rightarrow> [st])
     @ (case wt_stream (ev_writer env) of None \<Rightarrow> [] | Some st \<Rightarrow> [st])"

fun openAll :: "'w itemStream list \<Rightarrow> executionContext \<Rightarrow> ('w, executionContext) M" where
  "openAll [] c = returnM c"
| "openAll (st # sts) c = bindM (st_open st c) (openAll sts)"

definition openContext :: "('w, 'i) chunkEnv \<Rightarrow> ('w, executionContext) M" where
  "openContext env = bindM (repo_getExecutionContext (xc_jobRepository (ev_context env))
     (StepScope (xc_stepExecutionId (ev_context env)))) (openAll (streamsOf env))"

definition storeContext :: "('w, 'i) chunkEnv \<Rightarrow> rat \<Rightarrow> executionContext \<Rightarrow> ('w, executionContext) M" where
  "storeContext env k c =
     (let repo = xc_jobRepository (ev_context env); scope = StepScope (xc_stepExecutionId (ev_context env)) in
      bindM (updateStreams (streamsOf env) (withLastChunkIndex c k)) (\<lambda>updated.
      thenM (repo_saveExecutionContext repo scope updated None) (repo_getExecutionContext repo scope)))"

text \<open>Without streams, opening and committing are the repository's doing alone.\<close>

lemma streamsOf_Nil:
  "rd_stream (ev_reader env) = None \<Longrightarrow> wt_stream (ev_writer env) = None \<Longrightarrow> streamsOf env = []"
  by (simp add: streamsOf_def)

lemma openAll_apply:
  "openAll streams c (cst_world s) = (Value c', w') \<Longrightarrow> cst_streamContext s = Some c \<Longrightarrow>
    openStreams streams s = (Value (), s\<lparr>cst_world := w', cst_streamContext := Some c',
      cst_openedStreams := cst_openedStreams s @ streams\<rparr>)"
proof (induction streams arbitrary: s c)
  case Nil
  then show ?case by (cases s) simp
next
  case (Cons st streams)
  from Cons.prems(1) obtain c1 w1 where st: "st_open st c (cst_world s) = (Value c1, w1)"
    "openAll streams c1 w1 = (Value c', w')" by (auto elim: bindM_Value_elim)
  let ?s = "s\<lparr>cst_world := w1, cst_streamContext := Some c1, cst_openedStreams := cst_openedStreams s @ [st]\<rparr>"
  from Cons.IH [of c1 ?s] st(2) Cons.prems(2) st(1) show ?case by (simp add: inWorld_apply)
qed

text \<open>
  The contract of the parties of a step. \<open>src\<close> is what the reader has left, \<open>sink\<close> what the
  writer has got, and \<open>checkpoint\<close> what the repository holds of the last commit: \<open>mark k xs\<close>
  when chunk \<open>k\<close> was committed with \<open>xs\<close> left to read.
\<close>

locale chunk_pipeline =
  fixes env :: "('w, 'i) chunkEnv"
    and ok :: "'w \<Rightarrow> bool"
    and src :: "'w \<Rightarrow> 'i list"
    and sink :: "'w \<Rightarrow> 'i list list"
    and checkpoint :: "'w \<Rightarrow> 'p"
    and mark :: "rat \<Rightarrow> 'i list \<Rightarrow> 'p"
    and f :: "'i \<Rightarrow> 'i option"
    and stop :: "nat \<Rightarrow> bool"
    and writeError :: exn
  assumes quiet_listeners: "quiet (ev_listeners env)" "quiet (ev_skipListeners env)"
    and chunkSize_pos: "0 < cs_chunkSize (ev_step env)"
    and no_partition: "ev_partition env = None"
    and no_policies: "stop n \<Longrightarrow> ev_skipPolicy env = None \<and> ev_retryPolicy env = None"
    and read_end: "ok w \<Longrightarrow> src w = [] \<Longrightarrow> \<exists>w'. rd_read (ev_reader env) ictx w = (Value None, w')
        \<and> ok w' \<and> src w' = [] \<and> sink w' = sink w \<and> checkpoint w' = checkpoint w"
    and read_item: "ok w \<Longrightarrow> src w = x # xs \<Longrightarrow> \<exists>w'. rd_read (ev_reader env) ictx w = (Value (Some x), w')
        \<and> ok w' \<and> src w' = xs \<and> sink w' = sink w \<and> checkpoint w' = checkpoint w"
    and no_processor: "ev_processor env = None \<Longrightarrow> f = Some"
    and process_item: "ev_processor env = Some p \<Longrightarrow> ok w \<Longrightarrow> \<exists>w'. p (x, ictx) w = (Value (f x), w')
        \<and> ok w' \<and> src w' = src w \<and> sink w' = sink w \<and> checkpoint w' = checkpoint w"
    and write_ok: "ok w \<Longrightarrow> \<not> stop (length (sink w)) \<Longrightarrow>
      \<exists>w'. xc_withTransaction (ev_context env) (wt_write (ev_writer env) (items, ictx)) w = (Value None, w')
        \<and> ok w' \<and> src w' = src w \<and> sink w' = sink w @ [items] \<and> checkpoint w' = checkpoint w"
    and write_fails: "ok w \<Longrightarrow> stop (length (sink w)) \<Longrightarrow>
      \<exists>w'. xc_withTransaction (ev_context env) (wt_write (ev_writer env) (items, ictx)) w
          = (Throw writeError, w')
        \<and> ok w' \<and> src w' = src w \<and> sink w' = sink w \<and> checkpoint w' = checkpoint w"
    and commit_context: "ok w \<Longrightarrow> savable c \<Longrightarrow>
      \<exists>c' w'. storeContext env k c w = (Value c', w') \<and> savable c'
        \<and> ok w' \<and> src w' = src w \<and> sink w' = sink w \<and> checkpoint w' = mark k (src w)"
begin

abbreviation "chunkLen \<equiv> nat (cs_chunkSize (ev_step env))"

lemma size_pos: "0 < chunkLen"
  using chunkSize_pos by simp

text \<open>Reading a chunk.\<close>

lemma readItems_reads:
  assumes "ok (cst_world s)"
  shows "\<exists>w'. readItems n env ictx lctx acc s = (Value (acc @ take n (src (cst_world s))),
        s\<lparr>cst_world := w', cst_readCount := cst_readCount s + int (min n (length (src (cst_world s))))\<rparr>)
      \<and> ok w' \<and> src w' = drop n (src (cst_world s)) \<and> sink w' = sink (cst_world s)
      \<and> checkpoint w' = checkpoint (cst_world s)"
  using assms
proof (induction n arbitrary: acc s)
  case 0
  then show ?case by (intro exI [of _ "cst_world s"]) simp
next
  case (Suc n)
  have phase: "runPhase (inWorld (rd_read (ev_reader env) ictx)) (readOptions env lctx) s
      = (Value (PhaseOk v), s\<lparr>cst_world := w'\<rparr>)"
    if "rd_read (ev_reader env) ictx (cst_world s) = (Value v, w')" for v w'
    using that quiet_listeners
    by (intro runPhase_ok inWorld_Value) (auto simp: readOptions_def invoke_quiet split: option.splits)
  show ?case
  proof (cases "src (cst_world s)")
    case Nil
    then obtain w' where "rd_read (ev_reader env) ictx (cst_world s) = (Value None, w')" "ok w'"
      "src w' = []" "sink w' = sink (cst_world s)" "checkpoint w' = checkpoint (cst_world s)"
      using read_end [OF Suc.prems] by blast
    with Nil phase show ?thesis by (intro exI [of _ w']) simp
  next
    case (Cons x xs)
    then obtain w' where r: "rd_read (ev_reader env) ictx (cst_world s) = (Value (Some x), w')" "ok w'"
      "src w' = xs" "sink w' = sink (cst_world s)" "checkpoint w' = checkpoint (cst_world s)"
      using read_item [OF Suc.prems] by blast
    let ?s = "s\<lparr>cst_world := w', cst_readCount := cst_readCount s + 1\<rparr>"
    have "readItems (Suc n) env ictx lctx acc s = readItems n env ictx lctx (acc @ [x]) ?s"
      using phase [OF r(1)] by simp
    with Suc.IH [of ?s "acc @ [x]"] r Cons show ?thesis by (fastforce simp: algebra_simps)
  qed
qed

text \<open>Processing a chunk.\<close>

lemma processItems_maps:
  assumes "ok (cst_world s)"
  shows "\<exists>w'. processItems items env ictx lctx acc s = (Value (acc @ batchOf f items),
        s\<lparr>cst_world := w', cst_skipCount := cst_skipCount s + int (length items - length (batchOf f items))\<rparr>)
      \<and> ok w' \<and> src w' = src (cst_world s) \<and> sink w' = sink (cst_world s)
      \<and> checkpoint w' = checkpoint (cst_world s)"
  using assms
proof (induction items arbitrary: acc s)
  case Nil
  then show ?case by (intro exI [of _ "cst_world s"]) (simp add: batchOf_def map_filter_def)
next
  case (Cons x xs)
  have len: "length (batchOf f xs) \<le> length xs"
    by (simp add: batchOf_def map_filter_def)
  show ?case
  proof (cases "ev_processor env")
    case None
    then have "f x = Some x" using no_processor by simp
    with Cons.IH [OF Cons.prems, of "acc @ [x]"] None show ?thesis
      by (simp add: batchOf_def map_filter_def)
  next
    case (Some p)
    then obtain w' where r: "p (x, ictx) (cst_world s) = (Value (f x), w')" "ok w'"
      "src w' = src (cst_world s)" "sink w' = sink (cst_world s)"
      "checkpoint w' = checkpoint (cst_world s)"
      using process_item [OF Some Cons.prems] by blast
    have phase: "runPhase (inWorld (p (x, ictx))) (processOptions env lctx x) s
        = (Value (PhaseOk (f x)), s\<lparr>cst_world := w'\<rparr>)"
      using r(1) quiet_listeners by (intro runPhase_ok inWorld_Value) (auto simp: processOptions_def invoke_quiet)
    show ?thesis
    proof (cases "f x")
      case None
      let ?s = "s\<lparr>cst_world := w', cst_skipCount := cst_skipCount s + 1\<rparr>"
      have "processItems (x # xs) env ictx lctx acc s = processItems xs env ictx lctx acc ?s"
        using Some phase None by (simp add: addSkips_def)
      with Cons.IH [of ?s acc] r None len show ?thesis
        by (simp add: batchOf_def map_filter_def algebra_simps Suc_diff_le of_nat_diff)
    next
      case (Some y)
      let ?s = "s\<lparr>cst_world := w'\<rparr>"
      have "processItems (x # xs) env ictx lctx acc s = processItems xs env ictx lctx (acc @ [y]) ?s"
        using \<open>ev_processor env = Some p\<close> phase Some by simp
      with Cons.IH [of ?s "acc @ [y]"] r Some show ?thesis
        by (simp add: batchOf_def map_filter_def)
    qed
  qed
qed

text \<open>Writing a batch and leaving the checkpoint.\<close>

lemma writeItems_writes:
  assumes "ok (cst_world s)" "items = [] \<or> \<not> stop (length (sink (cst_world s)))"
  shows "\<exists>w'. writeItems items env ictx lctx s = (Value (),
        s\<lparr>cst_world := w', cst_writeCount := cst_writeCount s + int (length items)\<rparr>)
      \<and> ok w' \<and> src w' = src (cst_world s) \<and> checkpoint w' = checkpoint (cst_world s)
      \<and> sink w' = sink (cst_world s) @ (if items = [] then [] else [items])"
proof (cases "items = []")
  case True
  with assms show ?thesis by (intro exI [of _ "cst_world s"]) (simp add: writeItems_def)
next
  case False
  then obtain w' where w: "xc_withTransaction (ev_context env) (wt_write (ev_writer env) (items, ictx)) (cst_world s)
      = (Value None, w')" "ok w'" "src w' = src (cst_world s)" "sink w' = sink (cst_world s) @ [items]"
      "checkpoint w' = checkpoint (cst_world s)"
    using write_ok [OF assms(1)] assms(2) by blast
  have "runPhase (inWorld (xc_withTransaction (ev_context env) (wt_write (ev_writer env) (items, ictx))))
      (writeOptions env lctx items) s = (Value (PhaseOk None), s\<lparr>cst_world := w'\<rparr>)"
    using w(1) quiet_listeners by (intro runPhase_ok inWorld_Value) (auto simp: writeOptions_def invoke_quiet)
  with w False show ?thesis by (intro exI [of _ w']) (simp add: writeItems_def)
qed

lemma writeItems_throws:
  assumes "ok (cst_world s)" "items \<noteq> []" "stop (length (sink (cst_world s)))"
  shows "\<exists>w'. writeItems items env ictx lctx s = (Throw writeError, s\<lparr>cst_world := w'\<rparr>)
      \<and> ok w' \<and> src w' = src (cst_world s) \<and> checkpoint w' = checkpoint (cst_world s)
      \<and> sink w' = sink (cst_world s)"
proof -
  obtain w' where w: "xc_withTransaction (ev_context env) (wt_write (ev_writer env) (items, ictx)) (cst_world s)
      = (Throw writeError, w')" "ok w'" "src w' = src (cst_world s)" "sink w' = sink (cst_world s)"
      "checkpoint w' = checkpoint (cst_world s)"
    using write_fails [OF assms(1,3)] by blast
  have "runPhase (inWorld (xc_withTransaction (ev_context env) (wt_write (ev_writer env) (items, ictx))))
      (writeOptions env lctx items) s = (Throw writeError, s\<lparr>cst_world := w'\<rparr>)"
    using w(1) quiet_listeners no_policies [OF assms(3)]
    by (intro runPhase_fail inWorld_Value) (auto simp: writeOptions_def invoke_quiet)
  with w assms(2) show ?thesis by (intro exI [of _ w']) (simp add: writeItems_def)
qed

definition loopOk :: "'w chunkState \<Rightarrow> bool" where
  "loopOk s \<longleftrightarrow> ok (cst_world s) \<and> cst_openedStreams s = streamsOf env
     \<and> (\<exists>c. cst_streamContext s = Some c \<and> savable c)"

lemma saveCheckpoint_saves:
  assumes "loopOk s"
  shows "\<exists>w' c'. saveCheckpoint env s = (Value (), s\<lparr>cst_world := w', cst_streamContext := Some c'\<rparr>)
      \<and> ok w' \<and> savable c' \<and> src w' = src (cst_world s) \<and> sink w' = sink (cst_world s)
      \<and> checkpoint w' = mark (cst_chunkIndex s) (src (cst_world s))"
proof -
  obtain c where c: "cst_streamContext s = Some c" "savable c" and ok: "ok (cst_world s)"
    and streams: "cst_openedStreams s = streamsOf env"
    using assms by (auto simp: loopOk_def)
  from commit_context [OF ok c(2), of "cst_chunkIndex s"] obtain c' w' where
    store: "storeContext env (cst_chunkIndex s) c (cst_world s) = (Value c', w')" and
    laws: "savable c'" "ok w'" "src w' = src (cst_world s)" "sink w' = sink (cst_world s)"
      "checkpoint w' = mark (cst_chunkIndex s) (src (cst_world s))" by blast
  from store obtain updated w1 w2 where
    "updateStreams (streamsOf env) (withLastChunkIndex c (cst_chunkIndex s)) (cst_world s) = (Value updated, w1)"
    "repo_saveExecutionContext (xc_jobRepository (ev_context env))
       (StepScope (xc_stepExecutionId (ev_context env))) updated None w1 = (Value (), w2)"
    "repo_getExecutionContext (xc_jobRepository (ev_context env))
       (StepScope (xc_stepExecutionId (ev_context env))) w2 = (Value c', w')"
    by (auto simp: storeContext_def Let_def thenM_def elim!: bindM_Value_elim)
  then have "saveCheckpoint env s = (Value (), s\<lparr>cst_world := w', cst_streamContext := Some c'\<rparr>)"
    using c streams by (simp add: saveCheckpoint_def Let_def inWorld_apply)
  with laws show ?thesis by blast
qed

text \<open>One turn of the loop.\<close>

lemma workTurn_end:
  assumes "loopOk s" "src (cst_world s) = []"
  shows "\<exists>w'. workTurn env s = (Value False, s\<lparr>cst_world := w'\<rparr>) \<and> ok w' \<and> src w' = []
      \<and> sink w' = sink (cst_world s) \<and> checkpoint w' = checkpoint (cst_world s)"
proof -
  let ?ictx = "buildItemContext (ev_step env) (ev_context env) (cst_chunkIndex s)"
  let ?lctx = "buildListenerContext (ev_step env) (ev_context env) (Some (cst_chunkIndex s))"
  obtain w' where "readItems chunkLen env ?ictx ?lctx [] s = (Value [], s\<lparr>cst_world := w'\<rparr>)"
    "ok w'" "src w' = []" "sink w' = sink (cst_world s)" "checkpoint w' = checkpoint (cst_world s)"
    using readItems_reads [of s chunkLen ?ictx ?lctx "[]"] assms by (auto simp: loopOk_def)
  then show ?thesis using no_partition chunkSize_pos quiet_listeners
    by (intro exI [of _ w']) (simp add: workTurn_def remainingOf_def Let_def invoke_quiet)
qed

lemma workTurn_chunk:
  assumes "loopOk s" "src (cst_world s) = xs" "xs \<noteq> []" "c = take chunkLen xs"
    and "batchOf f c = [] \<or> \<not> stop (length (sink (cst_world s)))"
  shows "\<exists>s'. workTurn env s = (Value True, s') \<and> loopOk s' \<and> src (cst_world s') = drop chunkLen xs
      \<and> sink (cst_world s') = sink (cst_world s) @ batches f [c]
      \<and> checkpoint (cst_world s') = mark (cst_chunkIndex s) (drop chunkLen xs)
      \<and> cst_chunkIndex s' = cst_chunkIndex s + 1 \<and> cst_commitCount s' = cst_commitCount s + 1
      \<and> cst_readCount s' = cst_readCount s + int (length c)
      \<and> cst_writeCount s' = cst_writeCount s + int (length (batchOf f c))
      \<and> cst_skipCount s' = cst_skipCount s + int (length c - length (batchOf f c))"
proof -
  let ?ictx = "buildItemContext (ev_step env) (ev_context env) (cst_chunkIndex s)"
  let ?lctx = "buildListenerContext (ev_step env) (ev_context env) (Some (cst_chunkIndex s))"
  have ne: "c \<noteq> []" using assms(3,4) size_pos by simp
  obtain w1 where r: "readItems chunkLen env ?ictx ?lctx [] s = (Value c, s\<lparr>cst_world := w1,
      cst_readCount := cst_readCount s + int (length c)\<rparr>)" (is "_ = (_, ?s1)")
    "ok w1" "src w1 = drop chunkLen xs" "sink w1 = sink (cst_world s)"
    using readItems_reads [of s chunkLen ?ictx ?lctx "[]"] assms
    by (auto simp: loopOk_def min.commute)
  obtain w2 where p: "processItems c env ?ictx ?lctx [] ?s1 = (Value (batchOf f c), ?s1\<lparr>cst_world := w2,
      cst_skipCount := cst_skipCount s + int (length c - length (batchOf f c))\<rparr>)" (is "_ = (_, ?s2)")
    "ok w2" "src w2 = src w1" "sink w2 = sink w1"
    using processItems_maps [of ?s1 c ?ictx ?lctx "[]"] r(2) by auto
  obtain w3 where w: "writeItems (batchOf f c) env ?ictx ?lctx ?s2 = (Value (), ?s2\<lparr>cst_world := w3,
      cst_writeCount := cst_writeCount s + int (length (batchOf f c))\<rparr>)" (is "_ = (_, ?s3)")
    "ok w3" "src w3 = src w2"
    "sink w3 = sink w2 @ (if batchOf f c = [] then [] else [batchOf f c])"
    using writeItems_writes [of ?s2 "batchOf f c" ?ictx ?lctx] p r assms(5) by auto
  have "loopOk ?s3" using w(2) assms(1) by (simp add: loopOk_def)
  then obtain w4 c' where k: "saveCheckpoint env ?s3 = (Value (), ?s3\<lparr>cst_world := w4, cst_streamContext := Some c'\<rparr>)"
    "ok w4" "savable c'" "src w4 = src w3" "sink w4 = sink w3" "checkpoint w4 = mark (cst_chunkIndex s) (src w3)"
    using saveCheckpoint_saves [of ?s3] by auto
  show ?thesis
    using no_partition chunkSize_pos quiet_listeners r p w k ne assms(1)
    by (simp add: workTurn_def remainingOf_def Let_def invoke_quiet loopOk_def)
qed

lemma workTurn_throws:
  assumes "loopOk s" "src (cst_world s) = xs" "xs \<noteq> []" "c = take chunkLen xs"
    and "batchOf f c \<noteq> []" "stop (length (sink (cst_world s)))"
  shows "\<exists>s'. workTurn env s = (Throw writeError, s') \<and> loopOk s' \<and> src (cst_world s') = drop chunkLen xs
      \<and> sink (cst_world s') = sink (cst_world s) \<and> checkpoint (cst_world s') = checkpoint (cst_world s)
      \<and> cst_chunkIndex s' = cst_chunkIndex s \<and> cst_commitCount s' = cst_commitCount s"
proof -
  let ?ictx = "buildItemContext (ev_step env) (ev_context env) (cst_chunkIndex s)"
  let ?lctx = "buildListenerContext (ev_step env) (ev_context env) (Some (cst_chunkIndex s))"
  have ne: "c \<noteq> []" using assms(3,4) size_pos by simp
  obtain w1 where r: "readItems chunkLen env ?ictx ?lctx [] s = (Value c, s\<lparr>cst_world := w1,
      cst_readCount := cst_readCount s + int (length c)\<rparr>)" (is "_ = (_, ?s1)")
    "ok w1" "src w1 = drop chunkLen xs" "sink w1 = sink (cst_world s)"
    "checkpoint w1 = checkpoint (cst_world s)"
    using readItems_reads [of s chunkLen ?ictx ?lctx "[]"] assms
    by (auto simp: loopOk_def min.commute)
  obtain w2 where p: "processItems c env ?ictx ?lctx [] ?s1 = (Value (batchOf f c), ?s1\<lparr>cst_world := w2,
      cst_skipCount := cst_skipCount s + int (length c - length (batchOf f c))\<rparr>)" (is "_ = (_, ?s2)")
    "ok w2" "src w2 = src w1" "sink w2 = sink w1" "checkpoint w2 = checkpoint w1"
    using processItems_maps [of ?s1 c ?ictx ?lctx "[]"] r(2) by auto
  obtain w3 where w: "writeItems (batchOf f c) env ?ictx ?lctx ?s2 = (Throw writeError, ?s2\<lparr>cst_world := w3\<rparr>)"
    "ok w3" "src w3 = src w2" "checkpoint w3 = checkpoint w2" "sink w3 = sink w2"
    using writeItems_throws [of ?s2 "batchOf f c" ?ictx ?lctx] p r assms(5,6) by auto
  show ?thesis
    using no_partition chunkSize_pos quiet_listeners r p w ne assms(1)
    by (simp add: workTurn_def remainingOf_def Let_def invoke_quiet loopOk_def)
qed

text \<open>The loop, when no chunk is left to skip.\<close>

definition pastRestart :: "'w chunkState \<Rightarrow> bool" where
  "pastRestart s \<longleftrightarrow> (\<forall>k. xc_resumeFromChunkIndex (ev_context env) = Some k \<longrightarrow> k < cst_chunkIndex s)"

lemma chunkTurn_past: "pastRestart s \<Longrightarrow> chunkTurn env s = workTurn env s"
  by (auto simp: chunkTurn_def inRestart_def pastRestart_def split: option.splits)

lemma chunkLoop_work:
  assumes "loopOk s" "pastRestart s" "cs = chunksOf chunkLen (src (cst_world s))" "length cs < fuel"
    and "k = committed stop f (length (sink (cst_world s))) cs"
  shows "\<exists>s'. chunkLoop fuel env s = (if k = length cs then Value () else Throw writeError, s')
      \<and> loopOk s' \<and> sink (cst_world s') = sink (cst_world s) @ batches f (take k cs)
      \<and> checkpoint (cst_world s') = (if k = 0 then checkpoint (cst_world s)
           else mark (cst_chunkIndex s + of_nat k - 1) (drop (k * chunkLen) (src (cst_world s))))
      \<and> cst_chunkIndex s' = cst_chunkIndex s + of_nat k
      \<and> cst_commitCount s' = cst_commitCount s + int k
      \<and> (k = length cs \<longrightarrow> src (cst_world s') = []
           \<and> cst_readCount s' = cst_readCount s + int (length (concat cs))
           \<and> cst_writeCount s' = cst_writeCount s + int (length (concat (batches f cs)))
           \<and> cst_skipCount s' = cst_skipCount s
               + int (length (concat cs)) - int (length (concat (batches f cs))))"
  using assms
proof (induction cs arbitrary: s fuel k)
  case Nil
  then obtain fuel' where fuel: "fuel = Suc fuel'" by (cases fuel) auto
  have "src (cst_world s) = []"
    using Nil.prems(3) size_pos chunksOf_step [of chunkLen "src (cst_world s)"] by fastforce
  with workTurn_end [OF Nil.prems(1)] obtain w' where
    "workTurn env s = (Value False, s\<lparr>cst_world := w'\<rparr>)" "ok w'" "src w' = []"
    "sink w' = sink (cst_world s)" "checkpoint w' = checkpoint (cst_world s)" by blast
  moreover from this have "chunkTurn env s = (Value False, s\<lparr>cst_world := w'\<rparr>)"
    using chunkTurn_past [OF Nil.prems(2)] by simp
  ultimately show ?case using Nil fuel
    by (intro exI [of _ "s\<lparr>cst_world := w'\<rparr>"]) (simp add: loopOk_def)
next
  case (Cons c cs)
  let ?xs = "src (cst_world s)"
  obtain fuel' where fuel: "fuel = Suc fuel'" using Cons.prems(4) by (cases fuel) auto
  have ne: "?xs \<noteq> []" using Cons.prems(3) by auto
  then have c: "c = take chunkLen ?xs" and cs: "cs = chunksOf chunkLen (drop chunkLen ?xs)"
    using Cons.prems(3) size_pos by (simp_all add: chunksOf_step)
  have le: "length (batchOf f c) \<le> length c" by (simp add: batchOf_def map_filter_def)
  show ?case
  proof (cases "batchOf f c = [] \<or> \<not> stop (length (sink (cst_world s)))")
    case True
    obtain s1 where t: "workTurn env s = (Value True, s1)" "loopOk s1"
      "src (cst_world s1) = drop chunkLen ?xs" "sink (cst_world s1) = sink (cst_world s) @ batches f [c]"
      "checkpoint (cst_world s1) = mark (cst_chunkIndex s) (drop chunkLen ?xs)" "cst_chunkIndex s1 = cst_chunkIndex s + 1"
      "cst_commitCount s1 = cst_commitCount s + 1"
      "cst_readCount s1 = cst_readCount s + int (length c)"
      "cst_writeCount s1 = cst_writeCount s + int (length (batchOf f c))"
      "cst_skipCount s1 = cst_skipCount s + int (length c - length (batchOf f c))"
      using workTurn_chunk [OF Cons.prems(1) refl ne c True] by blast
    have past: "pastRestart s1"
      using Cons.prems(2) t(6) by (auto simp: pastRestart_def intro: less_trans)
    let ?k = "committed stop f (length (sink (cst_world s1))) cs"
    have k: "k = Suc ?k" using Cons.prems(5) True t(4) by auto
    have loop: "chunkLoop fuel env s = chunkLoop fuel' env s1"
      using fuel t(1) Cons.prems(2) by (simp add: chunkTurn_past)
    have len: "length cs < fuel'" and cs1: "cs = chunksOf chunkLen (src (cst_world s1))"
      using Cons.prems(4) fuel cs t(3) by simp_all
    obtain s2 where s2: "chunkLoop fuel' env s1 = (if ?k = length cs then Value () else Throw writeError, s2)"
      "loopOk s2" "sink (cst_world s2) = sink (cst_world s1) @ batches f (take ?k cs)"
      "checkpoint (cst_world s2) = (if ?k = 0 then checkpoint (cst_world s1)
           else mark (cst_chunkIndex s1 + of_nat ?k - 1) (drop (?k * chunkLen) (src (cst_world s1))))"
      "cst_chunkIndex s2 = cst_chunkIndex s1 + of_nat ?k"
      "cst_commitCount s2 = cst_commitCount s1 + int ?k"
      "?k = length cs \<longrightarrow> src (cst_world s2) = []
           \<and> cst_readCount s2 = cst_readCount s1 + int (length (concat cs))
           \<and> cst_writeCount s2 = cst_writeCount s1 + int (length (concat (batches f cs)))
           \<and> cst_skipCount s2 = cst_skipCount s1
               + int (length (concat cs)) - int (length (concat (batches f cs)))"
      using Cons.IH [OF t(2) past cs1 len refl] by blast
    show ?thesis
      using s2 t k le unfolding loop
      by (intro exI [of _ s2]) (auto simp: of_nat_diff add.commute)
  next
    case False
    then obtain s1 where t: "workTurn env s = (Throw writeError, s1)" "loopOk s1"
      "sink (cst_world s1) = sink (cst_world s)" "checkpoint (cst_world s1) = checkpoint (cst_world s)"
      "cst_chunkIndex s1 = cst_chunkIndex s" "cst_commitCount s1 = cst_commitCount s"
      using workTurn_throws [OF Cons.prems(1) refl ne c] by blast
    have "k = 0" using Cons.prems(5) False by simp
    with t fuel Cons.prems(2) show ?thesis
      by (intro exI [of _ s1]) (simp add: chunkTurn_past)
  qed
qed

text \<open>The loop while a restart skips the chunks that were committed before.\<close>

lemma drainItems_drains:
  assumes "ok (cst_world s)"
  shows "\<exists>w'. drainItems n env ictx d s = (Value (d + min n (length (src (cst_world s)))), s\<lparr>cst_world := w'\<rparr>)
      \<and> ok w' \<and> src w' = drop n (src (cst_world s)) \<and> sink w' = sink (cst_world s)
      \<and> checkpoint w' = checkpoint (cst_world s)"
  using assms
proof (induction n arbitrary: d s)
  case 0
  then show ?case by (intro exI [of _ "cst_world s"]) simp
next
  case (Suc n)
  show ?case
  proof (cases "src (cst_world s)")
    case Nil
    with read_end [OF Suc.prems, of ictx] show ?thesis by (force simp: inWorld_apply)
  next
    case (Cons x xs)
    then obtain w' where r: "rd_read (ev_reader env) ictx (cst_world s) = (Value (Some x), w')" "ok w'"
      "src w' = xs" "sink w' = sink (cst_world s)" "checkpoint w' = checkpoint (cst_world s)"
      using read_item [OF Suc.prems] by blast
    have "drainItems (Suc n) env ictx d s = drainItems n env ictx (d + 1) (s\<lparr>cst_world := w'\<rparr>)"
      using r(1) by (simp add: inWorld_apply)
    with Suc.IH [of "s\<lparr>cst_world := w'\<rparr>" "d + 1"] r Cons show ?thesis by fastforce
  qed
qed

lemma skipTurn_skips:
  assumes "loopOk s" "src (cst_world s) \<noteq> []"
  shows "\<exists>w'. skipTurn env s = (Value True, s\<lparr>cst_world := w', cst_chunkIndex := cst_chunkIndex s + 1\<rparr>)
      \<and> ok w' \<and> src w' = drop chunkLen (src (cst_world s)) \<and> sink w' = sink (cst_world s)
      \<and> checkpoint w' = checkpoint (cst_world s)"
proof -
  let ?ictx = "buildItemContext (ev_step env) (ev_context env) (cst_chunkIndex s)"
  obtain w' where "drainItems chunkLen env ?ictx 0 s =
      (Value (min chunkLen (length (src (cst_world s)))), s\<lparr>cst_world := w'\<rparr>)"
    "ok w'" "src w' = drop chunkLen (src (cst_world s))" "sink w' = sink (cst_world s)"
    "checkpoint w' = checkpoint (cst_world s)"
    using drainItems_drains [of s chunkLen ?ictx 0] assms(1) by (auto simp: loopOk_def)
  with assms(2) chunkSize_pos no_partition show ?thesis
    by (intro exI [of _ w']) (auto simp: skipTurn_def remainingOf_def min_def)
qed

lemma chunkLoop_resume:
  assumes no_stream: "rd_stream (ev_reader env) = None"
    and "loopOk s" "xc_resumeFromChunkIndex (ev_context env) = Some (of_nat k)"
    and "cst_chunkIndex s = of_nat i" "i + m = Suc k"
    and "m \<le> length (chunksOf chunkLen (src (cst_world s)))"
  shows "\<exists>w'. chunkLoop (fuel + m) env s = chunkLoop fuel env (s\<lparr>cst_world := w', cst_chunkIndex := of_nat (Suc k)\<rparr>)
      \<and> ok w' \<and> src w' = drop (m * chunkLen) (src (cst_world s)) \<and> sink w' = sink (cst_world s)
      \<and> checkpoint w' = checkpoint (cst_world s)"
  using assms(2-)
proof (induction m arbitrary: i s)
  case 0
  then have same: "s\<lparr>cst_world := cst_world s, cst_chunkIndex := of_nat (Suc k)\<rparr> = s"
    by (cases s) simp
  show ?case
  proof (intro exI conjI)
    show "chunkLoop (fuel + 0) env s = chunkLoop fuel env
        (s\<lparr>cst_world := cst_world s, cst_chunkIndex := of_nat (Suc k)\<rparr>)"
      by (simp only: same add_0_right)
  qed (use 0 in \<open>simp_all add: loopOk_def\<close>)
next
  case (Suc m)
  let ?xs = "src (cst_world s)"
  have ne: "?xs \<noteq> []" using Suc.prems(5) by auto
  have restart: "inRestart env s"
    using Suc.prems(2,3,4) no_stream by (simp add: inRestart_def)
  obtain w1 where t: "skipTurn env s = (Value True, s\<lparr>cst_world := w1, cst_chunkIndex := cst_chunkIndex s + 1\<rparr>)"
    (is "_ = (_, ?s1)") "ok w1" "src w1 = drop chunkLen ?xs" "sink w1 = sink (cst_world s)"
    "checkpoint w1 = checkpoint (cst_world s)"
    using skipTurn_skips [OF Suc.prems(1) ne] by blast
  have loop: "chunkLoop (fuel + Suc m) env s = chunkLoop (fuel + m) env ?s1"
    using t(1) restart by (simp add: chunkTurn_def)
  have "m \<le> length (chunksOf chunkLen (src (cst_world ?s1)))"
    using Suc.prems(5) ne size_pos t(3) by (simp add: chunksOf_step)
  moreover have "cst_chunkIndex ?s1 = of_nat (Suc i)" "Suc i + m = Suc k" "loopOk ?s1"
    using Suc.prems t(2) by (simp_all add: loopOk_def)
  ultimately obtain w2 where w2: "chunkLoop (fuel + m) env ?s1 =
      chunkLoop fuel env (?s1\<lparr>cst_world := w2, cst_chunkIndex := of_nat (Suc k)\<rparr>)" "ok w2"
    "src w2 = drop (m * chunkLen) (src (cst_world ?s1))" "sink w2 = sink (cst_world ?s1)"
    "checkpoint w2 = checkpoint (cst_world ?s1)"
    using Suc.IH [of ?s1 "Suc i"] Suc.prems(2) by blast
  show ?case
    using w2 t unfolding loop by (intro exI [of _ w2]) (simp add: add.commute)
qed

end

section \<open>Whole steps\<close>

text \<open>
  A step whose references resolve to the parties of the contract: \<open>env0\<close> is what
  \<open>execute\<close> prepares from the step and the context before it resolves them.
\<close>

locale chunk_step = chunk_pipeline env ok src sink checkpoint mark f stop writeError
  for env :: "('w, 'i) chunkEnv" and ok src sink and checkpoint :: "'w \<Rightarrow> 'p" and mark f stop writeError +
  fixes env0 :: "('w, 'i) chunkEnv" and ready :: "'w \<Rightarrow> bool" and toRead :: "'w \<Rightarrow> 'i list"
  assumes prepared: "prepareEnv (ev_step env) (ev_context env) = Inr env0"
    and env_fields: "env = env0\<lparr>ev_reader := ev_reader env, ev_processor := ev_processor env,
        ev_writer := ev_writer env\<rparr>"
    and reader_resolves: "ready w \<Longrightarrow>
      resolveReader (cs_reader (ev_step env)) (ev_context env) (ev_step env) w = (Value (ev_reader env), w)"
    and processor_absent: "cs_processor (ev_step env) = None \<Longrightarrow> ev_processor env = None"
    and processor_resolves: "ready w \<Longrightarrow> cs_processor (ev_step env) = Some pref \<Longrightarrow>
      \<exists>p. resolveProcessor pref (ev_context env) w = (Value p, w) \<and> ev_processor env = Some p"
    and writer_resolves: "ready w \<Longrightarrow>
      resolveWriter (cs_writer (ev_step env)) (ev_context env) w = (Value (ev_writer env), w)"
    and opens: "ready w \<Longrightarrow> \<exists>c w'. openContext env w = (Value c, w') \<and> savable c
      \<and> ok w' \<and> src w' = toRead w \<and> sink w' = sink w \<and> checkpoint w' = checkpoint w"
    and closes: "ok w \<Longrightarrow> \<exists>w'. closeStreams (streamsOf env) w = (Value (), w')
      \<and> ready w' \<and> sink w' = sink w \<and> checkpoint w' = checkpoint w"
begin

lemma env0_fields [simp]:
  "ev_step env0 = ev_step env" "ev_context env0 = ev_context env" "ev_listeners env0 = ev_listeners env"
  by (subst env_fields, simp)+

text \<open>The index of the first chunk the loop works on.\<close>

definition firstIndex :: rat where
  "firstIndex = (case (rd_stream (ev_reader env), xc_resumeFromChunkIndex (ev_context env)) of
      (Some _, Some k) \<Rightarrow> k + 1 | _ \<Rightarrow> 0)"

lemma setup_reaches_loop:
  assumes "ready w"
  shows "\<exists>s. setupAndLoop fuel env0 (initialChunkState w) = chunkLoop fuel env s \<and> loopOk s
      \<and> src (cst_world s) = toRead w \<and> sink (cst_world s) = sink w \<and> checkpoint (cst_world s) = checkpoint w
      \<and> cst_chunkIndex s = firstIndex \<and> cst_readCount s = 0 \<and> cst_writeCount s = 0 \<and> cst_skipCount s = 0
      \<and> cst_commitCount s = 0"
proof -
  obtain c' w' where opened: "openContext env w = (Value c', w')" and laws: "savable c'" "ok w'"
    "src w' = toRead w" "sink w' = sink w" "checkpoint w' = checkpoint w"
    using opens [OF assms] by blast
  from opened obtain c w0 where c: "repo_getExecutionContext (xc_jobRepository (ev_context env))
      (StepScope (xc_stepExecutionId (ev_context env))) w = (Value c, w0)" "openAll (streamsOf env) c w0 = (Value c', w')"
    by (auto simp: openContext_def elim: bindM_Value_elim)
  let ?loaded = "(initialChunkState w)\<lparr>cst_world := w0, cst_streamContext := Some c\<rparr>"
  let ?opened = "?loaded\<lparr>cst_world := w', cst_streamContext := Some c', cst_openedStreams := streamsOf env\<rparr>"
  let ?s = "?opened\<lparr>cst_chunkIndex := firstIndex\<rparr>"
  have w: "cst_world (initialChunkState w) = w" "cst_openedStreams (initialChunkState w) = []"
    "cst_chunkIndex (initialChunkState w) = 0" by (simp_all add: initialChunkState_def)
  have same: "(initialChunkState w)\<lparr>cst_world := w\<rparr> = initialChunkState w"
    by (simp add: initialChunkState_def)
  have reader: "inWorld (resolveReader (cs_reader (ev_step env)) (ev_context env) (ev_step env))
      (initialChunkState w) = (Value (ev_reader env), initialChunkState w)"
    using reader_resolves [OF assms] by (simp add: inWorld_apply w same)
  have processor: "(case cs_processor (ev_step env) of
          None \<Rightarrow> returnM None
        | Some p \<Rightarrow> bindM (inWorld (resolveProcessor p (ev_context env))) (\<lambda>pr. returnM (Some pr)))
      (initialChunkState w) = (Value (ev_processor env), initialChunkState w)"
  proof (cases "cs_processor (ev_step env)")
    case (Some pref)
    then obtain p where "resolveProcessor pref (ev_context env) w = (Value p, w)" "ev_processor env = Some p"
      using processor_resolves [OF assms] by blast
    with Some show ?thesis by (simp add: inWorld_apply w same bindM_def)
  qed (simp add: processor_absent)
  have writer: "inWorld (resolveWriter (cs_writer (ev_step env)) (ev_context env)) (initialChunkState w)
      = (Value (ev_writer env), initialChunkState w)"
    using writer_resolves [OF assms] by (simp add: inWorld_apply w same)
  have ctx: "inWorld (repo_getExecutionContext (xc_jobRepository (ev_context env))
        (StepScope (xc_stepExecutionId (ev_context env)))) (initialChunkState w)
      = (Value c, (initialChunkState w)\<lparr>cst_world := w0\<rparr>)"
    using c(1) by (simp add: inWorld_apply w)
  have streams: "openStreams (streamsOf env) ?loaded = (Value (), ?opened)"
    using openAll_apply [of "streamsOf env" c ?loaded] c(2) w by simp
  have index: "(case (rd_stream (ev_reader env), xc_resumeFromChunkIndex (ev_context env)) of
          (Some _, Some k) \<Rightarrow> modifyM (\<lambda>s. s\<lparr>cst_chunkIndex := k + 1\<rparr>) | _ \<Rightarrow> returnM ()) ?opened = (Value (), ?s)"
    by (simp add: firstIndex_def initialChunkState_def split: option.split)
  have "setupAndLoop fuel env0 (initialChunkState w) = chunkLoop fuel env ?s"
    unfolding setupAndLoop_def Let_def env0_fields
    using reader processor writer ctx streams index env_fields [symmetric]
    by (simp add: streamsOf_def)
  moreover have "loopOk ?s" using laws by (simp add: loopOk_def)
  ultimately show ?thesis using laws by (intro exI [of _ ?s]) (simp add: initialChunkState_def)
qed

text \<open>Closing, on the way to either result.\<close>

lemma takeAndClose_closes:
  assumes "loopOk s"
  shows "\<exists>w'. takeAndClose s = (Value (), s\<lparr>cst_world := w', cst_openedStreams := []\<rparr>) \<and> ready w'
    \<and> sink w' = sink (cst_world s) \<and> checkpoint w' = checkpoint (cst_world s)"
proof -
  obtain w' where "closeStreams (streamsOf env) (cst_world s) = (Value (), w')" "ready w'"
    "sink w' = sink (cst_world s)" "checkpoint w' = checkpoint (cst_world s)"
    using closes assms by (auto simp: loopOk_def)
  with assms show ?thesis by (intro exI [of _ w']) (simp add: takeAndClose_def inWorld_apply loopOk_def)
qed

text \<open>The step, from a state its setup reaches: the loop, then the result it is turned into.\<close>

lemma execute_from_loop:
  assumes "setupAndLoop fuel env0 (initialChunkState w) = (r, s)" "loopOk s"
    and "r = Value () \<or> r = Throw e"
  shows "\<exists>w'. executeChunkStep fuel (ev_step env) (ev_context env) w =
      (Value (if r = Value () then stepResultOf StepCompleted ''COMPLETED'' [] s
              else stepResultOf StepFailed ''FAILED'' (errorText e) s), w')
    \<and> ready w' \<and> sink w' = sink (cst_world s) \<and> checkpoint w' = checkpoint (cst_world s)"
proof -
  obtain w' where close: "takeAndClose s = (Value (), s\<lparr>cst_world := w', cst_openedStreams := []\<rparr>)" (is "_ = (_, ?s)")
    and laws: "ready w'" "sink w' = sink (cst_world s)" "checkpoint w' = checkpoint (cst_world s)"
    using takeAndClose_closes [OF assms(2)] by blast
  have finish: "finishCompleted env0 s = (Value (stepResultOf StepCompleted ''COMPLETED'' [] s), ?s)"
    "finishFailed env0 e s = (Value (stepResultOf StepFailed ''FAILED'' (errorText e) s), ?s)"
    using close quiet_listeners
    by (simp_all add: finishCompleted_def finishFailed_def Let_def invoke_quiet invokeAfterStepResult_quiet
        catchM_def bindM_def thenM_def stepResultOf_def)
  have "executeBody fuel env0 (initialChunkState w) =
      catchM (thenM (setupAndLoop fuel env0) (finishCompleted env0)) (finishFailed env0) (initialChunkState w)"
    using quiet_listeners by (simp add: executeBody_def invoke_quiet)
  also have "\<dots> = (Value (if r = Value () then stepResultOf StepCompleted ''COMPLETED'' [] s
            else stepResultOf StepFailed ''FAILED'' (errorText e) s), ?s)"
    using assms(1,3) finish by (auto simp: catchM_def thenM_def bindM_def)
  finally show ?thesis using laws by (simp add: executeChunkStep_def prepared)
qed

text \<open>
  A step whose loop has no chunk to skip: a first run, or a restart with a reader that is a
  stream and was opened where the failed run had got to.
\<close>

lemma execute_fresh:
  assumes "ready w" "xc_resumeFromChunkIndex (ev_context env) = None \<or> rd_stream (ev_reader env) \<noteq> None"
    and "cs = chunksOf chunkLen (toRead w)" "length cs < fuel" "k = committed stop f (length (sink w)) cs"
  shows "\<exists>r w'. executeChunkStep fuel (ev_step env) (ev_context env) w = (Value r, w') \<and> ready w'
      \<and> sink w' = sink w @ batches f (take k cs)
      \<and> checkpoint w' = (if k = 0 then checkpoint w
          else mark (firstIndex + of_nat k - 1) (drop (k * chunkLen) (toRead w)))
      \<and> sr_commitCount r = Some (int k)
      \<and> (if k = length cs
         then sr_status r = StepCompleted \<and> sr_exitCode r = ''COMPLETED''
           \<and> sr_readCount r = int (length (toRead w))
           \<and> sr_writeCount r = int (length (List.map_filter f (toRead w)))
           \<and> sr_skipCount r = sr_readCount r - sr_writeCount r
         else sr_status r = StepFailed \<and> sr_exitCode r = ''FAILED''
           \<and> sr_exitMessage r = errorText writeError)"
proof -
  obtain s where s: "setupAndLoop fuel env0 (initialChunkState w) = chunkLoop fuel env s" "loopOk s"
    and init: "src (cst_world s) = toRead w" "sink (cst_world s) = sink w" "checkpoint (cst_world s) = checkpoint w"
      "cst_chunkIndex s = firstIndex" "cst_readCount s = 0" "cst_writeCount s = 0" "cst_skipCount s = 0"
      "cst_commitCount s = 0"
    using setup_reaches_loop [OF assms(1)] by blast
  have "pastRestart s" using assms(2) init(4) by (auto simp: pastRestart_def firstIndex_def)
  then obtain s' where s': "chunkLoop fuel env s = (if k = length cs then Value () else Throw writeError, s')"
    "loopOk s'" "sink (cst_world s') = sink w @ batches f (take k cs)"
    "checkpoint (cst_world s') = (if k = 0 then checkpoint w
       else mark (firstIndex + of_nat k - 1) (drop (k * chunkLen) (toRead w)))"
    "cst_commitCount s' = int k"
    "k = length cs \<longrightarrow> src (cst_world s') = [] \<and> cst_readCount s' = int (length (concat cs))
       \<and> cst_writeCount s' = int (length (concat (batches f cs)))
       \<and> cst_skipCount s' = int (length (concat cs)) - int (length (concat (batches f cs)))"
    using chunkLoop_work [OF s(2), of cs fuel k] assms(3-5) init by auto
  have counts: "concat cs = toRead w" "concat (batches f cs) = List.map_filter f (toRead w)"
    using assms(3) size_pos by (simp_all add: concat_chunksOf concat_batches)
  have "setupAndLoop fuel env0 (initialChunkState w) = (if k = length cs then Value () else Throw writeError, s')"
    using s(1) s'(1) by simp
  from execute_from_loop [OF this s'(2), of writeError]
  show ?thesis using s'(3-6) counts by (fastforce simp: stepResultOf_def)
qed

lemma execute_resumed:
  assumes "ready w" "xc_resumeFromChunkIndex (ev_context env) = Some (of_nat j)"
    and no_stream: "rd_stream (ev_reader env) = None"
    and "cs = chunksOf chunkLen (toRead w)" "Suc j \<le> length cs" "length cs < fuel"
    and "k = committed stop f (length (sink w)) (drop (Suc j) cs)"
  shows "\<exists>r w'. executeChunkStep fuel (ev_step env) (ev_context env) w = (Value r, w') \<and> ready w'
      \<and> sink w' = sink w @ batches f (take k (drop (Suc j) cs))
      \<and> sr_commitCount r = Some (int k)
      \<and> sr_status r = (if Suc j + k = length cs then StepCompleted else StepFailed)"
proof -
  obtain s where s: "setupAndLoop fuel env0 (initialChunkState w) = chunkLoop fuel env s" "loopOk s"
    and init: "src (cst_world s) = toRead w" "sink (cst_world s) = sink w"
      "cst_chunkIndex s = of_nat 0" "cst_commitCount s = 0"
    using setup_reaches_loop [OF assms(1)] no_stream by (auto simp: firstIndex_def)
  obtain fuel' where fuel: "fuel = fuel' + Suc j" using assms(5,6) by (metis add.commute le_iff_add less_imp_le_nat order_trans)
  obtain w1 where w1: "chunkLoop (fuel' + Suc j) env s =
      chunkLoop fuel' env (s\<lparr>cst_world := w1, cst_chunkIndex := of_nat (Suc j)\<rparr>)"
    "ok w1" "src w1 = drop (Suc j * chunkLen) (toRead w)" "sink w1 = sink w"
    using chunkLoop_resume [OF no_stream s(2) assms(2) init(3), of "Suc j" fuel'] assms(4,5) init(1,2) by auto
  define s1 where "s1 = s\<lparr>cst_world := w1, cst_chunkIndex := of_nat (Suc j)\<rparr>"
  have s1: "cst_world s1 = w1" "cst_chunkIndex s1 = of_nat (Suc j)" "cst_commitCount s1 = 0"
    using init by (simp_all add: s1_def)
  have cs1: "drop (Suc j) cs = chunksOf chunkLen (src (cst_world s1))"
    unfolding s1(1) w1(3) assms(4) using chunksOf_drop [OF size_pos, of "Suc j" "toRead w"] by simp
  have ok1: "loopOk s1" "pastRestart s1"
    using w1(2) s(2) s1(1,2) assms(2) by (simp_all add: loopOk_def pastRestart_def s1_def)
  have fuel1: "length (drop (Suc j) cs) < fuel'" using assms(5,6) fuel by simp
  have k1: "k = committed stop f (length (sink (cst_world s1))) (drop (Suc j) cs)"
    using assms(7) s1(1) w1(4) by simp
  obtain s' where s': "chunkLoop fuel' env s1 =
      (if k = length (drop (Suc j) cs) then Value () else Throw writeError, s')"
    "loopOk s'" "sink (cst_world s') = sink w @ batches f (take k (drop (Suc j) cs))"
    "cst_commitCount s' = int k"
    using chunkLoop_work [OF ok1 cs1 fuel1 k1] unfolding s1 w1(4) by auto
  have loop: "setupAndLoop fuel env0 (initialChunkState w) =
      (if k = length (drop (Suc j) cs) then Value () else Throw writeError, s')"
    using s(1) w1(1) s'(1) fuel by (simp only: s1_def)
  have "k = length (drop (Suc j) cs) \<longleftrightarrow> Suc j + k = length cs" using assms(5) by auto
  then show ?thesis
    using execute_from_loop [OF loop s'(2), of writeError] s'(3,4) by (fastforce simp: stepResultOf_def)
qed

end

end
