(* ===== verification/ChunkProperties.thy ===== *)
theory ChunkProperties
  imports ChunkPipeline InMemoryRepository
begin

text \<open>
  The properties of the chunk executor: what a step computes when its parties keep their
  contract, what a restart adds, how skips and retries are accounted for, and how errors
  surface. The contract is interpreted on an array reader and a collecting writer over the
  in-memory repository.
\<close>

section \<open>An array reader and a collecting writer\<close>

record simWorld =
  sw_repo :: inMemoryState
  sw_left :: "nat list"
  sw_batches :: "nat list list"

definition simRepository :: "simWorld jobRepository" where
  "simRepository = liftRepository sw_repo (\<lambda>r w. w\<lparr>sw_repo := r\<rparr>)
     (inMemoryRepository (deterministicIdGenerator ''id''))"

definition arrayReader :: "(simWorld, nat) itemReader" where
  "arrayReader = functionReader (\<lambda>_ w. case sw_left w of
      [] \<Rightarrow> (Value None, w)
    | x # xs \<Rightarrow> (Value (Some x), w\<lparr>sw_left := xs\<rparr>))"

definition oddProcessor :: "(simWorld, nat) itemProcessor" where
  "oddProcessor = (\<lambda>(x, _). returnM (if odd x then Some (10 * x) else None))"

definition tenfoldOdd :: "nat \<Rightarrow> nat option" where
  "tenfoldOdd x = (if odd x then Some (10 * x) else None)"

definition collectWriter :: "(nat \<Rightarrow> bool) \<Rightarrow> (simWorld, nat) itemWriter" where
  "collectWriter stop = functionWriter (\<lambda>(items, _) w.
     if stop (length (sw_batches w)) then (Throw (plainError ''boom''), w)
     else (Value None, w\<lparr>sw_batches := sw_batches w @ [items]\<rparr>))"

definition simStep :: "(nat \<Rightarrow> bool) \<Rightarrow> (simWorld, nat) chunkStepDefinition" where
  "simStep stop = \<lparr>cs_id = ''s'', cs_chunkSize = 2, cs_reader = objectRef arrayReader,
     cs_processor = Some (objectRef oddProcessor), cs_writer = objectRef (collectWriter stop),
     cs_skipPolicy = None, cs_retryPolicy = None, cs_partitions = None\<rparr>"

definition simContext :: "rat option \<Rightarrow> (simWorld, nat) chunkExecutionContext" where
  "simContext resume = \<lparr>xc_jobExecutionId = ''e'', xc_stepExecutionId = ''x'', xc_stepName = None,
     xc_jobParameters = None, xc_jobRepository = simRepository, xc_withTransaction = id,
     xc_listenerResolvers = None, xc_skipListenerResolvers = None, xc_readerMethods = [],
     xc_processorMethods = [], xc_writerMethods = [], xc_jobExecutionId2 = ''e'',
     xc_readerProviders = None, xc_processorProviders = None, xc_writerProviders = None,
     xc_resumeFromChunkIndex = resume, xc_partitionIndex = None, xc_partitionCount = None\<rparr>"

definition simEnv0 :: "(nat \<Rightarrow> bool) \<Rightarrow> rat option \<Rightarrow> (simWorld, nat) chunkEnv" where
  "simEnv0 stop resume = \<lparr>ev_step = simStep stop, ev_context = simContext resume, ev_listeners = [],
     ev_skipListeners = [], ev_skipPolicy = None, ev_retryPolicy = None, ev_skipLimit = Fin 0,
     ev_retryLimit = Fin 0, ev_partition = None, ev_reader = unresolvedReader, ev_processor = None,
     ev_writer = unresolvedWriter\<rparr>"

definition simEnv :: "(nat \<Rightarrow> bool) \<Rightarrow> rat option \<Rightarrow> (simWorld, nat) chunkEnv" where
  "simEnv stop resume = (simEnv0 stop resume)\<lparr>ev_reader := arrayReader,
     ev_processor := Some oddProcessor, ev_writer := collectWriter stop\<rparr>"

definition simOk :: "simWorld \<Rightarrow> bool" where
  "simOk w \<longleftrightarrow> imsInv (deterministicIdGenerator ''id'') (sw_repo w)
     \<and> savable (contextIn (sw_repo w) (StepScope ''x''))"

definition simCheckpoint :: "simWorld \<Rightarrow> rat option" where
  "simCheckpoint w = lastIndexOf (contextIn (sw_repo w) (StepScope ''x''))"

definition simWorldOf :: "nat list \<Rightarrow> simWorld" where
  "simWorldOf xs = \<lparr>sw_repo = emptyInMemoryState, sw_left = xs, sw_batches = []\<rparr>"

lemma simRepository_context:
  "repo_getExecutionContext simRepository sc w = (Value (contextIn (sw_repo w) sc), w)"
  by (simp add: simRepository_def liftRepository_def zoomM_def getExecutionContext_contextIn)

lemma simRepository_save:
  assumes "simOk w" "savable c"
  shows "\<exists>w'. repo_saveExecutionContext simRepository (StepScope ''x'') c None w = (Value (), w') \<and> simOk w'
    \<and> sw_left w' = sw_left w \<and> sw_batches w' = sw_batches w \<and> simCheckpoint w' = lastIndexOf c"
proof -
  obtain r n where r: "repo_saveExecutionContext (inMemoryRepository (deterministicIdGenerator ''id''))
      (StepScope ''x'') c None (sw_repo w) = (Value (), r)" "imsInv (deterministicIdGenerator ''id'') r"
    "contextIn r = (contextIn (sw_repo w))(StepScope ''x'' := \<lparr>ctx_data = ctx_data c,
       ctx_version = orKeep None n\<rparr>)"
    using im.saveExecutionContext [of "''id''" "sw_repo w" c "StepScope ''x''" None] assms
    by (auto simp: simOk_def savable_def)
  then show ?thesis using assms(2)
    by (intro exI [of _ "w\<lparr>sw_repo := r\<rparr>"])
      (simp add: simRepository_def liftRepository_def zoomM_def simOk_def simCheckpoint_def savable_def lastIndexOf_def)
qed

lemma objectRef_resolves:
  "resolveReader (objectRef r) c st w = (Value r, w)"
  "resolveProcessor (objectRef p) c' w' = (Value p, w')"
  "resolveWriter (objectRef wr) c'' w'' = (Value wr, w'')"
  by (simp_all add: objectRef_def resolveReader_def resolveProcessor_def resolveWriter_def Let_def)

lemma sim_streams [simp]: "streamsOf (simEnv stop resume) = []"
  by (simp add: streamsOf_def simEnv_def simEnv0_def arrayReader_def functionReader_def collectWriter_def functionWriter_def)

lemma sim_open: "openContext (simEnv stop resume) w = (Value (contextIn (sw_repo w) (StepScope ''x'')), w)"
  by (simp add: openContext_def simRepository_context) (simp add: simEnv_def simEnv0_def simContext_def simRepository_context)

lemma sim_commit:
  assumes "simOk w" "savable c"
  shows "\<exists>c' w'. storeContext (simEnv stop resume) k c w = (Value c', w') \<and> savable c' \<and> simOk w'
    \<and> sw_left w' = sw_left w \<and> sw_batches w' = sw_batches w \<and> simCheckpoint w' = Some k"
proof -
  obtain w' where "repo_saveExecutionContext simRepository (StepScope ''x'') (withLastChunkIndex c k) None w = (Value (), w')"
    "simOk w'" "sw_left w' = sw_left w" "sw_batches w' = sw_batches w" "simCheckpoint w' = Some k"
    using simRepository_save [OF assms(1) savable_withLastChunkIndex [OF assms(2)]] by auto
  moreover have "ev_context (simEnv stop resume) = simContext resume"
    "xc_jobRepository (simContext resume) = simRepository" "xc_stepExecutionId (simContext resume) = ''x''"
    by (simp_all add: simEnv_def simEnv0_def simContext_def)
  ultimately show ?thesis
    by (simp add: storeContext_def Let_def simRepository_context simOk_def)
qed

interpretation sim: chunk_step "simEnv stop resume" simOk sw_left sw_batches simCheckpoint "\<lambda>k _. Some k" tenfoldOdd stop
    "plainError ''boom''" "simEnv0 stop resume" simOk sw_left
  for stop resume
proof (unfold_locales, goal_cases)
  case (9 p w x ictx)
  then have "p = oddProcessor" by (simp add: simEnv_def)
  with 9 show ?case by (auto simp: oddProcessor_def tenfoldOdd_def)
next
  case (12 w c k)
  then show ?case by (rule sim_commit)
next
  case (17 w pref)
  then show ?case by (auto simp: simEnv_def simEnv0_def simStep_def objectRef_resolves)
qed (simp_all add: sim_open closeStreams_def, simp_all add: simEnv_def simEnv0_def simStep_def simContext_def simOk_def simCheckpoint_def arrayReader_def
    functionReader_def collectWriter_def functionWriter_def oddProcessor_def tenfoldOdd_def
    prepareEnv_def compileOptional_def partitionOf_def Let_def objectRef_resolves)

section \<open>What a step computes\<close>

text \<open>
  C3: a chunk step whose reader, processor, writer and repository keep their contract
  completes, for every chunk size, having handed the writer the processed items of the
  whole source in order, cut into one batch per chunk (empty batches left out); its counts
  are exact and one chunk is committed per chunk of the source. Fuel beyond the length of
  the source is enough: the loop ends.
\<close>
theorem chunk_step_correct:
  assumes "chunk_step env ok src sink checkpoint mark f (\<lambda>_. False) e env0 ready toRead"
    and "ready w" "xc_resumeFromChunkIndex (ev_context env) = None" "length (toRead w) < fuel"
    and "cs = chunksOf (nat (cs_chunkSize (ev_step env))) (toRead w)"
  shows "\<exists>r w'. executeChunkStep fuel (ev_step env) (ev_context env) w = (Value r, w')
    \<and> sr_status r = StepCompleted \<and> sink w' = sink w @ batches f cs
    \<and> concat (batches f cs) = List.map_filter f (toRead w)
    \<and> sr_readCount r = int (length (toRead w))
    \<and> sr_writeCount r = int (length (List.map_filter f (toRead w)))
    \<and> sr_skipCount r = sr_readCount r - sr_writeCount r
    \<and> sr_commitCount r = Some (int (length cs))
    \<and> (cs \<noteq> [] \<longrightarrow> checkpoint w' = mark (of_nat (length cs - 1)) [])"
proof -
  note pipeline = chunk_step.axioms(1) [OF assms(1)]
  have len: "length cs < fuel"
    using assms(4,5) length_chunksOf le_less_trans by blast
  have all: "committed (\<lambda>_. False) f (length (sink w)) cs = length cs"
    by (simp add: committed_all)
  have first: "chunk_step.firstIndex env = 0"
    using assms(3) by (simp add: chunk_step.firstIndex_def [OF assms(1)] split: option.split)
  have last: "drop (length cs * nat (cs_chunkSize (ev_step env))) (toRead w) = []"
    using chunk_pipeline.size_pos [OF pipeline] assms(5) by (simp add: drop_chunksOf)
  obtain r w' where "executeChunkStep fuel (ev_step env) (ev_context env) w = (Value r, w')"
    "sink w' = sink w @ batches f cs" "sr_commitCount r = Some (int (length cs))"
    "cs \<noteq> [] \<longrightarrow> checkpoint w' = mark (of_nat (length cs) - 1) []"
    "sr_status r = StepCompleted" "sr_readCount r = int (length (toRead w))"
    "sr_writeCount r = int (length (List.map_filter f (toRead w)))"
    "sr_skipCount r = sr_readCount r - sr_writeCount r"
    using chunk_step.execute_fresh [OF assms(1,2) disjI1 [OF assms(3)] assms(5) len refl] last first unfolding all by auto
  moreover have "concat (batches f cs) = List.map_filter f (toRead w)"
    using chunk_pipeline.size_pos [OF pipeline] assms(5) by (simp add: concat_batches)
  moreover have "cs \<noteq> [] \<longrightarrow> (of_nat (length cs - 1) :: rat) = of_nat (length cs) - 1"
    by (cases cs) simp_all
  ultimately show ?thesis by auto
qed

text \<open>Five items in chunks of two; the processor keeps the odd ones, tenfold.\<close>

lemma contextIn_empty: "contextIn emptyInMemoryState sc = \<lparr>ctx_data = JNull, ctx_version = 0\<rparr>"
  by (simp add: contextIn_def emptyInMemoryState_def)

lemma simOk_simWorldOf [simp]: "simOk (simWorldOf xs)" "simCheckpoint (simWorldOf xs) = None"
  by (simp_all add: simOk_def simCheckpoint_def simWorldOf_def savable_def contextIn_empty
      lastIndexOf_def asJsonRecord_def)

lemma sim_fields [simp]:
  "ev_step (simEnv stop resume) = simStep stop" "ev_context (simEnv stop resume) = simContext resume"
  "cs_chunkSize (simStep stop) = 2" "xc_resumeFromChunkIndex (simContext resume) = resume"
  "sw_left (simWorldOf xs) = xs" "sw_batches (simWorldOf xs) = []"
  by (simp_all add: simEnv_def simEnv0_def simStep_def simContext_def simWorldOf_def)

lemma sim_no_stream: "rd_stream (ev_reader (simEnv stop resume)) = None"
  by (simp add: simEnv_def arrayReader_def functionReader_def)

theorem chunk_step_correct_witness:
  "\<exists>r w'. executeChunkStep 6 (simStep (\<lambda>_. False)) (simContext None) (simWorldOf [1, 2, 3, 5, 6]) = (Value r, w')
    \<and> sr_status r = StepCompleted \<and> sw_batches w' = [[10], [30, 50]] \<and> sr_commitCount r = Some 3"
  using chunk_step_correct [OF sim.chunk_step_axioms [where resume = None], of "simWorldOf [1, 2, 3, 5, 6]" 6]
  by (auto simp: chunksOf.simps batches_def batchOf_def map_filter_def tenfoldOdd_def)

text \<open>
  C2: no item is lost and none is written twice over a failure: if a first run fails because
  a write does, and the step is run again on a source that starts from the beginning,
  resuming behind the checkpoint the first run left, then the second run completes and the
  two runs together have written exactly the batches one undisturbed run would write.
\<close>
theorem restart_exactly_once:
  assumes "chunk_step env ok src sink checkpoint (\<lambda>k _. Some k) f stop e env0 ready toRead"
    and "chunk_step env2 ok2 src2 sink2 checkpoint2 mark2 f (\<lambda>_. False) e2 env02 ready2 toRead2"
    and "rd_stream (ev_reader env) = None" "rd_stream (ev_reader env2) = None"
    and "cs_chunkSize (ev_step env2) = cs_chunkSize (ev_step env)"
    and "ready w" "xc_resumeFromChunkIndex (ev_context env) = None" "checkpoint w = None"
    and "length (toRead w) < fuel"
    and "executeChunkStep fuel (ev_step env) (ev_context env) w = (Value r, w1)"
    and "sr_status r = StepFailed"
    and "ready2 w2" "toRead2 w2 = toRead w" "sink2 w2 = sink w1"
    and "xc_resumeFromChunkIndex (ev_context env2) = checkpoint w1"
    and "cs = chunksOf (nat (cs_chunkSize (ev_step env))) (toRead w)"
  shows "\<exists>r2 w3. executeChunkStep fuel (ev_step env2) (ev_context env2) w2 = (Value r2, w3)
    \<and> sr_status r2 = StepCompleted \<and> sink2 w3 = sink w @ batches f cs
    \<and> concat (batches f cs) = List.map_filter f (toRead w)"
proof -
  have len: "length cs < fuel"
    using assms(9,16) length_chunksOf le_less_trans by blast
  define k where "k = committed stop f (length (sink w)) cs"
  have k_le: "k \<le> length cs" by (simp add: k_def committed_le)
  have first_index: "chunk_step.firstIndex env = 0"
    using assms(7) by (simp add: chunk_step.firstIndex_def [OF assms(1)] split: option.split)
  obtain "sink w1 = sink w @ batches f (take k cs)"
    "checkpoint w1 = (if k = 0 then None else Some (of_nat (k - 1)))"
    using chunk_step.execute_fresh [OF assms(1,6) disjI1 [OF assms(7)] assms(16) len k_def] assms(8,10) first_index
    by (cases k) auto
  note first = this
  have cs2: "cs = chunksOf (nat (cs_chunkSize (ev_step env2))) (toRead2 w2)"
    using assms(5,13,16) by simp
  have all: "committed (\<lambda>_. False) f n ds = length ds" for n and ds :: "'b list list"
    by (simp add: committed_all)
  have concat: "concat (batches f cs) = List.map_filter f (toRead w)"
    using chunk_pipeline.size_pos [OF chunk_step.axioms(1) [OF assms(1)]] assms(16)
    by (simp add: concat_batches)
  show ?thesis
  proof (cases "k = 0")
    case True
    then have "xc_resumeFromChunkIndex (ev_context env2) = None" using first(2) assms(15) by simp
    from chunk_step.execute_fresh [OF assms(2,12) disjI1 [OF this] cs2 len refl]
    show ?thesis using first(1) True assms(14) concat unfolding all by auto
  next
    case False
    then have k: "xc_resumeFromChunkIndex (ev_context env2) = Some (of_nat (k - 1))"
      "Suc (k - 1) \<le> length cs"
      using first(2) assms(15) k_le by simp_all
    from chunk_step.execute_resumed [OF assms(2,12) k(1) assms(4) cs2 k(2) len refl]
    obtain r2 w3 where run: "executeChunkStep fuel (ev_step env2) (ev_context env2) w2 = (Value r2, w3)"
      "sink2 w3 = sink2 w2 @ batches f (drop (Suc (k - 1)) cs)" "sr_status r2 = StepCompleted"
      using k(2) unfolding all by auto
    have "batches f (take k cs) @ batches f (drop k cs) = batches f cs"
      by (metis append_take_drop_id batches_simps(3))
    with run first(1) False assms(14) concat show ?thesis by simp
  qed
qed

text \<open>The second write of the first run fails.\<close>

theorem restart_exactly_once_witness:
  "\<exists>r w1 r2 w3. executeChunkStep 6 (simStep (\<lambda>n. n = 1)) (simContext None) (simWorldOf [1, 2, 3, 5, 6]) = (Value r, w1)
    \<and> sr_status r = StepFailed \<and> sw_batches w1 = [[10]] \<and> simCheckpoint w1 = Some 0
    \<and> executeChunkStep 6 (simStep (\<lambda>_. False)) (simContext (Some 0)) (w1\<lparr>sw_left := [1, 2, 3, 5, 6]\<rparr>) = (Value r2, w3)
    \<and> sr_status r2 = StepCompleted \<and> sw_batches w3 = [[10], [30, 50]]"
proof -
  let ?w = "simWorldOf [1, 2, 3, 5, 6]"
  have cs: "chunksOf (nat 2) [1, 2, 3, 5, 6 :: nat] = [[1, 2], [3, 5], [6]]"
    by (simp add: chunksOf.simps)
  have k: "committed (\<lambda>n. n = 1) tenfoldOdd (length (sw_batches ?w)) [[1, 2], [3, 5], [6]] = 1"
    by (simp add: batchOf_def map_filter_def tenfoldOdd_def)
  have b: "batches tenfoldOdd [[1, 2], [3, 5], [6 :: nat]] = [[10], [30, 50]]"
    "batches tenfoldOdd [[1, 2 :: nat]] = [[10]]"
    by (simp_all add: batchOf_def map_filter_def tenfoldOdd_def)
  obtain r w1 where run: "executeChunkStep 6 (simStep (\<lambda>n. n = 1)) (simContext None) ?w = (Value r, w1)"
    "sr_status r = StepFailed" "sw_batches w1 = [[10]]" "simCheckpoint w1 = Some 0" "simOk w1"
    using sim.execute_fresh [where w = ?w and resume = None and cs = "[[1, 2], [3, 5], [6]]" and fuel = 6
        and k = 1 and stop = "\<lambda>n. n = 1"] cs k b sim.firstIndex_def [of "\<lambda>n. n = 1" None] by (auto split: option.splits)
  have "simOk (w1\<lparr>sw_left := [1, 2, 3, 5, 6]\<rparr>)" using run(5) by (simp add: simOk_def)
  then have "\<exists>r2 w3. executeChunkStep 6 (simStep (\<lambda>_. False)) (simContext (Some 0)) (w1\<lparr>sw_left := [1, 2, 3, 5, 6]\<rparr>) = (Value r2, w3)
      \<and> sr_status r2 = StepCompleted \<and> sw_batches w3 = [[10], [30, 50]]"
    using restart_exactly_once [OF sim.chunk_step_axioms [where stop = "\<lambda>n. n = 1" and resume = None]
        sim.chunk_step_axioms [where resume = "Some 0"] sim_no_stream sim_no_stream, of ?w 6 r w1
        "w1\<lparr>sw_left := [1, 2, 3, 5, 6]\<rparr>" "[[1, 2], [3, 5], [6]]"] run cs b by auto
  with run show ?thesis by blast
qed

end
