(* ===== verification/ChunkErrors.thy ===== *)
theory ChunkErrors
  imports ChunkProperties
begin

text \<open>
  Skips, retries and errors of the chunk executor: what \<open>runPhase\<close> guarantees about the
  budgets, how every error of the body becomes a FAILED result, and two behaviours a user
  of the executor would not expect.
\<close>

section \<open>The skip budget\<close>

text \<open>\<open>keepsSkips m\<close>: \<open>m\<close> leaves the skip counter alone.\<close>

definition keepsSkips :: "('w chunkState, 'a) M \<Rightarrow> bool" where
  "keepsSkips m \<longleftrightarrow> (\<forall>s r s'. m s = (r, s') \<longrightarrow> cst_skipCount s' = cst_skipCount s)"

lemma keepsSkips_inWorld [intro]: "keepsSkips (inWorld m)"
  by (auto simp: keepsSkips_def inWorld_apply split: prod.splits)

lemma keepsSkips_returnM [intro]: "keepsSkips (returnM x)"
  by (simp add: keepsSkips_def)

lemma keepsSkips_attemptM: "keepsSkips m \<Longrightarrow> keepsSkips (attemptM m)"
  by (auto simp: keepsSkips_def attemptM_def catchM_def bindM_def split: prod.splits outcome.splits)

lemma consultRetry_state: "consultRetry opts attempt err s = (r, s') \<Longrightarrow> s' = s"
  by (auto simp: consultRetry_def liftE_def bindM_def split: option.splits sum.splits if_splits)

text \<open>The options of the three phases, as far as skips are concerned.\<close>

definition skipsCounted :: "('w chunkState, 'v) phaseOptions \<Rightarrow> bool" where
  "skipsCounted opts \<longleftrightarrow> po_getSkipCount opts = cst_skipCount \<and> keepsSkips (po_before opts)
     \<and> (\<forall>v. keepsSkips (po_after opts v)) \<and> (\<forall>e. keepsSkips (po_onError opts e))
     \<and> (\<forall>e. \<exists>m. po_onSkip opts e = thenM (addSkips 1) (inWorld m))"

lemma skipsCounted_options:
  "skipsCounted (readOptions env lctx)" "skipsCounted (processOptions env lctx item)"
  "skipsCounted (writeOptions env lctx items)"
  by (auto simp: skipsCounted_def readOptions_def processOptions_def writeOptions_def split: option.splits)

text \<open>What a granted skip rests on: the budget allows the new count, and the policy names an error.\<close>

definition skipAllowed :: "skipPolicy option \<Rightarrow> number \<Rightarrow> int \<Rightarrow> bool" where
  "skipAllowed policy limit n \<longleftrightarrow> \<not> numLess limit (Fin (of_int n))
     \<and> (\<exists>p err. policy = Some p \<and> p err \<lparr>kc_skipCount = Fin 0, kc_skipLimit = limit\<rparr> = Inr True)"

lemma consultSkip_effect:
  assumes "skipsCounted opts" "consultSkip opts err s = (Value b, s')"
  shows "if b then cst_skipCount s' = cst_skipCount s + 1
       \<and> skipAllowed (po_skipPolicy opts) (po_skipLimit opts) (cst_skipCount s')
     else s' = s"
proof -
  obtain m where "po_onSkip opts err = thenM (addSkips 1) (inWorld m)" and "po_getSkipCount opts = cst_skipCount"
    using assms(1) unfolding skipsCounted_def by blast
  with assms(2) show ?thesis
    by (auto simp: skipAllowed_def consultSkip_def liftE_def addSkips_def thenM_def bindM_def inWorld_apply
        split: option.splits sum.splits if_splits prod.splits outcome.splits)
qed

lemma runPhaseLoop_skips:
  assumes "skipsCounted opts" "keepsSkips op" "runPhaseLoop left attempt op opts s = (Value r, s')"
  shows "case r of PhaseOk v \<Rightarrow> cst_skipCount s' = cst_skipCount s
     | PhaseSkipped \<Rightarrow> cst_skipCount s' = cst_skipCount s + 1
         \<and> skipAllowed (po_skipPolicy opts) (po_skipLimit opts) (cst_skipCount s')"
  using assms(3)
proof (induction left arbitrary: attempt s)
  case (Suc left)
  have keep: "keepsSkips (po_before opts)" "\<And>v. keepsSkips (po_after opts v)"
    "\<And>e. keepsSkips (po_onError opts e)"
    using assms(1) by (auto simp: skipsCounted_def)
  obtain x s1 where s1: "po_before opts s = (Value x, s1)" and rest1:
    "bindM (attemptM op) (\<lambda>r. case r of
         Inr value \<Rightarrow> thenM (po_after opts value) (returnM (PhaseOk value))
       | Inl err \<Rightarrow>
           thenM (po_onError opts err) (bindM (consultSkip opts err) (\<lambda>skipped.
             if skipped then returnM PhaseSkipped
             else bindM (consultRetry opts attempt err) (\<lambda>retry.
               if retry then runPhaseLoop left (attempt + 1) op opts
               else throwM err)))) s1 = (Value r, s')"
    using Suc.prems by (auto simp: thenM_def elim: bindM_Value_elim)
  obtain a s2 where s2: "attemptM op s1 = (Value a, s2)" and rest2:
    "(case a of
         Inr value \<Rightarrow> thenM (po_after opts value) (returnM (PhaseOk value))
       | Inl err \<Rightarrow>
           thenM (po_onError opts err) (bindM (consultSkip opts err) (\<lambda>skipped.
             if skipped then returnM PhaseSkipped
             else bindM (consultRetry opts attempt err) (\<lambda>retry.
               if retry then runPhaseLoop left (attempt + 1) op opts
               else throwM err)))) s2 = (Value r, s')"
    using rest1 by (rule bindM_Value_elim)
  have c2: "cst_skipCount s2 = cst_skipCount s"
    using keep(1) s1 keepsSkips_attemptM [OF assms(2)] s2 by (simp add: keepsSkips_def)
  show ?case
  proof (cases a)
    case (Inr v)
    with rest2 obtain y where "po_after opts v s2 = (Value y, s')" "r = PhaseOk v"
      by (auto simp: thenM_def elim!: bindM_Value_elim)
    with keep(2) [of v] c2 show ?thesis by (simp add: keepsSkips_def)
  next
    case (Inl err)
    with rest2 obtain y s3 b s4 where s3: "po_onError opts err s2 = (Value y, s3)"
      and s4: "consultSkip opts err s3 = (Value b, s4)"
      and rest4: "(if b then returnM PhaseSkipped
             else bindM (consultRetry opts attempt err) (\<lambda>retry.
               if retry then runPhaseLoop left (attempt + 1) op opts
               else throwM err)) s4 = (Value r, s')"
      by (auto simp: thenM_def elim!: bindM_Value_elim)
    have c3: "cst_skipCount s3 = cst_skipCount s"
      using keep(3) [of err] s3 c2 by (simp add: keepsSkips_def)
    show ?thesis
    proof (cases b)
      case True
      then have "r = PhaseSkipped" "s' = s4" using rest4 by simp_all
      with consultSkip_effect [OF assms(1) s4] True c3 show ?thesis by auto
    next
      case False
      then have "s4 = s3" using consultSkip_effect [OF assms(1) s4] by simp
      obtain retry s5 where s5: "consultRetry opts attempt err s4 = (Value retry, s5)"
        and rest5: "(if retry then runPhaseLoop left (attempt + 1) op opts else throwM err) s5 = (Value r, s')"
        using rest4 False by (auto elim: bindM_Value_elim)
      then have "runPhaseLoop left (attempt + 1) op opts s5 = (Value r, s')" "s5 = s4"
        using consultRetry_state [OF s5] by (auto split: if_splits)
      with Suc.IH [of "attempt + 1" s5] \<open>s4 = s3\<close> c3 show ?thesis by (cases r) auto
    qed
  qed
qed simp

definition budgetKept :: "('w, 'i) chunkEnv \<Rightarrow> 'v phaseResult \<Rightarrow> 'w chunkState \<Rightarrow> 'w chunkState \<Rightarrow> bool" where
  "budgetKept env r s s' \<longleftrightarrow> (case r of
      PhaseOk v \<Rightarrow> cst_skipCount s' = cst_skipCount s
    | PhaseSkipped \<Rightarrow> cst_skipCount s' = cst_skipCount s + 1
         \<and> skipAllowed (ev_skipPolicy env) (ev_skipLimit env) (cst_skipCount s'))"

lemma runPhase_budget:
  assumes "skipsCounted opts" "po_skipLimit opts = ev_skipLimit env" "po_skipPolicy opts = ev_skipPolicy env"
    and "runPhase (inWorld m) opts s = (Value r, s')"
  shows "budgetKept env r s s'"
  using runPhaseLoop_skips [OF assms(1) keepsSkips_inWorld assms(4) [unfolded runPhase_def]]
  unfolding assms(2,3) budgetKept_def by (simp only:)

lemma options_policy:
  "po_skipLimit (readOptions env lctx) = ev_skipLimit env"
  "po_skipLimit (processOptions env lctx item) = ev_skipLimit env"
  "po_skipLimit (writeOptions env lctx items) = ev_skipLimit env"
  "po_skipPolicy (readOptions env lctx) = ev_skipPolicy env"
  "po_skipPolicy (processOptions env lctx item) = ev_skipPolicy env"
  "po_skipPolicy (writeOptions env lctx items) = ev_skipPolicy env"
  by (simp_all add: readOptions_def processOptions_def writeOptions_def)


section \<open>A reader that fails\<close>

text \<open>Reading \<open>0\<close> throws; the policy skips errors of any class up to the limit.\<close>

definition flakyReader :: "(simWorld, nat) itemReader" where
  "flakyReader = functionReader (\<lambda>_ w. case sw_left w of
      [] \<Rightarrow> (Value None, w)
    | x # xs \<Rightarrow> (if x = 0 then Throw (plainError ''bad item'') else Value (Some x), w\<lparr>sw_left := xs\<rparr>))"

definition anyError :: skippable where
  "anyError = \<lparr>sk_length = 1, sk_prototype = NoPrototype, sk_call = (\<lambda>_. Some True), sk_class = []\<rparr>"

definition flakyStep :: "rat \<Rightarrow> int \<Rightarrow> (simWorld, nat) chunkStepDefinition" where
  "flakyStep limit chunkSize = (simStep (\<lambda>_. False))\<lparr>cs_chunkSize := chunkSize, cs_reader := objectRef flakyReader,
     cs_skipPolicy := Some \<lparr>sc_limit = Fin limit, sc_skippable = [anyError]\<rparr>\<rparr>"

definition observe :: "stepResult outcome \<times> simWorld \<Rightarrow> stepResult outcome \<times> nat list \<times> nat list list" where
  "observe p = (fst p, sw_left (snd p), sw_batches (snd p))"

text \<open>The skipped item counts once, and the budget of one is used up.\<close>

lemma flaky_run:
  "observe (executeChunkStep 5 (flakyStep 1 2) (simContext None) (simWorldOf [1, 0, 3])) = (Value
     \<lparr>sr_status = StepCompleted, sr_exitCode = ''COMPLETED'', sr_exitMessage = [], sr_readCount = 2,
      sr_writeCount = 2, sr_skipCount = 1, sr_commitCount = Some 2\<rparr>, [], [[10], [30]])"
  by code_simp


section \<open>The retry budget\<close>

text \<open>
  An operation that always throws an error the policy retries. \<open>tick\<close> is what one attempt
  does to the state.
\<close>

lemma funpow_swap: "(tick ^^ n) (tick s) = (tick ^^ Suc n) s"
  by (simp add: funpow_swap1)

lemma retry_decision:
  assumes "compileRetryPolicy cfg = Inr policy"
    and "someM (matchesSkippableRetry err) (rc_retryable cfg) = Inr True"
  shows "canRetry policy err c = Inr (\<not> numLess (yc_retryLimit c) (Fin (of_nat (yc_attempt c))))"
  using assms by (auto simp: compileRetryPolicy_def retryCanRetry_def split: if_splits)

lemma runPhaseLoop_retries:
  assumes "po_before opts = returnM ()" "\<And>e. po_onError opts e = returnM ()" "po_skipPolicy opts = None"
    and "po_retryPolicy opts = Some policy" "po_retryLimit opts = Fin (of_nat L)"
    and "\<And>c. canRetry policy err c = Inr (\<not> numLess (yc_retryLimit c) (Fin (of_nat (yc_attempt c))))"
    and "op = (\<lambda>s. (Throw err, tick s))" "attempt + left = 1000" "0 < attempt" "attempt \<le> Suc L"
  shows "runPhaseLoop left attempt op opts s =
    (Throw (if L < 999 then retryLimitExceededError (Fin (of_nat L)) else exhaustedAttempts (po_phase opts)),
     (tick ^^ (min (Suc L) 999 - (attempt - 1))) s)"
  using assms(8-10)
proof (induction left arbitrary: attempt s)
  case 0
  then show ?case by simp
next
  case (Suc left)
  have op: "attemptM op s = (Value (Inl err), tick s)"
    by (simp add: assms(7) attemptM_Throw)
  show ?case
  proof (cases "attempt \<le> L")
    case True
    then have retry: "consultRetry opts attempt err (tick s) = (Value True, tick s)"
      using assms(4-6) by (simp add: consultRetry_def)
    have "runPhaseLoop (Suc left) attempt op opts s = runPhaseLoop left (attempt + 1) op opts (tick s)"
      using retry op by (simp add: assms(1-3) consultSkip_def)
    moreover have "min (Suc L) 999 - (attempt - 1) = Suc (min (Suc L) 999 - attempt)"
      using Suc.prems True by simp
    ultimately show ?thesis
      using Suc.IH [of "attempt + 1" "tick s"] Suc.prems True by (simp add: funpow_swap1)
  next
    case False
    then have a: "attempt = Suc L" "L < 999" using Suc.prems by simp_all
    have "consultRetry opts attempt err (tick s) = (Throw (retryLimitExceededError (Fin (of_nat L))), tick s)"
      using assms(4-6) a by (simp add: consultRetry_def bindM_def)
    then show ?thesis using op a by (simp add: assms(1-3) consultSkip_def)
  qed
qed

text \<open>
  C9: an operation that keeps failing with a retryable error is tried exactly one time more
  than the retry limit and then fails with \<open>RetryLimitExceededError\<close>; but from a limit of
  999 on it is given up after 999 attempts, with an error that says there was no retry
  policy.
\<close>
theorem retry_attempts:
  assumes "po_before opts = returnM ()" "\<And>e. po_onError opts e = returnM ()" "po_skipPolicy opts = None"
    and "compileRetryPolicy cfg = Inr policy" "po_retryPolicy opts = Some policy"
    and "rc_limit cfg = Fin (of_nat L)" "po_retryLimit opts = rc_limit cfg"
    and "someM (matchesSkippableRetry err) (rc_retryable cfg) = Inr True"
    and "op = (\<lambda>s. (Throw err, tick s))"
  shows "runPhase op opts s =
    (Throw (if L < 999 then retryLimitExceededError (Fin (of_nat L)) else exhaustedAttempts (po_phase opts)),
     (tick ^^ min (Suc L) 999) s)"
proof -
  have "outerCap opts = 999" using assms(5) by (simp add: outerCap_def)
  then show ?thesis
    using runPhaseLoop_retries [OF assms(1-3,5) _ retry_decision [OF assms(4,8)] assms(9), of L 1 999 s] assms(6,7)
    by (simp add: runPhase_def)
qed

definition countingOptions :: "retryPolicyConfig \<Rightarrow> (nat, nat option) phaseOptions" where
  "countingOptions cfg = \<lparr>po_phase = ReadPhase, po_skipPolicy = None,
     po_retryPolicy = Some \<lparr>canRetry = retryCanRetry cfg, backoffMs = retryBackoff (rc_backoff cfg)\<rparr>,
     po_skipLimit = Fin 0, po_retryLimit = rc_limit cfg, po_getSkipCount = (\<lambda>_. 0),
     po_onSkip = (\<lambda>_. returnM ()), po_before = returnM (), po_after = (\<lambda>_. returnM ()),
     po_onError = (\<lambda>_. returnM ())\<rparr>"

definition retryAny :: "nat \<Rightarrow> retryPolicyConfig" where
  "retryAny L = \<lparr>rc_limit = Fin (of_nat L), rc_retryable = [anyError], rc_backoff = BackoffNone\<rparr>"

theorem retry_attempts_witness:
  "runPhase (\<lambda>n. (Throw (plainError ''down''), Suc n)) (countingOptions (retryAny 3)) 0
     = (Throw (retryLimitExceededError (Fin 3)), 4)
   \<and> runPhase (\<lambda>n. (Throw (plainError ''down''), Suc n)) (countingOptions (retryAny 5000)) 0
     = (Throw (exhaustedAttempts ReadPhase), 999)"
proof -
  have "runPhase (\<lambda>n. (Throw (plainError ''down''), Suc n)) (countingOptions (retryAny L)) 0
     = (Throw (if L < 999 then retryLimitExceededError (Fin (of_nat L)) else exhaustedAttempts ReadPhase),
        min (Suc L) 999)" if "0 < L" for L
    using retry_attempts [of "countingOptions (retryAny L)" "retryAny L"
        "\<lparr>canRetry = retryCanRetry (retryAny L), backoffMs = retryBackoff (rc_backoff (retryAny L))\<rparr>" L
        "plainError ''down''" "\<lambda>n. (Throw (plainError ''down''), Suc n)" Suc 0] that
    by (simp add: countingOptions_def retryAny_def compileRetryPolicy_def matchesSkippableRetry_def anyError_def)
  from this [of 3] this [of 5000] show ?thesis by simp
qed

section \<open>Errors become results\<close>

lemma neverThrows_inWorld: "neverThrows m \<Longrightarrow> neverThrows (inWorld m)"
  by (auto simp: neverThrows_def inWorld_apply split: prod.splits) (metis fst_conv)

lemma finishFailed_outcome:
  assumes "quiet (ev_listeners env)"
  shows "(\<exists>r s'. finishFailed env err s = (Value r, s') \<and> sr_status r = StepFailed \<and> sr_exitCode r = ''FAILED'')
    \<or> (\<exists>s'. finishFailed env err s = (OutOfFuel, s'))"
proof -
  obtain o1 s1 where "takeAndClose s = (o1, s1)" by (metis surj_pair)
  then show ?thesis using assms
    by (cases o1) (simp_all add: finishFailed_def Let_def invoke_quiet invokeAfterStepResult_quiet
        catchM_def bindM_def thenM_def stepResultOf_def)
qed

lemma finishCompleted_outcome:
  assumes "quiet (ev_listeners env)" "finishCompleted env s = (Value r, s')"
  shows "sr_status r = StepCompleted \<and> sr_exitCode r = ''COMPLETED''"
proof -
  obtain o1 s1 where "takeAndClose s = (o1, s1)" by (metis surj_pair)
  then show ?thesis using assms
    by (cases o1) (auto simp: finishCompleted_def invokeAfterStepResult_quiet thenM_def bindM_def stepResultOf_def)
qed



section \<open>Two surprises\<close>



text \<open>The whole step of such a run: COMPLETED, with two items never read.\<close>

lemma skipped_chunk_run:
  "observe (executeChunkStep 5 (flakyStep 5 1) (simContext None) (simWorldOf [0, 2, 4])) = (Value
     \<lparr>sr_status = StepCompleted, sr_exitCode = ''COMPLETED'', sr_exitMessage = [], sr_readCount = 0,
      sr_writeCount = 0, sr_skipCount = 1, sr_commitCount = Some 0\<rparr>, [2, 4], [])"
  by code_simp

end
