(* ===== verification/JobExecutor.thy ===== *)
theory JobExecutor
  imports FlowEvaluator ChunkStepExecutor TaskletStepExecutor
begin

text \<open>
  \<open>JobExecutor\<close> (\<open>execution/job-executor.ts\<close>): the flow loop over the steps of a job, with
  the rows it persists, the listeners and the observer it calls, deciders, the linear
  fallback and the restart of chunk steps. The loop takes fuel; so does the chunk loop
  inside it. The clock is a reading of the world.
\<close>

section \<open>Events (observability/event-types.ts)\<close>

datatype batchEventType = EvJobStarted | EvJobCompleted | EvJobFailed
  | EvStepStarted | EvStepCompleted | EvStepFailed
  | EvChunkProcessed | EvItemSkipped | EvItemRetried

fun batchEventText :: "batchEventType \<Rightarrow> string" where
  "batchEventText EvJobStarted = ''nest-batch.job.started''"
| "batchEventText EvJobCompleted = ''nest-batch.job.completed''"
| "batchEventText EvJobFailed = ''nest-batch.job.failed''"
| "batchEventText EvStepStarted = ''nest-batch.step.started''"
| "batchEventText EvStepCompleted = ''nest-batch.step.completed''"
| "batchEventText EvStepFailed = ''nest-batch.step.failed''"
| "batchEventText EvChunkProcessed = ''nest-batch.chunk.processed''"
| "batchEventText EvItemSkipped = ''nest-batch.item.skipped''"
| "batchEventText EvItemRetried = ''nest-batch.item.retried''"

record batchEvent =
  be_type :: batchEventType
  be_timestamp :: date
  be_jobExecutionId :: string
  be_stepExecutionId :: "string option"
  be_data :: json

type_synonym 'w batchObserver = "batchEvent \<Rightarrow> ('w, unit) M"

definition noopObserver :: "'w batchObserver" where
  "noopObserver event = returnM ()"

section \<open>The executor's parts\<close>

text \<open>\<open>withTransaction\<close> is generic in the callback's result: one view per step kind.\<close>

record 'w jobExecutor =
  jx_repository :: "'w jobRepository"
  jx_writeTransaction :: "('w, writerResult option) M \<Rightarrow> ('w, writerResult option) M"
  jx_taskletTransaction :: "('w, string option) M \<Rightarrow> ('w, string option) M"
  jx_observer :: "'w batchObserver"
  jx_clock :: "'w \<Rightarrow> date"

record partitionArgs =
  pa_index :: "number option"
  pa_count :: "number option"

definition noPartition :: partitionArgs where
  "noPartition = \<lparr>pa_index = None, pa_count = None\<rparr>"

definition emit :: "'w jobExecutor \<Rightarrow> batchEventType \<Rightarrow> string \<Rightarrow> string option \<Rightarrow> json \<Rightarrow> ('w, unit) M" where
  "emit jx ty jobExecutionId stepExecutionId body =
     bindM (getM (jx_clock jx)) (\<lambda>now.
       catchM (jx_observer jx \<lparr>be_type = ty, be_timestamp = now, be_jobExecutionId = jobExecutionId,
             be_stepExecutionId = stepExecutionId, be_data = body\<rparr>)
         (\<lambda>_. returnM ()))"

section \<open>Listener resolvers\<close>

definition resolveListenerRef :: "('w, 'i) listenerDefinition \<Rightarrow> ('w, 'i) listenerFn option" where
  "resolveListenerRef def = (case lr_kind (ld_ref def) of
      BuilderLambda \<Rightarrow> lr_fn (ld_ref def)
    | MethodRef \<Rightarrow> None
    | ProviderToken \<Rightarrow> None)"

definition resolveListenerName :: "('w, 'i) listenerRef \<Rightarrow> nat \<Rightarrow> string" where
  "resolveListenerName r lambdaCounter =
     (if lr_kind r = MethodRef
      then orKeep (lr_classToken r) ''<unknown>'' @ ''.'' @ orKeep (lr_methodName r) ''<unknown>''
      else ''lambda-'' @ showNat lambdaCounter)"

definition listenerKey :: "('w, 'i) listenerDefinition \<Rightarrow> string \<Rightarrow> string" where
  "listenerKey def name = (case (ld_kind def, ld_skipKind def) of
      (KSkip, Some k) \<Rightarrow> ''on-skip:'' @ skipSubKindText k @ '':'' @ name
    | _ \<Rightarrow> listenerPhaseText (ld_phase def) @ '':'' @ listenerKindText (ld_kind def) @ '':'' @ name)"

fun buildResolverLoop :: "('w, 'i) listenerDefinition list \<Rightarrow> nat \<Rightarrow> ('w, 'i) resolverMap \<Rightarrow>
    ('w, 'i) resolverMap" where
  "buildResolverLoop [] lambdaCounter resolvers = resolvers"
| "buildResolverLoop (def # defs) lambdaCounter resolvers = (case resolveListenerRef def of
      None \<Rightarrow> buildResolverLoop defs lambdaCounter resolvers
    | Some fn \<Rightarrow>
        buildResolverLoop defs
          (if lr_kind (ld_ref def) = BuilderLambda then lambdaCounter + 1 else lambdaCounter)
          (mapSet (listenerKey def (resolveListenerName (ld_ref def) lambdaCounter))
            \<lparr>le_fn = fn, le_nonCritical = ld_nonCritical def\<rparr> resolvers))"

definition buildResolverMap :: "('w, 'i) jobDefinition \<Rightarrow> ('w, 'i) resolverMap" where
  "buildResolverMap jobDef = buildResolverLoop (job_listeners jobDef) 0 []"

definition legacyKeyOf :: "string \<Rightarrow> string option" where
  "legacyKeyOf key =
     (if startsWith ''before:step:'' key
      then Some (''before-step:'' @ drop (length ''before:step:'') key)
      else if startsWith ''after:step:'' key
      then Some (''after-step:'' @ drop (length ''after:step:'') key)
      else if startsWith ''on-error:step:'' key
      then Some (''on-step-error:'' @ drop (length ''on-error:step:'') key)
      else None)"

definition buildLegacyStepResolvers :: "('w, 'i) resolverMap \<Rightarrow> ('w, 'i) legacyResolvers" where
  "buildLegacyStepResolvers resolvers =
     foldl (\<lambda>legacy (key, entry). case legacyKeyOf key of
         None \<Rightarrow> legacy
       | Some k \<Rightarrow> mapSet k (le_fn entry) legacy) [] resolvers"

section \<open>One step\<close>

definition readLastCheckpoint :: "executionContext \<Rightarrow> rat option" where
  "readLastCheckpoint ctx = (case ctx_data ctx of
      JObj props \<Rightarrow> (case mapGet props ''lastChunkIndex'' of
          Some (JNum (Fin q)) \<Rightarrow> Some q
        | _ \<Rightarrow> None)
    | _ \<Rightarrow> None)"

text \<open>The context a restarted chunk step resumes from, looked up before its new row exists.\<close>

definition restartContextOf :: "'w jobExecutor \<Rightarrow> bool \<Rightarrow> string \<Rightarrow> ('w, 'i) stepDefinition \<Rightarrow>
    ('w, executionContext option) M" where
  "restartContextOf jx isRestart executionId step =
     (if isRestart \<and> isChunkStep step then
        bindM (repo_findLatestStepExecution (jx_repository jx) executionId (stepIdOf step)) (\<lambda>prior.
          case prior of
            Some priorFailed \<Rightarrow>
              if se_status priorFailed = StepFailed then
                bindM (repo_getExecutionContext (jx_repository jx) (StepScope (se_id priorFailed)))
                  (\<lambda>ctx. returnM (Some ctx))
              else returnM None
          | None \<Rightarrow> returnM None)
      else returnM None)"

definition taskletContextFor :: "'w jobExecutor \<Rightarrow> jobExecution \<Rightarrow> ('w, 'i) legacyResolvers \<Rightarrow> string \<Rightarrow>
    string \<Rightarrow> ('w, 'i) taskletExecutionContext" where
  "taskletContextFor jx execution stepResolvers stepId stepExecutionId = \<lparr>
     tx_jobExecutionId = je_id execution, tx_stepExecutionId = Some stepExecutionId,
     tx_stepName = Some stepId, tx_jobParameters = Some (je_params execution),
     tx_withTransaction = jx_taskletTransaction jx, tx_listenerResolvers = stepResolvers,
     tx_providerResolvers = None\<rparr>"

definition chunkContextFor :: "'w jobExecutor \<Rightarrow> jobExecution \<Rightarrow> ('w, 'i) resolverMap \<Rightarrow> string \<Rightarrow>
    string \<Rightarrow> rat option \<Rightarrow> partitionArgs \<Rightarrow> ('w, 'i) chunkExecutionContext" where
  "chunkContextFor jx execution jobResolvers stepId stepExecutionId resume part =
     (let both = (pa_index part \<noteq> None \<and> pa_count part \<noteq> None) in
      \<lparr>xc_jobExecutionId = je_id execution, xc_stepExecutionId = stepExecutionId,
       xc_stepName = Some stepId, xc_jobParameters = Some (je_params execution),
       xc_jobRepository = jx_repository jx, xc_withTransaction = jx_writeTransaction jx,
       xc_listenerResolvers = Some jobResolvers, xc_skipListenerResolvers = None,
       xc_readerMethods = [], xc_processorMethods = [], xc_writerMethods = [],
       xc_jobExecutionId2 = je_id execution, xc_readerProviders = None,
       xc_processorProviders = None, xc_writerProviders = None,
       xc_resumeFromChunkIndex = resume,
       xc_partitionIndex = (if both then pa_index part else None),
       xc_partitionCount = (if both then pa_count part else None)\<rparr>)"

text \<open>The two executors, by the kind of the step.\<close>

definition runStepBody :: "nat \<Rightarrow> 'w jobExecutor \<Rightarrow> jobExecution \<Rightarrow> ('w, 'i) resolverMap \<Rightarrow> partitionArgs \<Rightarrow>
    ('w, 'i) stepDefinition \<Rightarrow> string \<Rightarrow> rat option \<Rightarrow> ('w, stepResult) M" where
  "runStepBody fuel jx execution jobResolvers part step stepExecutionId resume = (case step of
      TaskletStep t \<Rightarrow> executeTasklet t
        (taskletContextFor jx execution (buildLegacyStepResolvers jobResolvers) (ts_id t) stepExecutionId)
    | ChunkStep c \<Rightarrow> executeChunkStep fuel c
        (chunkContextFor jx execution jobResolvers (cs_id c) stepExecutionId resume part))"

definition stepFailedPatch :: "exn \<Rightarrow> date \<Rightarrow> stepExecutionPatch" where
  "stepFailedPatch err now = emptyStepPatch\<lparr>sp_status := Some StepFailed, sp_exitCode := Some ''FAILED'',
     sp_exitMessage := Some (errorText err), sp_endTime := Some (Some now)\<rparr>"

definition stepResultPatch :: "stepResult \<Rightarrow> date \<Rightarrow> stepExecutionPatch" where
  "stepResultPatch result now = emptyStepPatch\<lparr>sp_status := Some (sr_status result),
     sp_readCount := Some (sr_readCount result), sp_writeCount := Some (sr_writeCount result),
     sp_skipCount := Some (sr_skipCount result), sp_commitCount := sr_commitCount result,
     sp_exitCode := Some (sr_exitCode result), sp_exitMessage := Some (sr_exitMessage result),
     sp_endTime := Some (Some now)\<rparr>"

fun stepStatusText :: "StepStatus \<Rightarrow> string" where
  "stepStatusText StepStarting = ''STARTING''"
| "stepStatusText StepStarted = ''STARTED''"
| "stepStatusText StepCompleted = ''COMPLETED''"
| "stepStatusText StepFailed = ''FAILED''"
| "stepStatusText StepStopped = ''STOPPED''"
| "stepStatusText StepUnknown = ''UNKNOWN''"

definition stepKindText :: "('w, 'i) stepDefinition \<Rightarrow> string" where
  "stepKindText step = (if isChunkStep step then ''chunk'' else ''tasklet'')"

text \<open>From the look-up of a step to its persisted result; a throwing executor is rethrown.\<close>

definition runStep :: "nat \<Rightarrow> 'w jobExecutor \<Rightarrow> jobExecution \<Rightarrow> ('w, 'i) resolverMap \<Rightarrow> partitionArgs \<Rightarrow>
    bool \<Rightarrow> ('w, 'i) stepDefinition \<Rightarrow> ('w, stepResult \<times> string) M" where
  "runStep fuel jx execution jobResolvers part isRestart step =
     (let repo = jx_repository jx; exid = je_id execution in
      bindM (restartContextOf jx isRestart exid step) (\<lambda>restartCtx.
      bindM (repo_createStepExecution repo exid (stepIdOf step)) (\<lambda>stepExecution.
      thenM (case restartCtx of None \<Rightarrow> returnM ()
         | Some ctx \<Rightarrow> repo_saveExecutionContext repo (StepScope (se_id stepExecution)) ctx None)
      (thenM (emit jx EvStepStarted exid (Some (se_id stepExecution))
          (JObj [(''stepId'', JStr (stepIdOf step)), (''kind'', JStr (stepKindText step))]))
      (bindM (catchM
          (runStepBody fuel jx execution jobResolvers part step (se_id stepExecution)
            (Option.bind restartCtx readLastCheckpoint))
          (\<lambda>stepErr. bindM (getM (jx_clock jx)) (\<lambda>now.
             thenM (repo_updateStepExecution repo (se_id stepExecution) (stepFailedPatch stepErr now))
               (throwM stepErr))))
        (\<lambda>result. bindM (getM (jx_clock jx)) (\<lambda>now.
         thenM (repo_updateStepExecution repo (se_id stepExecution) (stepResultPatch result now))
         (thenM (emit jx (if sr_status result = StepFailed then EvStepFailed else EvStepCompleted)
             exid (Some (se_id stepExecution))
             (JObj [(''stepId'', JStr (stepIdOf step)), (''status'', JStr (stepStatusText (sr_status result))),
                (''exitCode'', JStr (sr_exitCode result))]))
           (returnM (result, se_id stepExecution))))))))))"

section \<open>Where the flow goes next\<close>

definition resolveDeciderExitStatus :: "('w, 'i) jobDefinition \<Rightarrow> string \<Rightarrow> deciderContext \<Rightarrow>
    ('w, string option) M" where
  "resolveDeciderExitStatus jobDef stepId ctx =
     (case find (\<lambda>d. afterStepId d = stepId) (job_deciders jobDef) of
        None \<Rightarrow> returnM None
      | Some decider \<Rightarrow> bindM (decide decider ctx) (\<lambda>status.
          returnM (let trimmed = trimString status in if trimmed = [] then None else Some trimmed)))"

definition flowStatusOf :: "StepStatus \<Rightarrow> string" where
  "flowStatusOf status = flowStatusText (case status of
      StepCompleted \<Rightarrow> FlowCompleted
    | StepFailed \<Rightarrow> FlowFailed
    | _ \<Rightarrow> FlowUnknown)"

definition flowExitStatusOf :: "string option \<Rightarrow> stepResult \<Rightarrow> string" where
  "flowExitStatusOf decided result = (case decided of
      Some status \<Rightarrow> status
    | None \<Rightarrow> if sr_exitCode result = [] then flowStatusOf (sr_status result) else sr_exitCode result)"

definition hasMatching :: "transitionDefinition list \<Rightarrow> string \<Rightarrow> string \<Rightarrow> bool" where
  "hasMatching transitions stepId status \<longleftrightarrow> list_ex (\<lambda>t. matchesTransition t stepId status) transitions"

text \<open>The step after \<open>stepId\<close> in declaration order.\<close>

fun nextInOrder :: "string list \<Rightarrow> string \<Rightarrow> string option" where
  "nextInOrder [] stepId = None"
| "nextInOrder (x # xs) stepId =
     (if x = stepId then (case xs of [] \<Rightarrow> None | y # _ \<Rightarrow> Some y) else nextInOrder xs stepId)"

datatype flowDecision = GoTo "string option" | FailJob

definition decideNext :: "('w, 'i) jobDefinition \<Rightarrow> string \<Rightarrow> stepResult \<Rightarrow> string \<Rightarrow> exn + flowDecision" where
  "decideNext jobDef stepId result flowExitStatus =
     (let transitions = job_transitions jobDef; flowStatus = flowStatusOf (sr_status result) in
      case evaluate transitions stepId flowExitStatus of
        Inl e \<Rightarrow> Inl e
      | Inr target \<Rightarrow>
          if hasMatching transitions stepId flowExitStatus then Inr (GoTo target)
          else (case (if flowExitStatus \<noteq> flowStatus then evaluate transitions stepId flowStatus
                      else Inr target) of
              Inl e \<Rightarrow> Inl e
            | Inr target2 \<Rightarrow>
                if flowExitStatus \<noteq> flowStatus \<and> hasMatching transitions stepId flowStatus
                then Inr (GoTo target2)
                else if sr_status result = StepFailed then Inr FailJob
                else Inr (GoTo (nextInOrder (mapKeys (job_steps jobDef)) stepId))))"

section \<open>The flow loop\<close>

definition noSuchStepPatch :: "string \<Rightarrow> date \<Rightarrow> jobExecutionPatch" where
  "noSuchStepPatch stepId now = emptyJobPatch\<lparr>jp_status := Some JobFailed, jp_endTime := Some (Some now),
     jp_exitCode := Some ''NO_SUCH_STEP'',
     jp_exitMessage := Some (''Step '' @ [CHR 0x22] @ stepId @ [CHR 0x22] @ '' not found'')\<rparr>"

definition failJobPatch :: "stepResult \<Rightarrow> date \<Rightarrow> jobExecutionPatch" where
  "failJobPatch result now = emptyJobPatch\<lparr>jp_status := Some JobFailed, jp_endTime := Some (Some now),
     jp_exitCode := Some (sr_exitCode result), jp_exitMessage := Some (sr_exitMessage result)\<rparr>"

definition completedPatch :: "date \<Rightarrow> jobExecutionPatch" where
  "completedPatch now = emptyJobPatch\<lparr>jp_status := Some JobCompleted, jp_endTime := Some (Some now),
     jp_exitCode := Some ''COMPLETED''\<rparr>"

definition crashedPatch :: "exn \<Rightarrow> date \<Rightarrow> jobExecutionPatch" where
  "crashedPatch err now = emptyJobPatch\<lparr>jp_status := Some JobFailed, jp_endTime := Some (Some now),
     jp_exitMessage := Some (errorText err)\<rparr>"

definition startedPatch :: "date \<Rightarrow> jobExecutionPatch" where
  "startedPatch now = emptyJobPatch\<lparr>jp_status := Some JobStarted, jp_startTime := Some (Some now)\<rparr>"

definition updateJob :: "'w jobExecutor \<Rightarrow> string \<Rightarrow> (date \<Rightarrow> jobExecutionPatch) \<Rightarrow> ('w, unit) M" where
  "updateJob jx executionId patch =
     bindM (getM (jx_clock jx)) (\<lambda>now. repo_updateJobExecution (jx_repository jx) executionId (patch now))"

text \<open>One turn of the loop at a step that exists: run it, ask the decider, look for the way on.\<close>

definition flowTurn :: "nat \<Rightarrow> 'w jobExecutor \<Rightarrow> jobExecution \<Rightarrow> ('w, 'i) jobDefinition \<Rightarrow> partitionArgs \<Rightarrow>
    bool \<Rightarrow> string \<Rightarrow> ('w, 'i) stepDefinition \<Rightarrow> ('w, flowDecision \<times> stepResult) M" where
  "flowTurn fuel jx execution jobDef part isRestart stepId step =
     bindM (runStep fuel jx execution (buildResolverMap jobDef) part isRestart step) (\<lambda>(result, stepExecutionId).
     bindM (resolveDeciderExitStatus jobDef stepId \<lparr>dc_jobExecution = execution, dc_stepId = stepIdOf step,
         dc_stepExecutionId = stepExecutionId, dc_stepStatus = sr_status result,
         dc_exitCode = sr_exitCode result, dc_exitMessage = sr_exitMessage result\<rparr>) (\<lambda>decided.
     bindM (liftE (decideNext jobDef stepId result (flowExitStatusOf decided result))) (\<lambda>decision.
       returnM (decision, result))))"

fun jobLoop :: "nat \<Rightarrow> nat \<Rightarrow> 'w jobExecutor \<Rightarrow> jobExecution \<Rightarrow> ('w, 'i) jobDefinition \<Rightarrow> partitionArgs \<Rightarrow>
    bool \<Rightarrow> string option \<Rightarrow> ('w, JobStatus) M" where
  "jobLoop steps fuel jx execution jobDef part isRestart None = returnM JobCompleted"
| "jobLoop 0 fuel jx execution jobDef part isRestart (Some stepId) = outOfFuelM"
| "jobLoop (Suc steps) fuel jx execution jobDef part isRestart (Some stepId) =
     (case mapGet (job_steps jobDef) stepId of
        None \<Rightarrow> thenM (updateJob jx (je_id execution) (noSuchStepPatch stepId)) (returnM JobFailed)
      | Some step \<Rightarrow>
          bindM (flowTurn fuel jx execution jobDef part isRestart stepId step) (\<lambda>(decision, result).
            case decision of
              FailJob \<Rightarrow> thenM (updateJob jx (je_id execution) (failJobPatch result)) (returnM JobFailed)
            | GoTo target \<Rightarrow> jobLoop steps fuel jx execution jobDef part isRestart target))"

text \<open>The \<open>try\<close> block with its \<open>catch\<close>: the final status, persisted.\<close>

definition runFlow :: "nat \<Rightarrow> nat \<Rightarrow> 'w jobExecutor \<Rightarrow> jobExecution \<Rightarrow> ('w, 'i) jobDefinition \<Rightarrow> partitionArgs \<Rightarrow>
    bool \<Rightarrow> ('w, JobStatus) M" where
  "runFlow steps fuel jx execution jobDef part isRestart =
     catchM
       (bindM (jobLoop steps fuel jx execution jobDef part isRestart (Some (job_startStepId jobDef)))
         (\<lambda>final. if final = JobCompleted
            then thenM (updateJob jx (je_id execution) completedPatch) (returnM final)
            else returnM final))
       (\<lambda>err. thenM (updateJob jx (je_id execution) (crashedPatch err)) (returnM JobFailed))"

definition jobListenerContext :: "jobExecution \<Rightarrow> listenerContext" where
  "jobListenerContext execution = \<lparr>lc_jobExecutionId = je_id execution, lc_stepExecutionId = ''<job>'',
     lc_stepName = None, lc_jobParameters = je_params execution, lc_chunkIndex = None\<rparr>"

definition isRestartOf :: "jobExecution \<Rightarrow> bool" where
  "isRestartOf execution \<longleftrightarrow> je_status execution = JobFailed \<or> je_status execution = JobStopped"

text \<open>The result is the row as it is read back at the end, if it is still there.\<close>

definition executeJob :: "nat \<Rightarrow> nat \<Rightarrow> 'w jobExecutor \<Rightarrow> jobExecution \<Rightarrow> ('w, 'i) jobDefinition \<Rightarrow> partitionArgs \<Rightarrow>
    ('w, jobExecution option) M" where
  "executeJob steps fuel jx execution jobDef part =
     (let isRestart = isRestartOf execution; exid = je_id execution;
          jobResolvers = buildResolverMap jobDef in
      if isRestart \<and> \<not> job_restartable jobDef then throwM (jobNotRestartableError (job_id jobDef))
      else
        thenM (updateJob jx exid startedPatch)
        (thenM (emit jx EvJobStarted exid None (JObj [(''jobName'', JStr (job_id jobDef))]))
        (thenM (invokeBefore jobResolvers KJob (jobListenerContext execution) None)
        (bindM (runFlow steps fuel jx execution jobDef part isRestart) (\<lambda>final.
         thenM (invokeAfter jobResolvers KJob (jobListenerContext execution) (Some (LJobStatus final)))
         (thenM (emit jx (if final = JobCompleted then EvJobCompleted else EvJobFailed) exid None
             (JObj [(''status'', JStr (jobStatusText final))]))
           (repo_getJobExecution (jx_repository jx) exid)))))))"

end
