(* ===== verification/JobLauncher.thy ===== *)
theory JobLauncher
  imports JobExecutor DefinitionValidator
begin

text \<open>
  Starting, running and steering executions: \<open>JobLauncher\<close>, the execution strategies,
  \<open>BatchWorkerRunner\<close> with its argument parser, \<open>JobExplorer\<close> and \<open>JobOperator\<close>. What the
  classes get injected is one record; \<open>randomUUID\<close> is an action of the world, \<open>JSON.parse\<close>
  and \<open>Number\<close> of a string are parameters of the worker.
\<close>

section \<open>What is injected\<close>

record executionStrategyContext =
  sx_executionId :: string
  sx_jobExecutionId :: string

datatype launchResult = LaunchCompleted JobStatus | LaunchEnqueued string

record ('w, 'i) executionStrategy =
  es_name :: string
  es_launch :: "('w, 'i) jobDefinition \<Rightarrow> jobParameters \<Rightarrow> executionStrategyContext \<Rightarrow> ('w, launchResult) M"

record ('w, 'i) jobRuntime =
  rt_registry :: "('w, 'i) jobRegistry"
  rt_executor :: "'w jobExecutor"
  rt_strategy :: "('w, 'i) executionStrategy option"
  rt_uuid :: "('w, string) M"
  rt_numberText :: "rat \<Rightarrow> string"
  rt_sha256 :: "string \<Rightarrow> string"
  rt_steps :: nat
  rt_fuel :: nat

abbreviation rt_repository :: "('w, 'i) jobRuntime \<Rightarrow> 'w jobRepository" where
  "rt_repository rt \<equiv> jx_repository (rt_executor rt)"

definition runExecutor :: "('w, 'i) jobRuntime \<Rightarrow> jobExecution \<Rightarrow> ('w, 'i) jobDefinition \<Rightarrow> partitionArgs \<Rightarrow>
    ('w, jobExecution option) M" where
  "runExecutor rt = executeJob (rt_steps rt) (rt_fuel rt) (rt_executor rt)"

section \<open>JobLauncher (job-launcher.ts)\<close>

text \<open>The key of the instance a launch is for.\<close>

definition launchKey :: "('w, 'i) jobRuntime \<Rightarrow> ('w, 'i) jobDefinition \<Rightarrow> jobParameters \<Rightarrow> ('w, string) M" where
  "launchKey rt jobDef identifying =
     bindM (liftE (canonicalJobKey (rt_numberText rt) (rt_sha256 rt) identifying)) (\<lambda>canonical.
       if job_allowDuplicateInstances jobDef
       then bindM (rt_uuid rt) (\<lambda>uuid. returnM (canonical @ ''::'' @ uuid))
       else returnM canonical)"

definition launch :: "('w, 'i) jobRuntime \<Rightarrow> string \<Rightarrow> jobParameters \<Rightarrow> jobParameters option \<Rightarrow>
    ('w, jobExecution option) M" where
  "launch rt jobId params identifyingParams =
     bindM (liftE (registryGet (rt_registry rt) jobId)) (\<lambda>jobDef.
     bindM (launchKey rt jobDef (orKeep identifyingParams params)) (\<lambda>jobKey.
     bindM (repo_createExecutionAtomic (rt_repository rt) jobId jobKey params) (\<lambda>execution.
       case rt_strategy rt of
         None \<Rightarrow> runExecutor rt execution jobDef noPartition
       | Some strategy \<Rightarrow>
           bindM (es_launch strategy jobDef params
               \<lparr>sx_executionId = je_id execution, sx_jobExecutionId = je_id execution\<rparr>) (\<lambda>_.
           bindM (repo_getJobExecution (rt_repository rt) (je_id execution)) (\<lambda>latest.
             returnM (Some (orKeep latest execution)))))))"

definition launcherRun :: "('w, 'i) jobRuntime \<Rightarrow> jobExecution \<Rightarrow> ('w, 'i) jobDefinition \<Rightarrow>
    ('w, jobExecution option) M" where
  "launcherRun rt execution jobDef = runExecutor rt execution jobDef noPartition"

section \<open>The in-process strategy\<close>

datatype partitionViolationMode = ViolationThrow | ViolationWarn

definition inProcessPartitionsNotSupported :: "string \<Rightarrow> number \<Rightarrow> exn" where
  "inProcessPartitionsNotSupported stepId n =
     batchError ''InProcessPartitionsNotSupportedError'' ''IN_PROCESS_PARTITIONS_NOT_SUPPORTED''
       (''InProcessExecutionStrategy does not support partitions.count > 1 (step '' @ [CHR 0x22] @ stepId
        @ [CHR 0x22] @ '' declares count='' @ showNumber n @ ''). ''
        @ ''Use a transport strategy (BullMQ / Kafka) for parallel partitioning.'')"

definition partitionCountOf :: "('w, 'i) stepDefinition \<Rightarrow> number option" where
  "partitionCountOf step = (case step of
      ChunkStep c \<Rightarrow> map_option pc_count (cs_partitions c)
    | TaskletStep _ \<Rightarrow> None)"

definition assertPartitionsSupported :: "partitionViolationMode \<Rightarrow> ('w, 'i) jobDefinition \<Rightarrow> exn + unit" where
  "assertPartitionsSupported mode job = checkAll (\<lambda>(stepId, step).
     case partitionCountOf step of
       None \<Rightarrow> Inr ()
     | Some n \<Rightarrow>
         if numLessEq n (Fin 1) \<or> mode = ViolationWarn then Inr ()
         else Inl (inProcessPartitionsNotSupported stepId n)) (job_steps job)"

definition inProcessLaunch :: "('w, 'i) jobRuntime \<Rightarrow> partitionViolationMode \<Rightarrow> ('w, 'i) jobDefinition \<Rightarrow>
    jobParameters \<Rightarrow> executionStrategyContext \<Rightarrow> ('w, launchResult) M" where
  "inProcessLaunch rt mode job params ctx =
     bindM (liftE (assertPartitionsSupported mode job)) (\<lambda>_.
     bindM (repo_getJobExecution (rt_repository rt) (sx_executionId ctx)) (\<lambda>found. case found of
         None \<Rightarrow> throwM (plainError (''[InProcessExecutionStrategy] expected JobExecution ''
                   @ sx_executionId ctx @ '' to exist''))
       | Some execution \<Rightarrow>
           bindM (runExecutor rt execution job noPartition) (\<lambda>finished. case finished of
               None \<Rightarrow> throwM (typeError ''Cannot read properties of null (reading 'status')'')
             | Some row \<Rightarrow> returnM (LaunchCompleted (je_status row)))))"

definition inProcessStrategy :: "('w, 'i) jobRuntime \<Rightarrow> partitionViolationMode \<Rightarrow> ('w, 'i) executionStrategy" where
  "inProcessStrategy rt mode = \<lparr>es_name = ''in-process'', es_launch = inProcessLaunch rt mode\<rparr>"

section \<open>The external-task strategy\<close>

record externalTaskOptions =
  eo_workerCommand :: "string list option"
  eo_env :: "(string, string) jsmap option"
  eo_labels :: "(string, string) jsmap option"

record externalTaskRequest =
  er_jobId :: string
  er_jobExecutionId :: string
  er_params :: jobParameters
  er_workerArgs :: "string list"
  er_env :: "(string, string) jsmap"
  er_labels :: "(string, string) jsmap"

record externalTaskResult =
  ex_provider :: string
  ex_externalId :: string

record 'w externalTaskLauncher =
  el_name :: string
  el_launch :: "externalTaskRequest \<Rightarrow> ('w, externalTaskResult) M"

definition buildWorkerArgs :: "(rat \<Rightarrow> string) \<Rightarrow> externalTaskOptions \<Rightarrow> string \<Rightarrow> string \<Rightarrow> jobParameters \<Rightarrow>
    string list" where
  "buildWorkerArgs num options jobId jobExecutionId params =
     orKeep (eo_workerCommand options) [''batch-worker'']
     @ [''--job-id'', jobId, ''--job-execution-id'', jobExecutionId,
        ''--params-json'', printJson num (JObj params)]"

definition externalTaskLaunch :: "(rat \<Rightarrow> string) \<Rightarrow> 'w externalTaskLauncher \<Rightarrow> externalTaskOptions \<Rightarrow>
    ('w, 'i) jobDefinition \<Rightarrow> jobParameters \<Rightarrow> executionStrategyContext \<Rightarrow> ('w, launchResult) M" where
  "externalTaskLaunch num launcher options job params ctx =
     bindM (el_launch launcher \<lparr>er_jobId = job_id job, er_jobExecutionId = sx_jobExecutionId ctx,
         er_params = params,
         er_workerArgs = buildWorkerArgs num options (job_id job) (sx_jobExecutionId ctx) params,
         er_env = mapSet ''NEST_BATCH_JOB_EXECUTION_ID'' (sx_jobExecutionId ctx)
           (mapSet ''NEST_BATCH_JOB_ID'' (job_id job) (orKeep (eo_env options) [])),
         er_labels = mapSet ''nest-batch/job-execution-id'' (sx_jobExecutionId ctx)
           (mapSet ''nest-batch/job-id'' (job_id job) (orKeep (eo_labels options) []))\<rparr>)
       (\<lambda>result. returnM (LaunchEnqueued (ex_provider result @ '':'' @ ex_externalId result)))"

definition externalTaskStrategy :: "(rat \<Rightarrow> string) \<Rightarrow> 'w externalTaskLauncher \<Rightarrow> externalTaskOptions \<Rightarrow>
    ('w, 'i) executionStrategy" where
  "externalTaskStrategy num launcher options =
     \<lparr>es_name = el_name launcher, es_launch = externalTaskLaunch num launcher options\<rparr>"

section \<open>The worker (batch-worker-runner.ts)\<close>

record workerRunOptions =
  wo_jobExecutionId :: "string option"
  wo_executionId :: "string option"
  wo_jobId :: "string option"
  wo_params :: "jobParameters option"
  wo_partitionIndex :: "number option"
  wo_partitionCount :: "number option"

record workerRunResult =
  wk_jobExecution :: jobExecution
  wk_status :: JobStatus
  wk_processExitCode :: int

text \<open>The execution a worker runs and the id of its job.\<close>

definition workerExecution :: "('w, 'i) jobRuntime \<Rightarrow> workerRunOptions \<Rightarrow> ('w, jobExecution \<times> string) M" where
  "workerExecution rt options =
     (case (if wo_jobExecutionId options \<noteq> None then wo_jobExecutionId options else wo_executionId options) of
        Some executionId \<Rightarrow>
          bindM (repo_getJobExecution (rt_repository rt) executionId) (\<lambda>found. case found of
              None \<Rightarrow> throwM (jobExecutionNotFoundError executionId)
            | Some existing \<Rightarrow> (case wo_jobId options of
                  Some jobId \<Rightarrow> returnM (existing, jobId)
                | None \<Rightarrow>
                    bindM (repo_getJobInstance (rt_repository rt) (je_jobInstanceId existing)) (\<lambda>inst. case inst of
                        None \<Rightarrow> throwM (jobInstanceNotFoundError (je_jobInstanceId existing))
                      | Some i \<Rightarrow> returnM (existing, ji_jobName i))))
      | None \<Rightarrow> (case wo_jobId options of
            None \<Rightarrow> throwM (invalidJobOperationError ''BatchWorkerRunner requires either jobExecutionId or jobId'')
          | Some jobId \<Rightarrow>
              bindM (liftE (registryGet (rt_registry rt) jobId)) (\<lambda>jobDef.
              bindM (launchKey rt jobDef (orKeep (wo_params options) [])) (\<lambda>jobKey.
              bindM (repo_createExecutionAtomic (rt_repository rt) jobId jobKey (orKeep (wo_params options) []))
                (\<lambda>execution. returnM (execution, jobId))))))"

definition workerRun :: "('w, 'i) jobRuntime \<Rightarrow> workerRunOptions \<Rightarrow> ('w, workerRunResult) M" where
  "workerRun rt options =
     bindM (workerExecution rt options) (\<lambda>(execution, jobId).
     bindM (liftE (registryGet (rt_registry rt) jobId)) (\<lambda>jobDef.
     bindM (runExecutor rt execution jobDef
         \<lparr>pa_index = wo_partitionIndex options, pa_count = wo_partitionCount options\<rparr>) (\<lambda>finished.
       case finished of
         None \<Rightarrow> throwM (typeError ''Cannot read properties of null (reading 'status')'')
       | Some row \<Rightarrow> returnM \<lparr>wk_jobExecution = row, wk_status = je_status row,
             wk_processExitCode = (if je_status row = JobCompleted then 0 else 1)\<rparr>)))"

text \<open>The argument loop; a value follows its flag unless it looks like a flag itself.\<close>

fun parseArgPairs :: "string list \<Rightarrow> (string, string) jsmap \<Rightarrow> (string, string) jsmap" where
  "parseArgPairs [] out = out"
| "parseArgPairs [arg] out =
     (if \<not> startsWith ''--'' arg then out
      else if CHR ''='' \<in> set arg
      then mapSet (drop 2 (takeWhile (\<lambda>c. c \<noteq> CHR ''='') arg)) (tl (dropWhile (\<lambda>c. c \<noteq> CHR ''='') arg)) out
      else mapSet (drop 2 arg) ''true'' out)"
| "parseArgPairs (arg # nextArg # rest) out =
     (if \<not> startsWith ''--'' arg then parseArgPairs (nextArg # rest) out
      else if CHR ''='' \<in> set arg
      then parseArgPairs (nextArg # rest)
        (mapSet (drop 2 (takeWhile (\<lambda>c. c \<noteq> CHR ''='') arg)) (tl (dropWhile (\<lambda>c. c \<noteq> CHR ''='') arg)) out)
      else if startsWith ''--'' nextArg then parseArgPairs (nextArg # rest) (mapSet (drop 2 arg) ''true'' out)
      else parseArgPairs rest (mapSet (drop 2 arg) nextArg out))"

definition parseBatchWorkerArgs :: "(string \<Rightarrow> exn + json) \<Rightarrow> (string \<Rightarrow> number) \<Rightarrow> string list \<Rightarrow>
    exn + workerRunOptions" where
  "parseBatchWorkerArgs parseJson toNumber argv =
     (let args = (case argv of a # rest \<Rightarrow> if a = ''batch-worker'' then rest else argv | [] \<Rightarrow> []);
          out = parseArgPairs args [];
          finish = (\<lambda>params. Inr \<lparr>
            wo_jobExecutionId = (case mapGet out ''job-execution-id'' of
                Some i \<Rightarrow> Some i | None \<Rightarrow> mapGet out ''execution-id''),
            wo_executionId = None, wo_jobId = mapGet out ''job-id'', wo_params = params,
            wo_partitionIndex = map_option toNumber (mapGet out ''partition-index''),
            wo_partitionCount = map_option toNumber (mapGet out ''partition-count'')\<rparr>)
      in case mapGet out ''params-json'' of
           None \<Rightarrow> finish None
         | Some text \<Rightarrow> (case parseJson text of
               Inl e \<Rightarrow> Inl e
             | Inr (JObj params) \<Rightarrow> finish (Some params)
             | Inr _ \<Rightarrow> Inl (invalidJobOperationError ''--params-json must be a JSON object'')))"

section \<open>JobExplorer (job-explorer.ts)\<close>

definition listJobs :: "('w, 'i) jobRuntime \<Rightarrow> ('w, 'i) jobDefinition list" where
  "listJobs rt = registryGetAll (rt_registry rt)"

definition explorerJobInstance :: "('w, 'i) jobRuntime \<Rightarrow> string \<Rightarrow> ('w, jobInstance) M" where
  "explorerJobInstance rt jobInstanceId =
     bindM (repo_getJobInstance (rt_repository rt) jobInstanceId) (\<lambda>found. case found of
         None \<Rightarrow> throwM (jobInstanceNotFoundError jobInstanceId)
       | Some inst \<Rightarrow> returnM inst)"

definition listJobInstances :: "('w, 'i) jobRuntime \<Rightarrow> jobInstanceFilter \<Rightarrow> ('w, jobInstance list) M" where
  "listJobInstances rt f = repo_findJobInstances (rt_repository rt) f"

definition listJobExecutions :: "('w, 'i) jobRuntime \<Rightarrow> jobExecutionFilter \<Rightarrow> ('w, jobExecution list) M" where
  "listJobExecutions rt f = repo_findJobExecutions (rt_repository rt) f"

definition getJobExecutionDetails :: "('w, 'i) jobRuntime \<Rightarrow> string \<Rightarrow> ('w, jobExecutionDetails) M" where
  "getJobExecutionDetails rt executionId =
     (let repo = rt_repository rt in
      bindM (repo_getJobExecution repo executionId) (\<lambda>found. case found of
        None \<Rightarrow> throwM (jobExecutionNotFoundError executionId)
      | Some jobExecution \<Rightarrow>
          bindM (repo_getJobInstance repo (je_jobInstanceId jobExecution)) (\<lambda>inst. case inst of
            None \<Rightarrow> throwM (jobInstanceNotFoundError (je_jobInstanceId jobExecution))
          | Some jobInstance \<Rightarrow>
              bindM (repo_findStepExecutions repo executionId) (\<lambda>stepExecutions.
              bindM (repo_getExecutionContext repo (JobScope executionId)) (\<lambda>jobContext.
              bindM (mapListM (\<lambda>step. bindM (repo_getExecutionContext repo (StepScope (se_id step)))
                  (\<lambda>ctx. returnM (se_id step, ctx))) stepExecutions) (\<lambda>stepContexts.
                returnM \<lparr>jd_jobInstance = jobInstance, jd_jobExecution = jobExecution,
                  jd_stepExecutions = stepExecutions, jd_jobContext = jobContext,
                  jd_stepContexts = stepContexts\<rparr>))))))"

section \<open>JobOperator (job-operator.ts)\<close>

definition isActive :: "JobStatus \<Rightarrow> bool" where
  "isActive status \<longleftrightarrow> status = JobStarting \<or> status = JobStarted \<or> status = JobStopping"

definition cannotInState :: "string \<Rightarrow> JobStatus \<Rightarrow> exn" where
  "cannotInState operation status = invalidJobOperationError
     (''Cannot '' @ operation @ '' execution in '' @ jobStatusText status @ '' state'')"

definition stopPatch :: "date \<Rightarrow> jobExecutionPatch" where
  "stopPatch now = emptyJobPatch\<lparr>jp_status := Some JobStopped, jp_endTime := Some (Some now),
     jp_exitCode := Some ''STOPPED'', jp_exitMessage := Some ''Stopped by JobOperator''\<rparr>"

definition abandonPatch :: "date option \<Rightarrow> date \<Rightarrow> jobExecutionPatch" where
  "abandonPatch ended now = emptyJobPatch\<lparr>jp_status := Some JobAbandoned,
     jp_endTime := Some (Some (orKeep ended now)), jp_exitCode := Some ''ABANDONED'',
     jp_exitMessage := Some ''Abandoned by JobOperator''\<rparr>"

definition stop :: "('w, 'i) jobRuntime \<Rightarrow> string \<Rightarrow> ('w, jobExecutionDetails) M" where
  "stop rt executionId =
     bindM (getJobExecutionDetails rt executionId) (\<lambda>details.
       let status = je_status (jd_jobExecution details) in
       if status = JobStopped then returnM details
       else if \<not> isActive status then throwM (cannotInState ''stop'' status)
       else thenM (updateJob (rt_executor rt) executionId stopPatch) (getJobExecutionDetails rt executionId))"

definition abandon :: "('w, 'i) jobRuntime \<Rightarrow> string \<Rightarrow> ('w, jobExecutionDetails) M" where
  "abandon rt executionId =
     bindM (getJobExecutionDetails rt executionId) (\<lambda>details.
       let status = je_status (jd_jobExecution details) in
       if status = JobAbandoned then returnM details
       else if isActive status \<or> status = JobCompleted then throwM (cannotInState ''abandon'' status)
       else thenM (updateJob (rt_executor rt) executionId (abandonPatch (je_endTime (jd_jobExecution details))))
         (getJobExecutionDetails rt executionId))"

definition restart :: "('w, 'i) jobRuntime \<Rightarrow> string \<Rightarrow> ('w, jobExecutionDetails) M" where
  "restart rt executionId =
     bindM (getJobExecutionDetails rt executionId) (\<lambda>details.
       let status = je_status (jd_jobExecution details) in
       if status \<noteq> JobFailed \<and> status \<noteq> JobStopped then throwM (cannotInState ''restart'' status)
       else
         bindM (liftE (registryGet (rt_registry rt) (ji_jobName (jd_jobInstance details)))) (\<lambda>jobDef.
         bindM (launcherRun rt (jd_jobExecution details) jobDef) (\<lambda>finished. case finished of
             None \<Rightarrow> throwM (typeError ''Cannot read properties of null (reading 'id')'')
           | Some execution \<Rightarrow> getJobExecutionDetails rt (je_id execution))))"

definition startNextInstance :: "('w, 'i) jobRuntime \<Rightarrow> string \<Rightarrow> jobParameters \<Rightarrow> ('w, jobExecution option) M" where
  "startNextInstance rt jobId params =
     bindM (rt_uuid rt) (\<lambda>uuid. launch rt jobId (mapSet ''_nestBatchRunId'' (JStr uuid) params) None)"

end
