(* ===== verification/JobFlow.thy ===== *)
theory JobFlow
  imports JobExecutor InMemoryRepository
begin

text \<open>
  What a job execution promises. \<open>flowPath\<close> is the abstract flow machine: which sequences
  of step results lead from a step to which end. \<open>job_run\<close> is the contract under which the
  executor is shown to implement it: a repository, and step bodies, observers and deciders
  that leave the rows alone. The loop ends when the flow relation is acyclic.
\<close>

section \<open>The abstract flow machine\<close>

type_synonym flowTrace = "(string \<times> stepResult \<times> string option) list"

inductive flowPath :: "('w, 'i) jobDefinition \<Rightarrow> string option \<Rightarrow> flowTrace \<Rightarrow> JobStatus \<Rightarrow> bool" for J where
  flow_end: "flowPath J None [] JobCompleted"
| flow_missing: "mapGet (job_steps J) i = None \<Longrightarrow> flowPath J (Some i) [] JobFailed"
| flow_fail: "mapGet (job_steps J) i = Some step \<Longrightarrow>
    decideNext J i r (flowExitStatusOf d r) = Inr FailJob \<Longrightarrow>
    flowPath J (Some i) [(i, r, d)] JobFailed"
| flow_next: "mapGet (job_steps J) i = Some step \<Longrightarrow>
    decideNext J i r (flowExitStatusOf d r) = Inr (GoTo target) \<Longrightarrow>
    flowPath J target tr final \<Longrightarrow> flowPath J (Some i) ((i, r, d) # tr) final"

inductive_cases flowPath_endE [elim!]: "flowPath J None tr final"
inductive_cases flowPath_stepE: "flowPath J (Some i) (x # tr) final"
inductive_simps flowPath_None [simp]: "flowPath J None tr final"

text \<open>A step may hand over to another: the edges of the flow, linear fallback included.\<close>

definition flowsTo :: "('w, 'i) jobDefinition \<Rightarrow> (string \<times> string) set" where
  "flowsTo J = {(i, j). mapGet (job_steps J) i \<noteq> None
     \<and> (\<exists>r s. decideNext J i r s = Inr (GoTo (Some j)))}"

text \<open>How many steps can still follow; it falls along every edge of an acyclic flow.\<close>

definition flowRank :: "('w, 'i) jobDefinition \<Rightarrow> string option \<Rightarrow> nat" where
  "flowRank J cur = (case cur of None \<Rightarrow> 0
     | Some i \<Rightarrow> Suc (card {j. (i, j) \<in> (flowsTo J)\<^sup>+ \<and> mapGet (job_steps J) j \<noteq> None}
         + (if mapGet (job_steps J) i = None then 0 else 1)))"

lemma finite_steps: "finite {j. mapGet m j \<noteq> None}"
  using finite_dom_map_of [of m] by (simp add: dom_def)

lemma flowRank_decreases:
  assumes "acyclic (flowsTo J)" "(i, j) \<in> flowsTo J"
  shows "flowRank J (Some j) < flowRank J (Some i)"
proof -
  let ?S = "\<lambda>i. {j. (i, j) \<in> (flowsTo J)\<^sup>+ \<and> mapGet (job_steps J) j \<noteq> None}"
  have step: "mapGet (job_steps J) i \<noteq> None" using assms(2) by (auto simp: flowsTo_def)
  have sub: "?S j \<subseteq> ?S i" using assms(2) by (auto intro: trancl_into_trancl2)
  have fin: "finite (?S k)" for k
    using finite_steps [of "job_steps J"] by (rule rev_finite_subset) auto
  have "card (?S j) + (if mapGet (job_steps J) j = None then 0 else 1) \<le> card (?S i)"
  proof (cases "mapGet (job_steps J) j = None")
    case True
    then show ?thesis using card_mono [OF fin sub] by simp
  next
    case False
    have "j \<in> ?S i - ?S j" using assms False by (auto simp: acyclic_def)
    then have "?S j \<subset> ?S i" using sub by blast
    then have "card (?S j) < card (?S i)" by (rule psubset_card_mono [OF fin])
    then show ?thesis using False by simp
  qed
  then show ?thesis using step by (auto simp: flowRank_def)
qed

lemma flowRank_bound: "acyclic (flowsTo J) \<Longrightarrow> flowRank J cur \<le> Suc (length (job_steps J))"
proof (cases cur)
  case (Some i)
  assume acyclic: "acyclic (flowsTo J)"
  let ?S = "{j. (i, j) \<in> (flowsTo J)\<^sup>+ \<and> mapGet (job_steps J) j \<noteq> None}"
  let ?D = "{j. mapGet (job_steps J) j \<noteq> None}"
  have D: "card ?D \<le> length (job_steps J)"
  proof -
    have "?D = set (mapKeys (job_steps J))" unfolding map_of_eq_None_iff by auto
    then show ?thesis using card_length [of "mapKeys (job_steps J)"] by simp
  qed
  have "card ?S + (if i \<in> ?D then 1 else 0) \<le> card ?D"
  proof (cases "i \<in> ?D")
    case True
    have "i \<notin> ?S" using acyclic by (auto simp: acyclic_def)
    then have "?S \<subset> ?D" using True by blast
    then have "card ?S < card ?D" by (rule psubset_card_mono [OF finite_steps])
    then show ?thesis using True by simp
  next
    case False
    have "?S \<subseteq> ?D" by blast
    then show ?thesis using False card_mono [OF finite_steps] by simp
  qed
  then show ?thesis using D Some by (auto simp: flowRank_def)
qed (simp add: flowRank_def)

section \<open>Rows\<close>

text \<open>\<open>describes\<close>: a step row holds a result. \<open>recorded\<close>: a trace is what was added to the rows.\<close>

definition describes :: "string \<Rightarrow> string \<Rightarrow> stepResult \<Rightarrow> stepExecution \<Rightarrow> bool" where
  "describes exid name r row \<longleftrightarrow> se_jobExecutionId row = exid \<and> se_stepName row = name
     \<and> se_status row = sr_status r \<and> se_exitCode row = sr_exitCode r
     \<and> se_exitMessage row = sr_exitMessage r \<and> se_readCount row = sr_readCount r
     \<and> se_writeCount row = sr_writeCount r \<and> se_skipCount row = sr_skipCount r"

fun recorded :: "('w, 'i) jobDefinition \<Rightarrow> string \<Rightarrow> flowTrace \<Rightarrow> (string \<Rightarrow> stepExecution option) \<Rightarrow>
    (string \<Rightarrow> stepExecution option) \<Rightarrow> bool" where
  "recorded J exid [] m m' \<longleftrightarrow> m' = m"
| "recorded J exid ((i, r, d) # tr) m m' \<longleftrightarrow> (\<exists>step sid row.
     mapGet (job_steps J) i = Some step \<and> m sid = None
     \<and> describes exid (stepIdOf step) r row \<and> recorded J exid tr (m(sid \<mapsto> row)) m')"

text \<open>An action that leaves the rows alone and does not run out of fuel.\<close>

definition rowSafe :: "('w \<Rightarrow> bool) \<Rightarrow> ('w \<Rightarrow> 'r) \<Rightarrow> ('w, 'a) M \<Rightarrow> bool" where
  "rowSafe ok rows m \<longleftrightarrow> (\<forall>w. ok w \<longrightarrow>
     (case m w of (r, w') \<Rightarrow> r \<noteq> OutOfFuel \<and> ok w' \<and> rows w' = rows w))"

lemma rowSafeD: "rowSafe ok rows m \<Longrightarrow> ok w \<Longrightarrow> m w = (r, w') \<Longrightarrow> r \<noteq> OutOfFuel \<and> ok w' \<and> rows w' = rows w"
  by (fastforce simp: rowSafe_def)

lemma rowSafe_pure [intro, simp]:
  "rowSafe ok rows (returnM x)" "rowSafe ok rows (throwM e)" "rowSafe ok rows (getM f)"
  by (simp_all add: rowSafe_def)

lemma rowSafe_bindM [intro]:
  assumes "rowSafe ok rows m" "\<And>x. rowSafe ok rows (f x)"
  shows "rowSafe ok rows (bindM m f)"
  unfolding rowSafe_def
proof (intro allI impI)
  fix w assume w: "ok w"
  obtain r w' where m: "m w = (r, w')" by (metis surj_pair)
  have "r \<noteq> OutOfFuel" "ok w'" "rows w' = rows w" using rowSafeD [OF assms(1) w m] by auto
  then show "case bindM m f w of (r, w') \<Rightarrow> r \<noteq> OutOfFuel \<and> ok w' \<and> rows w' = rows w"
    using m rowSafeD [OF assms(2)] by (cases r) (auto simp: bindM_def split: prod.splits)
qed

lemma rowSafe_thenM [intro]: "rowSafe ok rows m \<Longrightarrow> rowSafe ok rows n \<Longrightarrow> rowSafe ok rows (thenM m n)"
  unfolding thenM_def by (rule rowSafe_bindM)

lemma rowSafe_catchM [intro]:
  assumes "rowSafe ok rows m" "\<And>e. rowSafe ok rows (h e)"
  shows "rowSafe ok rows (catchM m h)"
  unfolding rowSafe_def
proof (intro allI impI)
  fix w assume w: "ok w"
  obtain r w' where m: "m w = (r, w')" by (metis surj_pair)
  have "r \<noteq> OutOfFuel" "ok w'" "rows w' = rows w" using rowSafeD [OF assms(1) w m] by auto
  then show "case catchM m h w of (r, w') \<Rightarrow> r \<noteq> OutOfFuel \<and> ok w' \<and> rows w' = rows w"
    using m rowSafeD [OF assms(2)] by (cases r) (auto simp: catchM_def split: prod.splits)
qed

end
