(* ===== verification/JobRun.thy ===== *)
theory JobRun
  imports JobFlow
begin

text \<open>
  The executor implements the abstract flow machine. \<open>job_run\<close> extends the repository
  contract by what the code relies on of the step bodies, the observer, the deciders and the
  job listeners; \<open>jobLoop_outcome\<close> and \<open>executeJob_outcome\<close> are the simulation, with fuel
  bounded by the rank of the flow.
\<close>

locale job_run = repository_contract "jx_repository jx" ok jobRow stepRow context_of
  for jx :: "'w jobExecutor" and ok jobRow stepRow context_of +
  fixes execution :: jobExecution and jobDef :: "('w, 'i) jobDefinition" and part :: partitionArgs
    and fuel :: nat
  assumes body: "mapGet (job_steps jobDef) i = Some step \<Longrightarrow>
      rowSafe ok (\<lambda>w. (jobRow w, stepRow w))
        (runStepBody fuel jx execution (buildResolverMap jobDef) part step sid resume)"
    and observer: "rowSafe ok (\<lambda>w. (jobRow w, stepRow w)) (jx_observer jx event)"
    and decider: "d \<in> set (job_deciders jobDef) \<Longrightarrow> rowSafe ok (\<lambda>w. (jobRow w, stepRow w)) (decide d ctx)"
    and beforeJob: "invokeBefore (buildResolverMap jobDef) KJob (jobListenerContext execution) None w = (Value (), w)"
    and afterJob: "invokeAfter (buildResolverMap jobDef) KJob (jobListenerContext execution)
      (Some (LJobStatus final)) w = (Value (), w)"
begin

abbreviation "safe m \<equiv> rowSafe ok (\<lambda>w. (jobRow w, stepRow w)) m"

lemma emit_safe: "safe (emit jx ty i j body)"
  unfolding emit_def by (intro rowSafe_bindM rowSafe_catchM rowSafe_pure observer)

lemma emit_Value:
  assumes "ok w"
  shows "\<exists>w'. emit jx ty i j body w = (Value (), w') \<and> ok w' \<and> jobRow w' = jobRow w \<and> stepRow w' = stepRow w"
proof -
  obtain r w' where e: "emit jx ty i j body w = (r, w')" by (metis surj_pair)
  have "r \<noteq> Throw err" for err
    using e by (auto simp: emit_def catchM_def bindM_def split: prod.splits outcome.splits)
  with rowSafeD [OF emit_safe assms e] e show ?thesis by (cases r) auto
qed

lemma save_safe: "safe (repo_saveExecutionContext (jx_repository jx) sc c v)"
  unfolding rowSafe_def
proof (intro allI impI)
  fix w assume w: "ok w"
  show "case repo_saveExecutionContext (jx_repository jx) sc c v w of
      (r, w') \<Rightarrow> r \<noteq> OutOfFuel \<and> ok w' \<and> (jobRow w', stepRow w') = (jobRow w, stepRow w)"
    using saveExecutionContext [OF w, of c sc v] saveExecutionContext_rejected [of c _ sc v w] w
    by (cases "assertJsonTree ''$'' 0 (ctx_data c)") auto
qed

lemma latest_safe: "safe (repo_findLatestStepExecution (jx_repository jx) i n)"
  unfolding rowSafe_def
proof (intro allI impI)
  fix w assume w: "ok w"
  then obtain r where "repo_findLatestStepExecution (jx_repository jx) i n w = (Value r, w)"
    using findLatestStepExecution by blast
  with w show "case repo_findLatestStepExecution (jx_repository jx) i n w of
      (r, w') \<Rightarrow> r \<noteq> OutOfFuel \<and> ok w' \<and> (jobRow w', stepRow w') = (jobRow w, stepRow w)" by simp
qed

lemma context_safe: "safe (repo_getExecutionContext (jx_repository jx) sc)"
  unfolding rowSafe_def by (auto simp: getExecutionContext)

lemma restartContext_safe: "safe (restartContextOf jx b i step)"
  unfolding restartContextOf_def
  by (auto intro!: rowSafe_bindM latest_safe context_safe split: option.split)

lemma decider_safe: "safe (resolveDeciderExitStatus jobDef i ctx)"
  using decider find_Some_in_set
  by (fastforce simp: resolveDeciderExitStatus_def split: option.split)

lemma updateJob_effect:
  assumes "ok w" "jobRow w i = Some e"
  obtains w' where "updateJob jx i p w = (Value (), w')" "ok w'"
    "jobRow w' = (jobRow w)(i \<mapsto> patchJobExecution (p (jx_clock jx w)) e)" "stepRow w' = stepRow w"
  using updateJobExecution [OF assms, of "p (jx_clock jx w)"] by (auto simp: updateJob_def)

section \<open>One step\<close>

text \<open>The rows a world has, as a precondition.\<close>

definition at_rows :: "(string \<Rightarrow> jobExecution option) \<Rightarrow> (string \<Rightarrow> stepExecution option) \<Rightarrow> 'w \<Rightarrow> bool" where
  "at_rows J S w \<longleftrightarrow> ok w \<and> jobRow w = J \<and> stepRow w = S"

lemma triple_safe: "safe m \<Longrightarrow> triple (at_rows J S) m (\<lambda>_. at_rows J S) (\<lambda>_. at_rows J S)"
proof (rule tripleI)
  fix w assume m: "safe m" and w: "at_rows J S w"
  obtain r w' where r: "m w = (r, w')" by (metis surj_pair)
  have "ok w" using w by (simp add: at_rows_def)
  from rowSafeD [OF m this r] r w
  show "(\<exists>x w'. m w = (Value x, w') \<and> at_rows J S w') \<or> (\<exists>e w'. m w = (Throw e, w') \<and> at_rows J S w')"
    by (cases r) (auto simp: at_rows_def)
qed

lemma triple_emit: "triple (at_rows J S) (emit jx ty i j body) (\<lambda>_. at_rows J S) E"
  using emit_Value by (intro tripleI) (fastforce simp: at_rows_def)

lemma triple_updateStep:
  "S i = Some s \<Longrightarrow> triple (at_rows J S) (repo_updateStepExecution (jx_repository jx) i q)
     (\<lambda>_ w. \<exists>s'. patchedStep q s s' \<and> at_rows J (S(i \<mapsto> s')) w) E"
  using updateStepExecution by (intro tripleI) (fastforce simp: at_rows_def)

lemma triple_updateJob:
  "J i = Some e \<Longrightarrow> triple (at_rows J S) (updateJob jx i p)
     (\<lambda>_ w. \<exists>now. at_rows (J(i \<mapsto> patchJobExecution (p now) e)) S w) E"
  by (intro tripleI) (metis at_rows_def updateJob_effect)

lemma triple_createStep:
  "triple (at_rows J S) (repo_createStepExecution (jx_repository jx) i n)
     (\<lambda>s w. S (se_id s) = None \<and> se_jobExecutionId s = i \<and> se_stepName s = n \<and> at_rows J (S(se_id s \<mapsto> s)) w) E"
  using createStepExecution [of _ i n] by (intro tripleI) (fastforce simp: at_rows_def)

lemma describes_patch:
  "se_jobExecutionId s = j \<Longrightarrow> se_stepName s = n \<Longrightarrow> patchedStep (stepResultPatch r now) s s' \<Longrightarrow>
     describes j n r s'"
  by (auto simp: describes_def patchedStep_def patchStepExecution_def stepResultPatch_def)

text \<open>A step that ran added one row, which describes its result; a crash left the job's row alone.\<close>

definition stepDone :: "(string \<Rightarrow> jobExecution option) \<Rightarrow> (string \<Rightarrow> stepExecution option) \<Rightarrow> string \<Rightarrow>
    stepResult \<Rightarrow> 'w \<Rightarrow> bool" where
  "stepDone J S name r w \<longleftrightarrow> (\<exists>sid row. S sid = None \<and> describes (je_id execution) name r row
     \<and> at_rows J (S(sid \<mapsto> row)) w)"

definition crashed :: "(string \<Rightarrow> jobExecution option) \<Rightarrow> exn \<Rightarrow> 'w \<Rightarrow> bool" where
  "crashed J e w \<longleftrightarrow> (\<exists>S. at_rows J S w)"

lemma crashedI: "at_rows J S w \<Longrightarrow> crashed J e w"
  by (auto simp: crashed_def)

lemma triple_safe_crash: "safe m \<Longrightarrow> triple (at_rows J S) m (\<lambda>_. at_rows J S) (crashed J)"
  by (erule triple_weaken [OF triple_safe]) (auto intro: crashedI)

lemma triple_stepBody:
  assumes "mapGet (job_steps jobDef) i = Some step" "S sid = Some s"
  shows "triple (at_rows J S)
    (catchM (runStepBody fuel jx execution (buildResolverMap jobDef) part step sid resume)
      (\<lambda>stepErr. bindM (getM (jx_clock jx)) (\<lambda>now.
         thenM (repo_updateStepExecution (jx_repository jx) sid (stepFailedPatch stepErr now)) (throwM stepErr))))
    (\<lambda>_. at_rows J S) (crashed J)"
proof (rule triple_catchM [OF triple_safe [OF body [OF assms(1)]]])
  show "triple (at_rows J S) (bindM (getM (jx_clock jx)) (\<lambda>now.
      thenM (repo_updateStepExecution (jx_repository jx) sid (stepFailedPatch e now)) (throwM e)))
      (\<lambda>_. at_rows J S) (crashed J)" for e
    by (rule triple_bindM [OF triple_getM [where Q = "\<lambda>_. at_rows J S"]], assumption)
      (rule triple_thenM [OF triple_updateStep [where S = S and i = sid, OF assms(2)]], rule triple_throwM, auto intro: crashedI)
qed

lemma triple_runStep:
  assumes "mapGet (job_steps jobDef) i = Some step"
  shows "triple (at_rows J S) (runStep fuel jx execution (buildResolverMap jobDef) part b step)
    (\<lambda>(r, sid). stepDone J S (stepIdOf step) r) (crashed J)"
proof -
  have finish: "triple (at_rows J (S(sid \<mapsto> s)))
      (bindM (getM (jx_clock jx)) (\<lambda>now.
        thenM (repo_updateStepExecution (jx_repository jx) sid (stepResultPatch r now))
        (thenM (emit jx ty x y z) (returnM (r, sid)))))
      (\<lambda>(r, sid). stepDone J S (stepIdOf step) r) (crashed J)"
    if "S sid = None" "se_jobExecutionId s = je_id execution" "se_stepName s = stepIdOf step" for sid s r ty x y z
    by (rule triple_bindM [OF triple_getM [where Q = "\<lambda>_. at_rows J (S(sid \<mapsto> s))"]], assumption)
      (rule triple_thenM [OF triple_updateStep], simp, rule triple_exists, rule triple_pure,
        rule triple_thenM [OF triple_emit], rule triple_returnM,
        use that in \<open>auto simp: stepDone_def intro!: describes_patch\<close>)
  have save: "safe (case c of None \<Rightarrow> returnM ()
      | Some ctx \<Rightarrow> repo_saveExecutionContext (jx_repository jx) sc ctx None)" for c sc
    by (auto intro: save_safe split: option.split)
  show ?thesis unfolding runStep_def Let_def
  proof (rule triple_bindM [OF triple_safe_crash [OF restartContext_safe]],
      rule triple_bindM [OF triple_createStep [where S = S]], goal_cases)
    case (1 c s)
    show ?case
    proof ((rule triple_pure)+, goal_cases)
      case 1
      show ?case
        by (rule triple_thenM [OF triple_safe_crash [OF save]], rule triple_thenM [OF triple_emit],
            rule triple_bindM [OF triple_stepBody [OF assms]], simp, rule finish) (use 1 in auto)
    qed
  qed
qed

section \<open>The loop\<close>

lemma triple_stepDone:
  assumes "\<And>sid row. S sid = None \<Longrightarrow> describes (je_id execution) name r row \<Longrightarrow>
      triple (at_rows J (S(sid \<mapsto> row))) m Q E"
  shows "triple (stepDone J S name r) m Q E"
  unfolding stepDone_def using assms by (intro triple_exists triple_pure) auto

lemma triple_flowTurn:
  assumes "mapGet (job_steps jobDef) i = Some step"
  shows "triple (at_rows J S) (flowTurn fuel jx execution jobDef part b i step)
    (\<lambda>(dec, r) w. (\<exists>d. decideNext jobDef i r (flowExitStatusOf d r) = Inr dec) \<and> stepDone J S (stepIdOf step) r w)
    (crashed J)"
unfolding flowTurn_def
proof (rule triple_bindM [OF triple_runStep [OF assms]], goal_cases)
    case (1 x)
    obtain r sid where x: "x = (r, sid)" by (cases x)
    show ?case unfolding x prod.case
    proof (rule triple_stepDone, rule triple_bindM [OF triple_safe_crash [OF decider_safe]])
      show "triple (at_rows J (S(sid \<mapsto> row))) (bindM (liftE (decideNext jobDef i r (flowExitStatusOf d r)))
          (\<lambda>dec. returnM (dec, r))) (\<lambda>(dec, r) w. (\<exists>d. decideNext jobDef i r (flowExitStatusOf d r) = Inr dec)
            \<and> stepDone J S (stepIdOf step) r w) (crashed J)"
        if "S sid = None" "describes (je_id execution) (stepIdOf step) r row" for sid row d
        using that
        by (cases "decideNext jobDef i r (flowExitStatusOf d r)")
          (auto simp: triple_def stepDone_def intro: crashedI)
    qed
qed

text \<open>How the loop leaves the rows when it ends with a status of its own.\<close>

definition flowDone :: "(string \<Rightarrow> jobExecution option) \<Rightarrow> (string \<Rightarrow> stepExecution option) \<Rightarrow> string option \<Rightarrow>
    JobStatus \<Rightarrow> 'w \<Rightarrow> bool" where
  "flowDone J S cur final w \<longleftrightarrow> (\<exists>tr S'. flowPath jobDef cur tr final
     \<and> recorded jobDef (je_id execution) tr S S'
     \<and> (final = JobCompleted \<and> at_rows J S' w
       \<or> final = JobFailed \<and> (\<exists>row. je_status row = JobFailed \<and> at_rows (J(je_id execution \<mapsto> row)) S' w)))"

lemma triple_failJob:
  assumes "J (je_id execution) = Some e" "flowPath jobDef cur tr JobFailed"
    "recorded jobDef (je_id execution) tr S S'" "\<And>now. jp_status (p now) = Some JobFailed"
  shows "triple (at_rows J S') (thenM (updateJob jx (je_id execution) p) (returnM JobFailed))
    (flowDone J S cur) (crashed J)"
proof (rule triple_thenM [OF triple_updateJob [where J = J and S = S' and i = "je_id execution", OF assms(1)]],
    rule triple_returnM)
  fix w assume "\<exists>now. at_rows (J(je_id execution \<mapsto> patchJobExecution (p now) e)) S' w"
  then obtain now where "at_rows (J(je_id execution \<mapsto> patchJobExecution (p now) e)) S' w" ..
  moreover have "je_status (patchJobExecution (p now) e) = JobFailed" using assms(4) by simp
  ultimately show "flowDone J S cur JobFailed w" using assms(2,3) unfolding flowDone_def by blast
qed

lemma flowDone_next:
  assumes "mapGet (job_steps jobDef) i = Some step" "S sid = None"
    "describes (je_id execution) (stepIdOf step) r row"
    "decideNext jobDef i r (flowExitStatusOf d r) = Inr (GoTo target)"
    "flowDone J (S(sid \<mapsto> row)) target final w"
  shows "flowDone J S (Some i) final w"
proof -
  obtain tr S' where t: "flowPath jobDef target tr final"
    "recorded jobDef (je_id execution) tr (S(sid \<mapsto> row)) S'"
    and rows: "final = JobCompleted \<and> at_rows J S' w
       \<or> final = JobFailed \<and> (\<exists>row. je_status row = JobFailed \<and> at_rows (J(je_id execution \<mapsto> row)) S' w)"
    using assms(5) by (auto simp: flowDone_def)
  have "flowPath jobDef (Some i) ((i, r, d) # tr) final" using flow_next [OF assms(1,4) t(1)] .
  moreover have "recorded jobDef (je_id execution) ((i, r, d) # tr) S S'" using assms(1-3) t(2) by auto
  ultimately show ?thesis using rows unfolding flowDone_def by blast
qed

lemma flowRank_target:
  assumes "acyclic (flowsTo jobDef)" "mapGet (job_steps jobDef) i = Some step"
    "decideNext jobDef i r status = Inr (GoTo target)" "flowRank jobDef (Some i) \<le> Suc n"
  shows "flowRank jobDef target \<le> n"
proof (cases target)
  case None
  then show ?thesis by (simp add: flowRank_def)
next
  case (Some j)
  then have "(i, j) \<in> flowsTo jobDef" using assms(2,3) by (auto simp: flowsTo_def)
  from flowRank_decreases [OF assms(1) this] assms(4) Some show ?thesis by simp
qed

lemma triple_jobLoop:
  assumes "acyclic (flowsTo jobDef)" "J (je_id execution) = Some e" "flowRank jobDef cur \<le> steps"
  shows "triple (at_rows J S) (jobLoop steps fuel jx execution jobDef part b cur) (flowDone J S cur) (crashed J)"
  using assms(3)
proof (induction steps arbitrary: cur S)
  case 0
  then show ?case
    by (cases cur) (auto simp: flowRank_def flowDone_def)
next
  case (Suc steps)
  show ?case
  proof (cases cur)
    case None
    then show ?thesis by (auto simp: flowDone_def)
  next
    case (Some i)
    show ?thesis
    proof (cases "mapGet (job_steps jobDef) i")
      case None
      then show ?thesis unfolding Some
        by (auto intro!: triple_failJob [where J = J and e = e, OF assms(2)] flow_missing simp: noSuchStepPatch_def)
    next
      case step: (Some step)
      let ?next = "\<lambda>(decision, result). case decision of
          FailJob \<Rightarrow> thenM (updateJob jx (je_id execution) (failJobPatch result)) (returnM JobFailed)
        | GoTo target \<Rightarrow> jobLoop steps fuel jx execution jobDef part b target"
      have "triple (\<lambda>w. (\<exists>d. decideNext jobDef i r (flowExitStatusOf d r) = Inr dec) \<and> stepDone J S (stepIdOf step) r w)
          (?next (dec, r)) (flowDone J S (Some i)) (crashed J)" for dec r
      proof (rule triple_pure, erule exE, rule triple_stepDone)
        fix d sid row
        assume dec: "decideNext jobDef i r (flowExitStatusOf d r) = Inr dec" and sid: "S sid = None"
          and row: "describes (je_id execution) (stepIdOf step) r row"
        show "triple (at_rows J (S(sid \<mapsto> row))) (?next (dec, r)) (flowDone J S (Some i)) (crashed J)"
        proof (cases dec)
          case FailJob
          then have "flowPath jobDef (Some i) [(i, r, d)] JobFailed" using flow_fail [OF step] dec by simp
          moreover have "recorded jobDef (je_id execution) [(i, r, d)] S (S(sid \<mapsto> row))"
            using step sid row by auto
          ultimately show ?thesis unfolding FailJob prod.case flowDecision.case
            by (rule triple_failJob [where J = J and e = e, OF assms(2)]) (simp add: failJobPatch_def)
        next
          case (GoTo target)
          have "flowRank jobDef target \<le> steps"
            using flowRank_target [OF assms(1) step dec [unfolded GoTo]] Suc.prems Some by simp
          note Suc.IH [OF this, of "S(sid \<mapsto> row)"]
          moreover have "flowDone J (S(sid \<mapsto> row)) target final w \<Longrightarrow> flowDone J S (Some i) final w" for final w
            using flowDone_next [where S = S and sid = sid, OF step sid row dec [unfolded GoTo]] .
          ultimately show ?thesis unfolding GoTo prod.case flowDecision.case
            by (elim triple_weaken) blast+
        qed
      qed
      then show ?thesis unfolding Some jobLoop.simps step option.case
        by (intro triple_bindM [OF triple_flowTurn [OF step]]) (simp add: split_beta)
    qed
  qed
qed

section \<open>The whole execution\<close>

text \<open>The row after an execution: the verdict of the flow machine, or FAILED with the crash's text.\<close>

definition jobDone :: "(string \<Rightarrow> jobExecution option) \<Rightarrow> (string \<Rightarrow> stepExecution option) \<Rightarrow> jobExecution \<Rightarrow>
    'w \<Rightarrow> bool" where
  "jobDone J S row w \<longleftrightarrow> ok w \<and> jobRow w = J(je_id execution \<mapsto> row) \<and>
     ((\<exists>tr. flowPath jobDef (Some (job_startStepId jobDef)) tr (je_status row)
        \<and> recorded jobDef (je_id execution) tr S (stepRow w))
      \<or> je_status row = JobFailed \<and> (\<exists>err. je_exitMessage row = errorText err))"

lemma jobDone_flow:
  "at_rows (J(je_id execution \<mapsto> row)) S' w \<Longrightarrow> flowPath jobDef (Some (job_startStepId jobDef)) tr (je_status row)
    \<Longrightarrow> recorded jobDef (je_id execution) tr S S' \<Longrightarrow> jobDone J S row w"
  by (auto simp: jobDone_def at_rows_def)

lemma jobDone_crash:
  "at_rows (J(je_id execution \<mapsto> row)) S' w \<Longrightarrow> je_status row = JobFailed \<Longrightarrow> je_exitMessage row = errorText err
    \<Longrightarrow> jobDone J S row w"
  by (auto simp: jobDone_def at_rows_def)

lemma triple_runFlow:
  assumes "acyclic (flowsTo jobDef)" "J (je_id execution) = Some e" "length (job_steps jobDef) < steps"
  shows "triple (at_rows J S) (runFlow steps fuel jx execution jobDef part b)
    (\<lambda>final w. final \<in> {JobCompleted, JobFailed} \<and> (\<exists>row. je_status row = final \<and> jobDone J S row w)) E"
proof -
  let ?Q = "\<lambda>final w. final \<in> {JobCompleted, JobFailed} \<and> (\<exists>row. je_status row = final \<and> jobDone J S row w)"
  let ?start = "Some (job_startStepId jobDef)"
  have rank: "flowRank jobDef ?start \<le> steps"
    using flowRank_bound [OF assms(1), of ?start] assms(3) by linarith
  note update = triple_thenM [OF triple_updateJob [where J = J and i = "je_id execution", OF assms(2)]]
  have completed: "triple (flowDone J S ?start JobCompleted)
      (thenM (updateJob jx (je_id execution) completedPatch) (returnM JobCompleted)) ?Q (crashed J)"
    (is "triple _ ?m _ _")
  proof -
    have "triple (at_rows J S') ?m ?Q (crashed J)"
      if "flowPath jobDef ?start tr JobCompleted" "recorded jobDef (je_id execution) tr S S'" for tr S'
    proof (rule update, rule triple_returnM)
      fix w assume "\<exists>now. at_rows (J(je_id execution \<mapsto> patchJobExecution (completedPatch now) e)) S' w"
      then obtain now where "at_rows (J(je_id execution \<mapsto> patchJobExecution (completedPatch now) e)) S' w" ..
      moreover have "je_status (patchJobExecution (completedPatch now) e) = JobCompleted" by (simp add: completedPatch_def)
      ultimately show "?Q JobCompleted w" using that jobDone_flow by (metis insertI1)
    qed
    then have "triple (\<lambda>w. \<exists>tr S'. flowPath jobDef ?start tr JobCompleted
        \<and> recorded jobDef (je_id execution) tr S S' \<and> at_rows J S' w) ?m ?Q (crashed J)"
      by (intro triple_exists triple_pure)
    then show ?thesis by (elim triple_weaken) (auto simp: flowDone_def)
  qed
  have final: "triple (flowDone J S ?start final) (if final = JobCompleted
      then thenM (updateJob jx (je_id execution) completedPatch) (returnM final) else returnM final) ?Q (crashed J)" for final
  proof (cases "final = JobCompleted")
    case True
    with completed show ?thesis by simp
  next
    case False
    have "?Q final w" if fd: "flowDone J S ?start final w" for w
    proof -
      obtain tr S' row where "flowPath jobDef ?start tr final" "recorded jobDef (je_id execution) tr S S'"
        "final = JobFailed" "je_status row = JobFailed" "at_rows (J(je_id execution \<mapsto> row)) S' w"
        using fd False by (auto simp: flowDone_def)
      then show ?thesis using jobDone_flow by (metis insertCI)
    qed
    then have "triple (flowDone J S ?start final) (returnM final) ?Q (crashed J)" by (rule triple_returnM)
    with False show ?thesis by simp
  qed
  have crash: "triple (crashed J err) (thenM (updateJob jx (je_id execution) (crashedPatch err)) (returnM JobFailed)) ?Q E" for err
    unfolding crashed_def
  proof (intro triple_exists, rule update, rule triple_returnM)
    fix S' w assume "\<exists>now. at_rows (J(je_id execution \<mapsto> patchJobExecution (crashedPatch err now) e)) S' w"
    then obtain now where "at_rows (J(je_id execution \<mapsto> patchJobExecution (crashedPatch err now) e)) S' w" ..
    moreover have "je_status (patchJobExecution (crashedPatch err now) e) = JobFailed"
      "je_exitMessage (patchJobExecution (crashedPatch err now) e) = errorText err"
      by (simp_all add: crashedPatch_def patchJobExecution_def)
    ultimately show "?Q JobFailed w" using jobDone_crash by (metis insertCI)
  qed
  show ?thesis unfolding runFlow_def
    by (rule triple_catchM [OF triple_bindM [OF triple_jobLoop [where J = J, OF assms(1,2) rank] final] crash])
qed

lemma executeJob_outcome:
  assumes "acyclic (flowsTo jobDef)" "length (job_steps jobDef) < steps"
    and "ok w" "jobRow w (je_id execution) = Some e" "isRestartOf execution \<longrightarrow> job_restartable jobDef"
  shows "\<exists>row w'. executeJob steps fuel jx execution jobDef part w = (Value (Some row), w')
    \<and> je_status row \<in> {JobCompleted, JobFailed} \<and> jobDone (jobRow w) (stepRow w) row w'"
proof -
  let ?S = "stepRow w"
  let ?Q = "\<lambda>final w. final \<in> {JobCompleted, JobFailed} \<and> (\<exists>row. je_status row = final \<and> jobDone (jobRow w) ?S row w)"
  obtain w1 where w1: "updateJob jx (je_id execution) startedPatch w = (Value (), w1)" "ok w1"
    "jobRow w1 = (jobRow w)(je_id execution \<mapsto> patchJobExecution (startedPatch (jx_clock jx w)) e)" "stepRow w1 = ?S"
    using updateJob_effect [OF assms(3,4)] by metis
  obtain w2 where w2: "emit jx EvJobStarted (je_id execution) None (JObj [(''jobName'', JStr (job_id jobDef))]) w1 = (Value (), w2)"
    "ok w2" "jobRow w2 = jobRow w1" "stepRow w2 = ?S"
    using emit_Value [OF w1(2)] w1(4) by metis
  have "jobRow w2 (je_id execution) = Some (patchJobExecution (startedPatch (jx_clock jx w)) e)"
    by (simp add: w2(3) w1(3))
  from triple_runFlow [where J = "jobRow w2" and E = "\<lambda>_ _. False", OF assms(1) this assms(2), of ?S "isRestartOf execution"] w2
  obtain final row w3 where w3: "runFlow steps fuel jx execution jobDef part (isRestartOf execution) w2 = (Value final, w3)"
    "final \<in> {JobCompleted, JobFailed}" "je_status row = final" "jobDone (jobRow w2) ?S row w3"
    by (auto simp: triple_def at_rows_def)
  obtain w4 where w4: "emit jx (if final = JobCompleted then EvJobCompleted else EvJobFailed) (je_id execution) None
      (JObj [(''status'', JStr (jobStatusText final))]) w3 = (Value (), w4)"
    "ok w4" "jobRow w4 = jobRow w3" "stepRow w4 = stepRow w3"
    using emit_Value [of w3] w3(4) unfolding jobDone_def by blast
  have "jobDone (jobRow w) ?S row w4" using w3(4) w4 w2(3) w1(3) by (simp add: jobDone_def)
  moreover from this have "repo_getJobExecution (jx_repository jx) (je_id execution) w4 = (Value (Some row), w4)"
    by (simp add: getJobExecution jobDone_def)
  ultimately show ?thesis using assms(5) w1(1) w2(1) w3(1-3) w4(1)
    by (auto simp: executeJob_def Let_def beforeJob afterJob)
qed

end

end
