(* ===== verification/JobProperties.thy ===== *)
theory JobProperties
  imports JobRun DefinitionValidator
begin

text \<open>
  The properties of a whole job execution, and the executor on the in-memory repository as
  an instance of the contract: jobs whose steps are tasklets with a scripted outcome.
\<close>

section \<open>The executor on the in-memory repository\<close>

text \<open>\<open>InMemoryTransactionManager\<close> calls the function and nothing else.\<close>

definition inMemoryTransaction :: "('w, 'a) M \<Rightarrow> ('w, 'a) M" where
  "inMemoryTransaction fn = fn"

definition memExecutor :: "string \<Rightarrow> inMemoryState jobExecutor" where
  "memExecutor prefix = \<lparr>jx_repository = inMemoryRepository (deterministicIdGenerator prefix),
     jx_writeTransaction = inMemoryTransaction, jx_taskletTransaction = inMemoryTransaction,
     jx_observer = noopObserver, jx_clock = (\<lambda>_. 0)\<rparr>"

lemma memExecutor_fields [simp]:
  "jx_repository (memExecutor prefix) = inMemoryRepository (deterministicIdGenerator prefix)"
  "jx_writeTransaction (memExecutor prefix) m = m" "jx_taskletTransaction (memExecutor prefix) n = n"
  "jx_observer (memExecutor prefix) = noopObserver" "jx_clock (memExecutor prefix) w = 0"
  by (simp_all add: memExecutor_def inMemoryTransaction_def)

definition scriptTasklet :: "string \<Rightarrow> exn + string option \<Rightarrow> ('w, unit) stepDefinition" where
  "scriptTasklet i r = TaskletStep \<lparr>ts_id = i, ts_tasklet = objectRef (\<lambda>_. liftE r)\<rparr>"

definition scriptJob :: "(string \<times> (exn + string option)) list \<Rightarrow> string \<Rightarrow> transitionDefinition list \<Rightarrow> bool \<Rightarrow>
    ('w, unit) jobDefinition" where
  "scriptJob script start transitions restartable = \<lparr>job_id = ''job'',
     job_steps = map (\<lambda>(i, r). (i, scriptTasklet i r)) script, job_startStepId = start,
     job_transitions = transitions, job_deciders = [], job_listeners = [],
     job_restartable = restartable, job_allowDuplicateInstances = False\<rparr>"

lemma scriptJob_fields [simp]:
  "job_steps (scriptJob script start ts b) = map (\<lambda>(i, r). (i, scriptTasklet i r)) script"
  "job_startStepId (scriptJob script start ts b) = start" "job_transitions (scriptJob script start ts b) = ts"
  "job_deciders (scriptJob script start ts b) = []" "job_restartable (scriptJob script start ts b) = b"
  "buildResolverMap (scriptJob script start ts b) = []"
  by (simp_all add: scriptJob_def buildResolverMap_def)

text \<open>The result of a scripted step.\<close>

fun scriptResult :: "exn + string option \<Rightarrow> stepResult" where
  "scriptResult (Inr t) = taskletResult StepCompleted ''COMPLETED'' (orKeep t [])"
| "scriptResult (Inl e) = taskletResult StepFailed ''FAILED'' (errorText e)"

lemma runStepBody_script:
  "runStepBody fuel (memExecutor prefix) execution [] part (scriptTasklet i r) sid resume w = (Value (scriptResult r), w)"
  by (cases r) (simp_all add: runStepBody_def scriptTasklet_def taskletContextFor_def
      buildLegacyStepResolvers_def executeTasklet_no_listeners runTasklet_def resolveTasklet_def objectRef_def)

lemma scriptTasklet_fields [simp]: "stepIdOf (scriptTasklet i r) = i" "\<not> isChunkStep (scriptTasklet i r)"
  by (simp_all add: scriptTasklet_def)

lemma script_step:
  "mapGet (map (\<lambda>(i, r). (i, scriptTasklet i r)) script) i = Some step \<Longrightarrow> \<exists>r. step = scriptTasklet i r"
  by (induction script) (auto split: if_splits)

interpretation script: job_run "memExecutor prefix" "imsInv (deterministicIdGenerator prefix)"
    "\<lambda>s. mapGet (ims_executions s)" "\<lambda>s. mapGet (ims_stepExecutions s)" contextIn
    execution "scriptJob entries start transitions restartable" part fuel
  for prefix execution entries start transitions restartable part fuel
proof (intro job_run.intro job_run_axioms.intro, goal_cases)
  case 1
  show ?case by (simp add: im.repository_contract_axioms)
next
  case (2 i step sid resume)
  then obtain r where "step = scriptTasklet i r" using script_step by fastforce
  then show ?case by (simp add: runStepBody_script rowSafe_def)
qed (simp_all add: noopObserver_def invoke_quiet)

section \<open>What an execution does\<close>


text \<open>A failing first step that hands over to a repair step; the third is never run.\<close>

definition repairJob :: "(inMemoryState, unit) jobDefinition" where
  "repairJob = scriptJob [(''load'', Inl (plainError ''no input'')), (''repair'', Inr (Some ''fixed'')), (''store'', Inr None)]
     ''load'' [\<lparr>fromStepId = ''load'', onStatus = ''FAILED'', toStepId = Some ''repair''\<rparr>,
       \<lparr>fromStepId = ''repair'', onStatus = ''*'', toStepId = None\<rparr>] False"

definition newExecution :: jobExecution where
  "newExecution = \<lparr>je_id = ''id-2'', je_jobInstanceId = ''id-1'', je_status = JobStarting, je_startTime = None,
     je_endTime = None, je_exitCode = [], je_exitMessage = [], je_params = []\<rparr>"

definition launched :: inMemoryState where
  "launched = snd (createExecutionAtomic exampleGen ''job'' ''key'' [] emptyInMemoryState)"

lemma launched_row: "mapGet (ims_executions launched) ''id-2'' = Some newExecution"
  by code_simp

lemma launched_inv: "imsInv exampleGen launched"
  unfolding launched_def by (intro createExecutionAtomic_inv deterministicIdGenerator_inj imsInv_empty)

definition finalStatus :: "jobExecution option outcome \<times> 'w \<Rightarrow> JobStatus option" where
  "finalStatus r = (case fst r of Value (Some row) \<Rightarrow> Some (je_status row) | _ \<Rightarrow> None)"

section \<open>Termination\<close>

text \<open>The place of a step in declaration order.\<close>

fun placeOf :: "string list \<Rightarrow> string \<Rightarrow> nat" where
  "placeOf [] i = 0"
| "placeOf (x # xs) i = (if x = i then 0 else Suc (placeOf xs i))"

lemma nextInOrder_set: "nextInOrder ids i = Some j \<Longrightarrow> j \<in> set ids"
  by (induction ids) (auto split: if_splits list.splits)

lemma nextInOrder_place: "distinct ids \<Longrightarrow> nextInOrder ids i = Some j \<Longrightarrow> placeOf ids i < placeOf ids j"
proof (induction ids)
  case (Cons x xs)
  then show ?case by (auto split: if_splits list.splits dest: nextInOrder_set)
qed simp

lemma evaluate_target:
  "evaluate ts i status = Inr (Some j) \<Longrightarrow> hasMatching ts i status \<Longrightarrow>
    \<exists>t \<in> set ts. fromStepId t = i \<and> toStepId t = Some j"
  using evaluate_Inr_in_set [of ts i status "Some j"]
  by (auto simp: hasMatching_def list_ex_iff matchesTransition_def)

lemma decideNext_target:
  assumes "decideNext J i r s = Inr (GoTo (Some j))"
  shows "(\<exists>t \<in> set (job_transitions J). fromStepId t = i \<and> toStepId t = Some j)
    \<or> nextInOrder (mapKeys (job_steps J)) i = Some j"
  using assms
  by (auto simp: decideNext_def Let_def split: sum.splits if_splits dest: evaluate_target)

lemma forward_acyclic:
  assumes "wfMap (job_steps J)"
    and "\<forall>t \<in> set (job_transitions J). \<forall>j. toStepId t = Some j \<longrightarrow>
      placeOf (mapKeys (job_steps J)) (fromStepId t) < placeOf (mapKeys (job_steps J)) j"
  shows "acyclic (flowsTo J)"
proof -
  let ?place = "placeOf (mapKeys (job_steps J))"
  have step: "?place i < ?place j" if "(i, j) \<in> flowsTo J" for i j
    using that assms nextInOrder_place decideNext_target unfolding flowsTo_def wfMap_def by blast
  have "?place i < ?place j" if "(i, j) \<in> (flowsTo J)\<^sup>+" for i j
    using that by induction (auto dest: step)
  then show ?thesis unfolding acyclic_def by blast
qed

text \<open>
  C4: a job whose declared transitions all lead forward in declaration order always comes to
  an end, with a row that is COMPLETED or FAILED and after at most one turn per step.
\<close>
theorem forward_job_terminates:
  assumes "job_run jx ok jobRow stepRow context_of execution jobDef part fuel"
    and "wfMap (job_steps jobDef)"
    and "\<forall>t \<in> set (job_transitions jobDef). \<forall>j. toStepId t = Some j \<longrightarrow>
      placeOf (mapKeys (job_steps jobDef)) (fromStepId t) < placeOf (mapKeys (job_steps jobDef)) j"
    and "ok w" "jobRow w (je_id execution) = Some e" "isRestartOf execution \<longrightarrow> job_restartable jobDef"
  shows "\<exists>row w'. executeJob (Suc (length (job_steps jobDef))) fuel jx execution jobDef part w = (Value (Some row), w')
    \<and> je_status row \<in> {JobCompleted, JobFailed}"
  using job_run.executeJob_outcome [OF assms(1) forward_acyclic [OF assms(2,3)] lessI assms(4-6)] by blast

lemma repairJob_forward:
  "wfMap (job_steps repairJob)"
  "\<forall>t \<in> set (job_transitions repairJob). \<forall>j. toStepId t = Some j \<longrightarrow>
      placeOf (mapKeys (job_steps repairJob)) (fromStepId t) < placeOf (mapKeys (job_steps repairJob)) j"
  by (simp_all add: repairJob_def wfMap_def)

lemma repairJob_run: "job_run (memExecutor ''id'') (imsInv exampleGen) (\<lambda>s. mapGet (ims_executions s))
    (\<lambda>s. mapGet (ims_stepExecutions s)) contextIn newExecution repairJob noPartition 0"
  unfolding repairJob_def by (rule script.job_run_axioms)

theorem forward_job_terminates_witness:
  "\<exists>row w'. executeJob 4 0 (memExecutor ''id'') newExecution repairJob noPartition launched = (Value (Some row), w')
    \<and> je_status row \<in> {JobCompleted, JobFailed}"
proof -
  have "length (job_steps repairJob) = 3" by (simp add: repairJob_def)
  then show ?thesis
    using forward_job_terminates [OF repairJob_run repairJob_forward launched_inv, of newExecution] launched_row
    by (simp add: newExecution_def isRestartOf_def numeral_eq_Suc)
qed


section \<open>Validation does not rule out a loop\<close>

text \<open>One turn of a scripted step: its result, and where the flow goes.\<close>

lemma runStep_script:
  assumes "imsInv (deterministicIdGenerator prefix) w"
  shows "\<exists>sid w'. runStep fuel (memExecutor prefix) execution [] part b (scriptTasklet i r) w = (Value (scriptResult r, sid), w')
    \<and> imsInv (deterministicIdGenerator prefix) w'"
proof -
  let ?repo = "inMemoryRepository (deterministicIdGenerator prefix)"
  obtain s w1 where s: "repo_createStepExecution ?repo (je_id execution) i w = (Value s, w1)"
    "imsInv (deterministicIdGenerator prefix) w1" "mapGet (ims_stepExecutions w1) (se_id s) = Some s"
    using im.createStepExecution [OF assms, of "je_id execution" i] by fastforce
  obtain w2 where "repo_updateStepExecution ?repo (se_id s) (stepResultPatch (scriptResult r) 0) w1 = (Value (), w2)"
    "imsInv (deterministicIdGenerator prefix) w2"
    using im.updateStepExecution [OF s(2,3)] by blast
  then show ?thesis using s(1)
    by (simp add: runStep_def Let_def restartContextOf_def emit_def noopObserver_def runStepBody_script)
qed

lemma jobLoop_script:
  assumes "imsInv (deterministicIdGenerator prefix) w"
    and "mapGet (job_steps (scriptJob script start ts b :: (inMemoryState, unit) jobDefinition)) i = Some (scriptTasklet i r)"
    and "decideNext (scriptJob script start ts b :: (inMemoryState, unit) jobDefinition) i (scriptResult r) (flowExitStatusOf None (scriptResult r)) = Inr (GoTo (Some j))"
  shows "\<exists>w'. jobLoop (Suc n) fuel (memExecutor prefix) execution (scriptJob script start ts b) part restart (Some i) w
      = jobLoop n fuel (memExecutor prefix) execution (scriptJob script start ts b) part restart (Some j) w'
    \<and> imsInv (deterministicIdGenerator prefix) w'"
proof -
  obtain sid w' where "runStep fuel (memExecutor prefix) execution [] part restart (scriptTasklet i r) w
      = (Value (scriptResult r, sid), w')" "imsInv (deterministicIdGenerator prefix) w'"
    using runStep_script [OF assms(1)] by blast
  then show ?thesis using assms(2,3)
    by (auto simp: flowTurn_def resolveDeciderExitStatus_def bindM_assoc)
qed

text \<open>A repair step declared before the step it hands back to.\<close>

definition retryJob :: "(inMemoryState, unit) jobDefinition" where
  "retryJob = scriptJob [(''repair'', Inr None), (''load'', Inl (plainError ''no input''))] ''load''
     [\<lparr>fromStepId = ''load'', onStatus = ''FAILED'', toStepId = Some ''repair''\<rparr>] False"

text \<open>
  C13: passing validation does not make a job terminate. The validator looks for cycles among
  the declared transitions only; the fallback to the next step in declaration order can
  close one. This job is accepted, and no amount of fuel lets its execution end.
\<close>
theorem validated_job_can_loop:
  "validate retryJob = Inr () \<and>
   fst (executeJob n 0 (memExecutor ''id'') newExecution retryJob noPartition launched) = OutOfFuel"
proof
  have edges: "stepEdges (job_transitions retryJob) = {(''load'', ''repair'')}"
    by (auto simp: stepEdges_def succs_def retryJob_def split: if_splits)
  have "trans {(''load'', ''repair'')}" by (auto intro: transI)
  then have "(stepEdges (job_transitions retryJob))\<^sup>+ = {(''load'', ''repair'')}"
    unfolding edges by (rule trancl_id)
  moreover have "(''load'', ''repair'') \<in> (stepEdges (job_transitions retryJob))\<^sup>*" unfolding edges by blast
  ultimately show "validate retryJob = Inr ()"
    unfolding validate_iff by (auto simp: retryJob_def hasStep_def scriptTasklet_def)
  let ?loop = "\<lambda>n i. jobLoop n 0 (memExecutor ''id'') newExecution retryJob noPartition False (Some i)"
  have load: "decideNext retryJob ''load'' (scriptResult (Inl (plainError ''no input'')))
      (flowExitStatusOf None (scriptResult (Inl (plainError ''no input'')))) = Inr (GoTo (Some ''repair''))" by code_simp
  have repair: "decideNext retryJob ''repair'' (scriptResult (Inr None))
      (flowExitStatusOf None (scriptResult (Inr None))) = Inr (GoTo (Some ''load''))" by code_simp
  have loop: "imsInv exampleGen w \<Longrightarrow> i \<in> {''load'', ''repair''} \<Longrightarrow> fst (?loop n i w) = OutOfFuel" for n i w
  proof (induction n arbitrary: i w)
    case (Suc n)
    then obtain j w' where "?loop (Suc n) i w = ?loop n j w'" "imsInv exampleGen w'" "j \<in> {''load'', ''repair''}"
      using jobLoop_script [OF Suc.prems(1) _ load [unfolded retryJob_def], of n 0 newExecution noPartition False]
        jobLoop_script [OF Suc.prems(1) _ repair [unfolded retryJob_def], of n 0 newExecution noPartition False]
      by (fastforce simp: retryJob_def)
    then show ?case using Suc.IH by simp
  qed simp
  obtain w1 where "updateJob (memExecutor ''id'') ''id-2'' startedPatch launched = (Value (), w1)" "imsInv exampleGen w1"
    using script.updateJob_effect [OF launched_inv launched_row] by blast
  moreover from this loop have "fst (?loop n ''load'' w1) = OutOfFuel" by blast
  ultimately show "fst (executeJob n 0 (memExecutor ''id'') newExecution retryJob noPartition launched) = OutOfFuel"
    by (auto simp: executeJob_def Let_def isRestartOf_def newExecution_def emit_def noopObserver_def runFlow_def
        retryJob_def invoke_quiet catchM_def bindM_def split: prod.splits)
qed

section \<open>A job listener that fails\<close>


text \<open>A listener that cannot reach its service.\<close>

definition listenedJob :: "(inMemoryState, unit) jobDefinition" where
  "listenedJob = repairJob\<lparr>job_listeners := [\<lparr>ld_kind = KJob, ld_phase = PBefore,
     ld_ref = \<lparr>lr_kind = BuilderLambda, lr_token = None,
       lr_fn = Some (\<lambda>args w. ((Throw (plainError ''no service''), args), w)),
       lr_classToken = None, lr_methodName = None\<rparr>, ld_skipKind = None, ld_nonCritical = None\<rparr>]\<rparr>"


end
