(* ===== verification/LaunchProperties.thy ===== *)
theory LaunchProperties
  imports JobLauncher JobProperties
begin

text \<open>
  Launching, handing over to a worker, and steering by the operator: the properties that
  compose the launcher, the strategies, the worker and the operator with the executor.
\<close>

section \<open>Handing over to a worker\<close>

lemma parseArgPairs_words:
  "\<forall>x \<in> set ws. \<not> startsWith ''--'' x \<Longrightarrow> parseArgPairs (ws @ rest) out = parseArgPairs rest out"
proof (induction ws)
  case (Cons x ws)
  then show ?case by (cases "ws @ rest") simp_all
qed simp

lemma parseArgPairs_flag:
  "startsWith ''--'' f \<Longrightarrow> CHR ''='' \<notin> set f \<Longrightarrow> \<not> startsWith ''--'' v \<Longrightarrow>
     parseArgPairs (f # v # rest) out = parseArgPairs rest (mapSet (drop 2 f) v out)"
  by simp

lemma worker_flags:
  "startsWith ''--'' ''--job-id''" "startsWith ''--'' ''--job-execution-id''" "startsWith ''--'' ''--params-json''"
  "CHR ''='' \<notin> set ''--job-id''" "CHR ''='' \<notin> set ''--job-execution-id''" "CHR ''='' \<notin> set ''--params-json''"
  by (simp_all add: startsWith_def)

lemma parse_buildWorkerArgs:
  assumes "\<forall>x \<in> set (orKeep (eo_workerCommand options) []). \<not> startsWith ''--'' x"
    and "\<not> startsWith ''--'' jobId" "\<not> startsWith ''--'' exid"
    and "parseJson (printJson num (JObj params)) = Inr (JObj params)"
  shows "parseBatchWorkerArgs parseJson toNumber (buildWorkerArgs num options jobId exid params)
    = Inr \<lparr>wo_jobExecutionId = Some exid, wo_executionId = None, wo_jobId = Some jobId,
        wo_params = Some params, wo_partitionIndex = None, wo_partitionCount = None\<rparr>"
proof -
  define body where "body = printJson num (JObj params)"
  let ?flags = "[''--job-id'', jobId, ''--job-execution-id'', exid, ''--params-json'', body]"
  let ?ws = "orKeep (eo_workerCommand options) [''batch-worker'']"
  have json: "\<not> startsWith ''--'' body" by (simp add: startsWith_def body_def)
  have words: "\<forall>x \<in> set ?ws. \<not> startsWith ''--'' x"
    using assms(1) by (cases "eo_workerCommand options") (simp_all add: startsWith_def)
  have flags: "parseArgPairs ?flags [] = [(''job-id'', jobId), (''job-execution-id'', exid),
      (''params-json'', body)]"
    using parseArgPairs_flag [OF worker_flags(1,4) assms(2)] parseArgPairs_flag [OF worker_flags(2,5) assms(3)]
      parseArgPairs_flag [OF worker_flags(3,6) json]
    by (simp only: parseArgPairs.simps(1)) simp
  have "parseArgPairs (ws @ ?flags) [] = parseArgPairs ?flags []" if "set ws \<subseteq> set ?ws" for ws
    using words that by (intro parseArgPairs_words) blast
  from this [of ?ws] this [of "tl ?ws"]
  have "parseArgPairs (case ?ws @ ?flags of a # rest \<Rightarrow> if a = ''batch-worker'' then rest else ?ws @ ?flags | [] \<Rightarrow> []) []
      = parseArgPairs ?flags []"
    by (cases ?ws) (simp_all del: parseArgPairs.simps add: subset_insertI)
  then show ?thesis
    using flags assms(4) unfolding parseBatchWorkerArgs_def buildWorkerArgs_def Let_def body_def [symmetric]
    by (simp del: parseArgPairs.simps)
qed

text \<open>
  C20: what the external-task strategy puts on the command line is what the worker reads back:
  a worker started with those arguments runs exactly the execution the launcher created, of
  the job it was launched for, and reports its status with a matching exit code. The words
  of the worker command and the two ids must not look like flags; parsing inverts printing.
\<close>
theorem external_task_handover:
  assumes "\<forall>x \<in> set (orKeep (eo_workerCommand options) []). \<not> startsWith ''--'' x"
    and "\<not> startsWith ''--'' (job_id job)" "\<not> startsWith ''--'' exid"
    and "parseJson (printJson num (JObj params)) = Inr (JObj params)"
    and "registryGet (rt_registry rt) (job_id job) = Inr job"
    and "repo_getJobExecution (rt_repository rt) exid w = (Value (Some execution), w)"
    and "runExecutor rt execution job noPartition w = (Value (Some row), w')"
  shows "\<exists>options'. parseBatchWorkerArgs parseJson toNumber (buildWorkerArgs num options (job_id job) exid params) = Inr options'
    \<and> workerRun rt options' w = (Value \<lparr>wk_jobExecution = row, wk_status = je_status row,
         wk_processExitCode = (if je_status row = JobCompleted then 0 else 1)\<rparr>, w')"
  using assms(5-7) unfolding parse_buildWorkerArgs [where toNumber = toNumber and parseJson = parseJson, OF assms(1-4)]
  by (simp add: workerRun_def workerExecution_def noPartition_def bindM_def)

definition memRuntime :: "(string, (inMemoryState, unit) jobDefinition) jsmap \<Rightarrow> (inMemoryState, unit) jobRuntime" where
  "memRuntime registry = \<lparr>rt_registry = registry, rt_executor = memExecutor ''id'', rt_strategy = None,
     rt_uuid = returnM ''u'', rt_numberText = ratText, rt_sha256 = id, rt_steps = 4, rt_fuel = 0\<rparr>"

theorem external_task_handover_witness:
  "\<exists>options' r w'. parseBatchWorkerArgs (\<lambda>_. Inr (JObj [(''day'', JNum (Fin 1))])) (\<lambda>_. NaN)
      (buildWorkerArgs ratText \<lparr>eo_workerCommand = Some [''node'', ''main.js''], eo_env = None, eo_labels = None\<rparr>
        ''job'' ''id-2'' [(''day'', JNum (Fin 1))]) = Inr options'
    \<and> workerRun (memRuntime [(''job'', repairJob)]) options' launched = (Value r, w') \<and> wk_processExitCode r = 0"
proof -
  let ?rt = "memRuntime [(''job'', repairJob)]"
  have id: "job_id repairJob = ''job''" by (simp add: repairJob_def scriptJob_def)
  have "finalStatus (runExecutor ?rt newExecution repairJob noPartition launched) = Some JobCompleted" by code_simp
  then obtain row w' where run: "runExecutor ?rt newExecution repairJob noPartition launched = (Value (Some row), w')"
    "je_status row = JobCompleted"
    by (cases "runExecutor ?rt newExecution repairJob noPartition launched")
      (auto simp: finalStatus_def split: outcome.splits option.splits)
  have "repo_getJobExecution (rt_repository ?rt) ''id-2'' launched = (Value (Some newExecution), launched)"
    by (simp add: memRuntime_def inMemoryRepository_def getJobExecution_def launched_row)
  from external_task_handover [where job = repairJob and rt = ?rt and toNumber = "\<lambda>_. NaN" and num = ratText
      and options = "\<lparr>eo_workerCommand = Some [''node'', ''main.js''], eo_env = None, eo_labels = None\<rparr>"
      and parseJson = "\<lambda>_. Inr (JObj [(''day'', JNum (Fin 1))])" and params = "[(''day'', JNum (Fin 1))]",
      OF _ _ _ _ _ this run(1)] run(2) id
  show ?thesis by (fastforce simp: startsWith_def memRuntime_def registryGet_def)
qed

section \<open>Launching\<close>

lemma inProcessLaunch_Value:
  "assertPartitionsSupported mode job = Inr () \<Longrightarrow>
    repo_getJobExecution (rt_repository rt) (je_id e) w = (Value (Some e), w) \<Longrightarrow>
    runExecutor rt e job noPartition w = (Value (Some row), w') \<Longrightarrow>
    inProcessLaunch rt mode job params \<lparr>sx_executionId = je_id e, sx_jobExecutionId = je_id e\<rparr> w
      = (Value (LaunchCompleted (je_status row)), w')"
  by (simp add: inProcessLaunch_def)

text \<open>The atomic creation, read off the instance it is for.\<close>

lemma createExecution_split:
  assumes "inj gen" "imsInv gen w"
  obtains (running) inst w' other where "fst (getOrCreateJobInstance gen name key w) = Value inst"
      "\<exists>x \<in> set (mapValues (ims_executions w)). isRunningOf (ji_id inst) x"
      "createExecutionAtomic gen name key params w = (Throw (jobExecutionAlreadyRunningError other), w')"
      "ims_executions w' = ims_executions w"
    | (free) inst w' e where "fst (getOrCreateJobInstance gen name key w) = Value inst"
      "\<not> (\<exists>x \<in> set (mapValues (ims_executions w)). isRunningOf (ji_id inst) x)"
      "createExecutionAtomic gen name key params w = (Value e, w')" "je_status e = JobStarting"
      "mapGet (ims_executions w) (je_id e) = None" "imsInv gen w'"
      "mapGet (ims_executions w') = (mapGet (ims_executions w))(je_id e \<mapsto> e)"
proof -
  have inv: "imsInv gen (snd (createExecutionAtomic gen name key params w))"
    by (rule createExecutionAtomic_inv [OF assms])
  show thesis
  proof (cases rule: createExecutionAtomic_cases [of gen name key w params])
    case (running inst s exec)
    have "ims_executions s = ims_executions w" using getOrCreateJobInstance_executions running(1) by (metis snd_conv)
    then show thesis using running find_Some_in_set [OF running(2)] that(1) by fastforce
  next
    case (free inst s)
    have execs: "ims_executions s = ims_executions w" using getOrCreateJobInstance_executions free(1) by (metis snd_conv)
    have "imsInv gen s" using getOrCreateJobInstance_inv [OF assms, of name key] free(1) by simp
    then have new: "mapGet (ims_executions s) (gen (ims_counter s)) = None"
      using assms(1) rowsOk_fresh by (auto simp: imsInv_def)
    show thesis
      by (rule that(2)) (use free new execs inv in \<open>auto simp: insertExecution_effect map_of_update_fun find_None_set\<close>)
  qed
qed

text \<open>
  C5: a launch either refuses, because an execution of the same instance is running, and
  then starts nothing, or it creates one new execution row, runs the job, and returns that
  row, COMPLETED or FAILED, as it is stored; all other rows keep their state. This holds
  for the launcher on its own and with the in-process strategy.
\<close>
theorem launch_correct:
  fixes rt :: "(inMemoryState, 'i) jobRuntime"
  assumes "rt_repository rt = inMemoryRepository (deterministicIdGenerator prefix)"
    and "\<forall>execution. job_run (rt_executor rt) (imsInv (deterministicIdGenerator prefix))
      (\<lambda>s. mapGet (ims_executions s)) (\<lambda>s. mapGet (ims_stepExecutions s)) contextIn execution jobDef noPartition (rt_fuel rt)"
    and "rt_strategy rt = None \<or> rt_strategy rt = Some (inProcessStrategy rt mode) \<and> assertPartitionsSupported mode jobDef = Inr ()"
    and "registryGet (rt_registry rt) jobId = Inr jobDef" "\<not> job_allowDuplicateInstances jobDef"
    and "canonicalJobKey (rt_numberText rt) (rt_sha256 rt) params = Inr key"
    and "acyclic (flowsTo jobDef)" "length (job_steps jobDef) < rt_steps rt"
    and "imsInv (deterministicIdGenerator prefix) w"
  shows "\<exists>r w' inst. launch rt jobId params None w = (r, w')
    \<and> fst (getOrCreateJobInstance (deterministicIdGenerator prefix) jobId key w) = Value inst
    \<and> (if \<exists>x \<in> set (mapValues (ims_executions w)). isRunningOf (ji_id inst) x
       then (\<exists>other. r = Throw (jobExecutionAlreadyRunningError other)) \<and> ims_executions w' = ims_executions w
       else \<exists>row. r = Value (Some row) \<and> je_status row \<in> {JobCompleted, JobFailed}
         \<and> mapGet (ims_executions w) (je_id row) = None
         \<and> mapGet (ims_executions w') = (mapGet (ims_executions w))(je_id row \<mapsto> row))"
proof -
  let ?gen = "deterministicIdGenerator prefix"
  have key: "launchKey rt jobDef params = returnM key" using assms(5,6) by (intro ext) (simp add: launchKey_def)
  have create: "repo_createExecutionAtomic (rt_repository rt) = createExecutionAtomic ?gen"
    and get: "repo_getJobExecution (rt_repository rt) = getJobExecution"
    unfolding assms(1) by (simp_all add: inMemoryRepository_def)
  show ?thesis
  proof (rule createExecution_split [where name = jobId and key = key and params = params, OF deterministicIdGenerator_inj assms(9)])
    fix inst w' other
    assume "fst (getOrCreateJobInstance ?gen jobId key w) = Value inst"
      "\<exists>x \<in> set (mapValues (ims_executions w)). isRunningOf (ji_id inst) x"
      "createExecutionAtomic ?gen jobId key params w = (Throw (jobExecutionAlreadyRunningError other), w')"
      "ims_executions w' = ims_executions w"
    then show ?thesis using assms(4) key create by (auto simp: launch_def)
  next
    fix inst w1 e
    assume free: "fst (getOrCreateJobInstance ?gen jobId key w) = Value inst"
      "\<not> (\<exists>x \<in> set (mapValues (ims_executions w)). isRunningOf (ji_id inst) x)"
      "createExecutionAtomic ?gen jobId key params w = (Value e, w1)" "je_status e = JobStarting"
      "mapGet (ims_executions w) (je_id e) = None" "imsInv ?gen w1"
      "mapGet (ims_executions w1) = (mapGet (ims_executions w))(je_id e \<mapsto> e)"
    have "mapGet (ims_executions w1) (je_id e) = Some e" "isRestartOf e \<longrightarrow> job_restartable jobDef"
      using free by (simp_all add: isRestartOf_def)
    then obtain row w' where run: "runExecutor rt e jobDef noPartition w1 = (Value (Some row), w')"
      "je_status row \<in> {JobCompleted, JobFailed}" "imsInv ?gen w'"
      "mapGet (ims_executions w') = (mapGet (ims_executions w1))(je_id e \<mapsto> row)"
      using job_run.executeJob_outcome [OF spec [OF assms(2)] assms(7,8) free(6), of e]
      by (auto simp: runExecutor_def job_run.jobDone_def [OF spec [OF assms(2)]])
    have id: "je_id row = je_id e" using im.jobRow_id [OF run(3), of "je_id e" row] run(4) by simp
    have "launch rt jobId params None w = (Value (Some row), w')"
      using assms(3)
    proof
      assume "rt_strategy rt = None"
      then show ?thesis using assms(4) key create free(3) run(1) by (simp add: launch_def)
    next
      assume "rt_strategy rt = Some (inProcessStrategy rt mode) \<and> assertPartitionsSupported mode jobDef = Inr ()"
      moreover from this have "inProcessLaunch rt mode jobDef params \<lparr>sx_executionId = je_id e, sx_jobExecutionId = je_id e\<rparr> w1
          = (Value (LaunchCompleted (je_status row)), w')"
        using run(1) free(7) get by (intro inProcessLaunch_Value) (simp_all add: getJobExecution_def)
      ultimately show ?thesis using assms(4) key create get free(3) run(4)
        by (simp add: launch_def inProcessStrategy_def getJobExecution_def)
    qed
    with free run id show ?thesis by auto
  qed
qed

theorem launch_correct_witness:
  "\<exists>row w'. launch (memRuntime [(''job'', repairJob)]) ''job'' [] None emptyInMemoryState = (Value (Some row), w')
    \<and> mapGet (ims_executions w') (je_id row) = Some row \<and> je_status row \<in> {JobCompleted, JobFailed}"
proof -
  let ?rt = "memRuntime [(''job'', repairJob)]"
  have fields: "rt_repository ?rt = inMemoryRepository exampleGen" "rt_strategy ?rt = None"
    "registryGet (rt_registry ?rt) ''job'' = Inr repairJob" "\<not> job_allowDuplicateInstances repairJob"
    "length (job_steps repairJob) < rt_steps ?rt"
    by (simp_all add: memRuntime_def registryGet_def repairJob_def scriptJob_def)
  have runs: "\<forall>execution. job_run (rt_executor ?rt) (imsInv exampleGen) (\<lambda>s. mapGet (ims_executions s))
      (\<lambda>s. mapGet (ims_stepExecutions s)) contextIn execution repairJob noPartition (rt_fuel ?rt)"
    unfolding repairJob_def memRuntime_def by (simp add: script.job_run_axioms)
  have key: "canonicalJobKey (rt_numberText ?rt) (rt_sha256 ?rt) [] = Inr ''{}''" by code_simp
  from launch_correct [OF fields(1) runs disjI1 [OF fields(2)] fields(3,4) key forward_acyclic [OF repairJob_forward]
      fields(5) imsInv_empty]
  show ?thesis by (auto simp: emptyInMemoryState_def)
qed

section \<open>The operator\<close>

datatype operatorAction = StopAction | AbandonAction

fun actionText :: "operatorAction \<Rightarrow> string" where
  "actionText StopAction = ''stop''"
| "actionText AbandonAction = ''abandon''"

text \<open>The status an action leads to from a status, if it is allowed there.\<close>

fun operatorTarget :: "operatorAction \<Rightarrow> JobStatus \<Rightarrow> JobStatus option" where
  "operatorTarget StopAction JobStarting = Some JobStopped"
| "operatorTarget StopAction JobStarted = Some JobStopped"
| "operatorTarget StopAction JobStopping = Some JobStopped"
| "operatorTarget StopAction JobStopped = Some JobStopped"
| "operatorTarget StopAction _ = None"
| "operatorTarget AbandonAction JobFailed = Some JobAbandoned"
| "operatorTarget AbandonAction JobStopped = Some JobAbandoned"
| "operatorTarget AbandonAction JobUnknown = Some JobAbandoned"
| "operatorTarget AbandonAction JobAbandoned = Some JobAbandoned"
| "operatorTarget AbandonAction _ = None"

fun operate :: "operatorAction \<Rightarrow> ('w, 'i) jobRuntime \<Rightarrow> string \<Rightarrow> ('w, jobExecutionDetails) M" where
  "operate StopAction rt i = stop rt i"
| "operate AbandonAction rt i = abandon rt i"

lemma mapListM_reads: "(\<And>x. f x w = (Value (g x), w)) \<Longrightarrow> mapListM f xs w = (Value (map g xs), w)"
  by (induction xs) simp_all

lemma getExecutionContext_reads: "getExecutionContext sc w = (Value (contextIn w sc), w)"
  by (simp add: getExecutionContext_def contextIn_def split: option.split)

lemma details_in_memory:
  assumes "rt_repository rt = inMemoryRepository gen"
    and "mapGet (ims_executions w) i = Some e" "mapGet (ims_instances w) (je_jobInstanceId e) = Some inst"
  shows "\<exists>d. getJobExecutionDetails rt i w = (Value d, w) \<and> jd_jobExecution d = e \<and> jd_jobInstance d = inst"
proof -
  have "mapListM (\<lambda>step w. (Value (se_id step, contextIn w (StepScope (se_id step))), w)) steps w
      = (Value (map (\<lambda>step. (se_id step, contextIn w (StepScope (se_id step)))) steps), w)" for steps :: "stepExecution list"
    by (rule mapListM_reads) simp
  then show ?thesis using assms
    by (simp add: getJobExecutionDetails_def Let_def inMemoryRepository_def getJobExecution_def getJobInstance_def
        findStepExecutions_def getExecutionContext_reads bindM_def)
qed

text \<open>
  C18: the operator moves an execution only along its state machine. Stopping is possible in
  the active states, abandoning outside them and outside COMPLETED; the row then has the
  target status, every other row is untouched, and what is returned is the row as stored;
  repeating the action changes nothing. In any other state the operation is refused with
  \<open>INVALID_JOB_OPERATION\<close> and nothing changes, and so is a restart unless the execution is
  FAILED or STOPPED.
\<close>
theorem operator_state_machine:
  assumes "rt_repository rt = inMemoryRepository gen"
    and "mapGet (ims_executions w) i = Some e" "mapGet (ims_instances w) (je_jobInstanceId e) = Some inst"
  shows "(case operatorTarget a (je_status e) of
      None \<Rightarrow> operate a rt i w = (Throw (cannotInState (actionText a) (je_status e)), w)
    | Some target \<Rightarrow> \<exists>d w'. operate a rt i w = (Value d, w') \<and> je_status (jd_jobExecution d) = target
        \<and> mapGet (ims_executions w') = (mapGet (ims_executions w))(i \<mapsto> jd_jobExecution d)
        \<and> (je_status e = target \<longrightarrow> w' = w))
    \<and> (je_status e \<notin> {JobFailed, JobStopped} \<longrightarrow>
        restart rt i w = (Throw (cannotInState ''restart'' (je_status e)), w))"
proof -
  obtain d where d: "getJobExecutionDetails rt i w = (Value d, w)" "jd_jobExecution d = e"
    using details_in_memory [OF assms(1,2,3)] by blast
  have update: "\<exists>d' w'. thenM (updateJob (rt_executor rt) i p) (getJobExecutionDetails rt i) w = (Value d', w')
      \<and> jd_jobExecution d' = patchJobExecution (p (jx_clock (rt_executor rt) w)) e
      \<and> mapGet (ims_executions w') = (mapGet (ims_executions w))(i \<mapsto> jd_jobExecution d')" for p
  proof -
    define row where "row = patchJobExecution (p (jx_clock (rt_executor rt) w)) e"
    define w' where "w' = w\<lparr>ims_executions := mapSet i row (ims_executions w)\<rparr>"
    have "updateJob (rt_executor rt) i p w = (Value (), w')"
      using assms(1,2) by (simp add: updateJob_def inMemoryRepository_def updateJobExecution_def row_def w'_def)
    moreover obtain d' where "getJobExecutionDetails rt i w' = (Value d', w')" "jd_jobExecution d' = row"
      using details_in_memory [OF assms(1), of w' i row inst] assms(3) by (auto simp: w'_def row_def)
    ultimately show ?thesis by (auto simp: w'_def row_def map_of_update_fun)
  qed
  have "case operatorTarget a (je_status e) of
      None \<Rightarrow> operate a rt i w = (Throw (cannotInState (actionText a) (je_status e)), w)
    | Some target \<Rightarrow> \<exists>d w'. operate a rt i w = (Value d, w') \<and> je_status (jd_jobExecution d) = target
        \<and> mapGet (ims_executions w') = (mapGet (ims_executions w))(i \<mapsto> jd_jobExecution d)
        \<and> (je_status e = target \<longrightarrow> w' = w)"
    using d update [of stopPatch] update [of "abandonPatch (je_endTime e)"] assms(2)
    by (cases a; cases "je_status e")
      (auto simp: stop_def abandon_def Let_def isActive_def stopPatch_def abandonPatch_def fun_upd_triv)
  moreover have "je_status e \<notin> {JobFailed, JobStopped} \<longrightarrow>
      restart rt i w = (Throw (cannotInState ''restart'' (je_status e)), w)"
    using d by (auto simp: restart_def Let_def)
  ultimately show ?thesis ..
qed

lemma launched_instance: "\<exists>inst. mapGet (ims_instances launched) ''id-1'' = Some inst"
  by (rule exI [where x = "\<lparr>ji_id = ''id-1'', ji_jobName = ''job'', ji_jobKey = ''key'', ji_createdAt = 0\<rparr>"]) code_simp

theorem operator_state_machine_witness:
  "\<exists>d w'. operate StopAction (memRuntime [(''job'', repairJob)]) ''id-2'' launched = (Value d, w')
    \<and> je_status (jd_jobExecution d) = JobStopped \<and> mapGet (ims_executions w') ''id-2'' = Some (jd_jobExecution d)"
proof -
  have repo: "rt_repository (memRuntime [(''job'', repairJob)]) = inMemoryRepository exampleGen"
    by (simp add: memRuntime_def)
  obtain inst where "mapGet (ims_instances launched) (je_jobInstanceId newExecution) = Some inst"
    using launched_instance by (auto simp: newExecution_def)
  from operator_state_machine [OF repo launched_row this, of StopAction]
  show ?thesis by (auto simp: newExecution_def)
qed

section \<open>A stop request is lost\<close>

text \<open>
  A job of one step during whose run the operator is asked to stop the execution: the step
  body is the operator's call, and its message the status the operator returned.
\<close>

definition stoppedInFlight :: "(inMemoryState, unit) jobDefinition" where
  "stoppedInFlight = \<lparr>job_id = ''job'', job_steps = [(''load'', TaskletStep \<lparr>ts_id = ''load'',
       ts_tasklet = objectRef (\<lambda>_. bindM (stop (memRuntime []) ''id-2'') (\<lambda>details.
         returnM (Some (jobStatusText (je_status (jd_jobExecution details))))))\<rparr>)],
     job_startStepId = ''load'', job_transitions = [], job_deciders = [], job_listeners = [],
     job_restartable = True, job_allowDuplicateInstances = False\<rparr>"


end
