(* ===== verification/FileIO.thy ===== *)
theory FileIO
  imports Repository
begin

text \<open>
  The item readers and writers that come with the library: \<open>io/file-readers.ts\<close>,
  \<open>io/file-writers.ts\<close>, \<open>io/database.ts\<close> and \<open>io/s3.ts\<close>. A reader or writer is an object
  whose fields live in a cell of the world; the file system, the object store, the queries
  of the host, \<open>JSON.parse\<close> and the callbacks that map a line or a row are parameters.
  Texts hold characters below 256, so a text never starts with a byte order mark.
\<close>

section \<open>Objects with state\<close>

record ('w, 's) cell =
  ce_get :: "'w \<Rightarrow> 's"
  ce_put :: "'s \<Rightarrow> 'w \<Rightarrow> 'w"

definition getCell :: "('w, 's) cell \<Rightarrow> ('w, 's) M" where
  "getCell c = getM (ce_get c)"

definition updateCell :: "('w, 's) cell \<Rightarrow> ('s \<Rightarrow> 's) \<Rightarrow> ('w, unit) M" where
  "updateCell c f = modifyM (\<lambda>w. ce_put c (f (ce_get c w)) w)"

lemma getCell_apply [simp]: "getCell c w = (Value (ce_get c w), w)"
  by (simp add: getCell_def)

lemma updateCell_apply [simp]: "updateCell c f w = (Value (), ce_put c (f (ce_get c w)) w)"
  by (simp add: updateCell_def)

record 'w fileSystem =
  fs_readFile :: "string \<Rightarrow> string \<Rightarrow> ('w, string) M"
  fs_appendFile :: "string \<Rightarrow> string \<Rightarrow> string \<Rightarrow> ('w, unit) M"

section \<open>Lines and fields\<close>

fun replaceCrLf :: "string \<Rightarrow> string" where
  "replaceCrLf (c # d # s) =
     (if c = CHR 0x0D \<and> d = CHR 0x0A then CHR 0x0A # replaceCrLf s else c # replaceCrLf (d # s))"
| "replaceCrLf s = s"

fun splitOn :: "char \<Rightarrow> string \<Rightarrow> string list" where
  "splitOn sep [] = [[]]"
| "splitOn sep (c # s) = (if c = sep then [] # splitOn sep s
     else (case splitOn sep s of [] \<Rightarrow> [[c]] | l # ls \<Rightarrow> (c # l) # ls))"

definition splitLines :: "string \<Rightarrow> string list" where
  "splitLines raw =
     splitOn (CHR 0x0A) (map (\<lambda>c. if c = CHR 0x0D then CHR 0x0A else c) (replaceCrLf raw))"

text \<open>The character loop, with the fields so far, the current field and the quote flag.\<close>

fun parseFields :: "string \<Rightarrow> string \<Rightarrow> string list \<Rightarrow> string \<Rightarrow> bool \<Rightarrow> string list" where
  "parseFields delim [] out field quoted = out @ [field]"
| "parseFields delim (ch # rest) out field True =
     (case rest of
        next # rest' \<Rightarrow>
          if ch = CHR 0x22 \<and> next = CHR 0x22 then parseFields delim rest' out (field @ [CHR 0x22]) True
          else if ch = CHR 0x22 then parseFields delim rest out field False
          else parseFields delim rest out (field @ [ch]) True
      | [] \<Rightarrow> if ch = CHR 0x22 then parseFields delim rest out field False
          else parseFields delim rest out (field @ [ch]) True)"
| "parseFields delim (ch # rest) out field False =
     (if ch = CHR 0x22 then parseFields delim rest out field True
      else if [ch] = delim then parseFields delim rest (out @ [field]) [] False
      else parseFields delim rest out (field @ [ch]) False)"

definition parseDelimitedLine :: "string \<Rightarrow> string \<Rightarrow> string list" where
  "parseDelimitedLine delim line = parseFields delim line [] [] False"

text \<open>\<open>None\<close> stands for null and undefined, \<open>Some\<close> for the text \<open>String(value)\<close>.\<close>

definition escapeCsvValue :: "string \<Rightarrow> string option \<Rightarrow> string" where
  "escapeCsvValue delim v =
     (let text = orKeep v [] in
      if CHR 0x22 \<in> set text \<or> CHR 0x0A \<in> set text \<or> CHR 0x0D \<in> set text
         \<or> 1 < length (parseDelimitedLine delim text)
      then CHR 0x22 # concat (map (\<lambda>c. if c = CHR 0x22 then [CHR 0x22, CHR 0x22] else [c]) text) @ [CHR 0x22]
      else text)"

text \<open>\<open>lines[index]\<close>: undefined unless the index is a natural number in range.\<close>

definition lineAt :: "string list \<Rightarrow> rat \<Rightarrow> string option" where
  "lineAt ls index = (if 0 \<le> index \<and> of_int \<lfloor>index\<rfloor> = index \<and> index < of_nat (length ls)
     then Some (ls ! nat \<lfloor>index\<rfloor>) else None)"

text \<open>The turns of \<open>while (index < lines.length)\<close> when each adds one, and the last test.\<close>

definition readTurns :: "string list \<Rightarrow> rat \<Rightarrow> nat" where
  "readTurns ls index = Suc (nat \<lceil>of_nat (length ls) - index\<rceil>)"

definition undefinedProperty :: "string \<Rightarrow> exn" where
  "undefinedProperty p = typeError (''Cannot read properties of undefined (reading '' @ [CHR 0x27] @ p @ [CHR 0x27] @ '')'')"

definition finiteOr :: "number \<Rightarrow> rat \<Rightarrow> rat" where
  "finiteOr n d = (case n of Fin q \<Rightarrow> q | _ \<Rightarrow> d)"

text \<open>The numeric field of a checkpoint, with a finite fallback.\<close>

definition checkpointRat :: "executionContext \<Rightarrow> string \<Rightarrow> string \<Rightarrow> rat \<Rightarrow> rat" where
  "checkpointRat ctx key field fallback = finiteOr (readCheckpointNumber ctx key field (Fin fallback)) fallback"

section \<open>RestartableFileLineReader\<close>

record ('w, 'i) lineReaderOptions =
  lo_path :: string
  lo_encoding :: "string option"
  lo_checkpointKey :: "string option"
  lo_skipLines :: "rat option"
  lo_skipBlankLines :: "bool option"
  lo_mapLine :: "(string option \<Rightarrow> rat \<Rightarrow> ('w, 'i option) M) option"
  lo_asItem :: "string \<Rightarrow> 'i"

record lineReaderState =
  lr_lines :: "string list"
  lr_index :: rat

definition lineCheckpointKey :: "('w, 'i) lineReaderOptions \<Rightarrow> string" where
  "lineCheckpointKey opts = orKeep (lo_checkpointKey opts) (''file-line:'' @ lo_path opts)"

definition lineOpen :: "'w fileSystem \<Rightarrow> ('w, lineReaderState) cell \<Rightarrow> ('w, 'i) lineReaderOptions \<Rightarrow>
    executionContext \<Rightarrow> ('w, executionContext) M" where
  "lineOpen fs c opts context =
     bindM (fs_readFile fs (lo_path opts) (orKeep (lo_encoding opts) ''utf8'')) (\<lambda>raw.
     thenM (updateCell c (\<lambda>st. \<lparr>lr_lines = splitLines raw,
         lr_index = checkpointRat context (lineCheckpointKey opts) ''index'' (orKeep (lo_skipLines opts) 0)\<rparr>))
       (returnM context))"

primrec lineReadLoop :: "nat \<Rightarrow> ('w, lineReaderState) cell \<Rightarrow> ('w, 'i) lineReaderOptions \<Rightarrow> ('w, 'i option) M" where
  "lineReadLoop 0 c opts = outOfFuelM"
| "lineReadLoop (Suc n) c opts = bindM (getCell c) (\<lambda>st.
     if \<not> lr_index st < of_nat (length (lr_lines st)) then returnM None
     else
       let lineIndex = lr_index st; line = lineAt (lr_lines st) lineIndex in
       thenM (updateCell c (\<lambda>s. s\<lparr>lr_index := lr_index s + 1\<rparr>))
         (if lo_skipBlankLines opts = Some True \<and> line = None then throwM (undefinedProperty ''trim'')
          else if lo_skipBlankLines opts = Some True \<and> trimString (the line) = [] then lineReadLoop n c opts
          else (case lo_mapLine opts of
              Some mapLine \<Rightarrow> bindM (mapLine line lineIndex) (\<lambda>mapped. case mapped of
                  None \<Rightarrow> lineReadLoop n c opts
                | Some item \<Rightarrow> returnM (Some item))
            | None \<Rightarrow> returnM (map_option (lo_asItem opts) line))))"

definition lineRead :: "('w, lineReaderState) cell \<Rightarrow> ('w, 'i) lineReaderOptions \<Rightarrow> ('w, 'i option) M" where
  "lineRead c opts = bindM (getCell c) (\<lambda>st. lineReadLoop (readTurns (lr_lines st) (lr_index st)) c opts)"

definition lineUpdate :: "('w, lineReaderState) cell \<Rightarrow> ('w, 'i) lineReaderOptions \<Rightarrow>
    executionContext \<Rightarrow> ('w, executionContext) M" where
  "lineUpdate c opts context = bindM (getCell c) (\<lambda>st.
     returnM (writeCheckpoint context (lineCheckpointKey opts) [(''index'', JNum (Fin (lr_index st)))]))"

definition lineClose :: "('w, lineReaderState) cell \<Rightarrow> ('w, unit) M" where
  "lineClose c = updateCell c (\<lambda>s. s\<lparr>lr_lines := []\<rparr>)"

definition lineStream :: "'w fileSystem \<Rightarrow> ('w, lineReaderState) cell \<Rightarrow> ('w, 'i) lineReaderOptions \<Rightarrow> 'w itemStream" where
  "lineStream fs c opts = \<lparr>st_open = lineOpen fs c opts, st_update = lineUpdate c opts, st_close = lineClose c\<rparr>"

definition lineReader :: "'w fileSystem \<Rightarrow> ('w, lineReaderState) cell \<Rightarrow> ('w, 'i) lineReaderOptions \<Rightarrow> ('w, 'i) itemReader" where
  "lineReader fs c opts = \<lparr>rd_read = (\<lambda>_. lineRead c opts), rd_stream = Some (lineStream fs c opts)\<rparr>"

text \<open>\<open>JsonlFileItemReader\<close>: the same reader with \<open>JSON.parse\<close> as its mapping.\<close>

definition jsonlOptions :: "(string \<Rightarrow> exn + json) \<Rightarrow> string \<Rightarrow> string option \<Rightarrow> string option \<Rightarrow>
    ('w, json) lineReaderOptions" where
  "jsonlOptions parseJson path encoding key = \<lparr>lo_path = path, lo_encoding = encoding, lo_checkpointKey = key,
     lo_skipLines = None, lo_skipBlankLines = Some True,
     lo_mapLine = Some (\<lambda>line _. bindM (liftE (parseJson (the line))) (\<lambda>v.
       returnM (if v = JNull then None else Some v))),
     lo_asItem = JStr\<rparr>"

section \<open>CsvFileItemReader\<close>

record ('w, 'i) csvReaderOptions =
  cr_path :: string
  cr_encoding :: "string option"
  cr_checkpointKey :: "string option"
  cr_delimiter :: "string option"
  cr_headers :: "string list option"
  cr_hasHeader :: "bool option"
  cr_skipBlankLines :: "bool option"
  cr_mapRow :: "((string, string) jsmap \<Rightarrow> rat \<Rightarrow> ('w, 'i option) M) option"
  cr_asItem :: "(string, string) jsmap \<Rightarrow> 'i"

record csvReaderState =
  cv_lines :: "string list"
  cv_headers :: "string list"
  cv_index :: rat

definition csvReaderKey :: "('w, 'i) csvReaderOptions \<Rightarrow> string" where
  "csvReaderKey opts = orKeep (cr_checkpointKey opts) (''csv:'' @ cr_path opts)"

definition csvReaderDelimiter :: "('w, 'i) csvReaderOptions \<Rightarrow> string" where
  "csvReaderDelimiter opts = orKeep (cr_delimiter opts) '',''"

definition csvOpen :: "'w fileSystem \<Rightarrow> ('w, csvReaderState) cell \<Rightarrow> ('w, 'i) csvReaderOptions \<Rightarrow>
    executionContext \<Rightarrow> ('w, executionContext) M" where
  "csvOpen fs c opts context =
     bindM (fs_readFile fs (cr_path opts) (orKeep (cr_encoding opts) ''utf8'')) (\<lambda>raw.
     let ls = splitLines raw;
         hasHeader = orKeep (cr_hasHeader opts) (cr_headers opts = None);
         headers = (case cr_headers opts of
             Some hs \<Rightarrow> hs
           | None \<Rightarrow> if ls \<noteq> [] then parseDelimitedLine (csvReaderDelimiter opts) (hd ls) else []) in
     thenM (updateCell c (\<lambda>st. \<lparr>cv_lines = ls, cv_headers = headers,
         cv_index = checkpointRat context (csvReaderKey opts) ''index'' (if hasHeader then 1 else 0)\<rparr>))
       (returnM context))"

text \<open>The row object: every header with its field, or the empty text where the line is short.\<close>

fun rowOf :: "string list \<Rightarrow> string list \<Rightarrow> (string, string) jsmap \<Rightarrow> (string, string) jsmap" where
  "rowOf [] fs row = row"
| "rowOf (h # hs) [] row = rowOf hs [] (mapSet h [] row)"
| "rowOf (h # hs) (f # fs) row = rowOf hs fs (mapSet h f row)"

primrec csvReadLoop :: "nat \<Rightarrow> ('w, csvReaderState) cell \<Rightarrow> ('w, 'i) csvReaderOptions \<Rightarrow> ('w, 'i option) M" where
  "csvReadLoop 0 c opts = outOfFuelM"
| "csvReadLoop (Suc n) c opts = bindM (getCell c) (\<lambda>st.
     if \<not> cv_index st < of_nat (length (cv_lines st)) then returnM None
     else
       let lineIndex = cv_index st; line = lineAt (cv_lines st) lineIndex;
           skipBlank = (cr_skipBlankLines opts \<noteq> Some False) in
       thenM (updateCell c (\<lambda>s. s\<lparr>cv_index := cv_index s + 1\<rparr>))
         (case line of
            None \<Rightarrow> throwM (undefinedProperty (if skipBlank then ''trim'' else ''length''))
          | Some text \<Rightarrow>
              if skipBlank \<and> trimString text = [] then csvReadLoop n c opts
              else
                let row = rowOf (cv_headers st) (parseDelimitedLine (csvReaderDelimiter opts) text) [] in
                (case cr_mapRow opts of
                   Some mapRow \<Rightarrow> bindM (mapRow row lineIndex) (\<lambda>mapped. case mapped of
                       None \<Rightarrow> csvReadLoop n c opts
                     | Some item \<Rightarrow> returnM (Some item))
                 | None \<Rightarrow> returnM (Some (cr_asItem opts row)))))"

definition csvRead :: "('w, csvReaderState) cell \<Rightarrow> ('w, 'i) csvReaderOptions \<Rightarrow> ('w, 'i option) M" where
  "csvRead c opts = bindM (getCell c) (\<lambda>st. csvReadLoop (readTurns (cv_lines st) (cv_index st)) c opts)"

definition csvReaderUpdate :: "('w, csvReaderState) cell \<Rightarrow> ('w, 'i) csvReaderOptions \<Rightarrow>
    executionContext \<Rightarrow> ('w, executionContext) M" where
  "csvReaderUpdate c opts context = bindM (getCell c) (\<lambda>st.
     returnM (writeCheckpoint context (csvReaderKey opts) [(''index'', JNum (Fin (cv_index st)))]))"

definition csvReader :: "'w fileSystem \<Rightarrow> ('w, csvReaderState) cell \<Rightarrow> ('w, 'i) csvReaderOptions \<Rightarrow>
    ('w, 'i) itemReader" where
  "csvReader fs c opts = \<lparr>rd_read = (\<lambda>_. csvRead c opts), rd_stream = Some
     \<lparr>st_open = csvOpen fs c opts, st_update = csvReaderUpdate c opts,
      st_close = updateCell c (\<lambda>s. s\<lparr>cv_lines := [], cv_headers := []\<rparr>)\<rparr>\<rparr>"

section \<open>The file writers\<close>

definition joinLines :: "string list \<Rightarrow> string" where
  "joinLines ls = joinWith [CHR 0x0A] ls @ [CHR 0x0A]"

definition jsonlWrite :: "'w fileSystem \<Rightarrow> (rat \<Rightarrow> string) \<Rightarrow> string \<Rightarrow> string option \<Rightarrow> json list \<Rightarrow>
    ('w, writerResult option) M" where
  "jsonlWrite fs num path encoding items =
     (if items = [] then returnM None
      else thenM (fs_appendFile fs path (joinLines (map (printJson num) items)) (orKeep encoding ''utf8''))
        (returnM None))"

record 'i csvWriterOptions =
  cw_path :: string
  cw_headers :: "string list"
  cw_encoding :: "string option"
  cw_delimiter :: "string option"
  cw_checkpointKey :: "string option"
  cw_writeHeader :: "bool option"
  cw_field :: "'i \<Rightarrow> string \<Rightarrow> string option"

fun jsonTruthy :: "json \<Rightarrow> bool" where
  "jsonTruthy JNull = False"
| "jsonTruthy (JBool b) = b"
| "jsonTruthy (JNum n) = (n \<noteq> Fin 0 \<and> n \<noteq> NaN)"
| "jsonTruthy (JStr s) = (s \<noteq> [])"
| "jsonTruthy _ = True"

definition csvWriterKey :: "'i csvWriterOptions \<Rightarrow> string" where
  "csvWriterKey opts = orKeep (cw_checkpointKey opts) (''csv-writer:'' @ cw_path opts)"

definition csvWriterDelimiter :: "'i csvWriterOptions \<Rightarrow> string" where
  "csvWriterDelimiter opts = orKeep (cw_delimiter opts) '',''"

text \<open>The state of the writer is its field \<open>headerWritten\<close>, whatever the checkpoint held.\<close>

definition csvWriterOpen :: "('w, json) cell \<Rightarrow> 'i csvWriterOptions \<Rightarrow> executionContext \<Rightarrow>
    ('w, executionContext) M" where
  "csvWriterOpen c opts context =
     thenM (updateCell c (\<lambda>_. readCheckpointValue context (csvWriterKey opts) ''headerWritten'' (JBool False)))
       (returnM context)"

definition csvLine :: "string \<Rightarrow> string option list \<Rightarrow> string" where
  "csvLine delim values = joinWith delim (map (escapeCsvValue delim) values)"

definition csvWrite :: "'w fileSystem \<Rightarrow> ('w, json) cell \<Rightarrow> 'i csvWriterOptions \<Rightarrow> 'i list \<Rightarrow>
    ('w, writerResult option) M" where
  "csvWrite fs c opts items =
     (if items = [] then returnM None
      else bindM (getCell c) (\<lambda>headerWritten.
        let delim = csvWriterDelimiter opts;
            writeHeader = orKeep (cw_writeHeader opts) True \<and> \<not> jsonTruthy headerWritten;
            headerLines = (if writeHeader then [csvLine delim (map Some (cw_headers opts))] else []);
            itemLines = map (\<lambda>item. csvLine delim (map (cw_field opts item) (cw_headers opts))) items in
        thenM (if writeHeader then updateCell c (\<lambda>_. JBool True) else returnM ())
       (thenM (fs_appendFile fs (cw_path opts) (joinLines (headerLines @ itemLines))
                 (orKeep (cw_encoding opts) ''utf8''))
          (returnM None))))"

definition csvWriterUpdate :: "('w, json) cell \<Rightarrow> 'i csvWriterOptions \<Rightarrow> executionContext \<Rightarrow>
    ('w, executionContext) M" where
  "csvWriterUpdate c opts context = bindM (getCell c) (\<lambda>headerWritten.
     returnM (writeCheckpoint context (csvWriterKey opts) [(''headerWritten'', headerWritten)]))"

definition csvWriter :: "'w fileSystem \<Rightarrow> ('w, json) cell \<Rightarrow> 'i csvWriterOptions \<Rightarrow> ('w, 'i) itemWriter" where
  "csvWriter fs c opts = \<lparr>wt_write = (\<lambda>(items, _). csvWrite fs c opts items), wt_stream = Some
     \<lparr>st_open = csvWriterOpen c opts, st_update = csvWriterUpdate c opts, st_close = returnM ()\<rparr>\<rparr>"

section \<open>Database readers\<close>

record ('w, 'i) pagingOptions =
  po_pageSize :: number
  po_checkpointKey :: "string option"
  po_fetchPage :: "rat \<Rightarrow> number \<Rightarrow> ('w, 'i list) M"

record 'i pagingState =
  ps_offset :: rat
  ps_buffer :: "'i list"
  ps_bufferIndex :: nat

definition pagingKey :: "('w, 'i) pagingOptions \<Rightarrow> string" where
  "pagingKey opts = orKeep (po_checkpointKey opts) ''database-paging-reader''"

definition pagingOpen :: "('w, 'i pagingState) cell \<Rightarrow> ('w, 'i) pagingOptions \<Rightarrow> executionContext \<Rightarrow>
    ('w, executionContext) M" where
  "pagingOpen c opts context =
     thenM (updateCell c (\<lambda>_. \<lparr>ps_offset = checkpointRat context (pagingKey opts) ''offset'' 0,
         ps_buffer = [], ps_bufferIndex = 0\<rparr>))
       (returnM context)"

text \<open>Handing out the next buffered item.\<close>

definition pagingTake :: "('w, 'i pagingState) cell \<Rightarrow> ('w, 'i option) M" where
  "pagingTake c = bindM (getCell c) (\<lambda>st.
     thenM (updateCell c (\<lambda>s. s\<lparr>ps_bufferIndex := ps_bufferIndex s + 1, ps_offset := ps_offset s + 1\<rparr>))
       (returnM (Some (ps_buffer st ! ps_bufferIndex st))))"

definition pagingRead :: "('w, 'i pagingState) cell \<Rightarrow> ('w, 'i) pagingOptions \<Rightarrow> ('w, 'i option) M" where
  "pagingRead c opts = bindM (getCell c) (\<lambda>st.
     if length (ps_buffer st) \<le> ps_bufferIndex st
     then bindM (po_fetchPage opts (ps_offset st) (po_pageSize opts)) (\<lambda>page.
       thenM (updateCell c (\<lambda>s. s\<lparr>ps_buffer := page, ps_bufferIndex := 0\<rparr>))
         (if page = [] then returnM None else pagingTake c))
     else pagingTake c)"

definition pagingUpdate :: "('w, 'i pagingState) cell \<Rightarrow> ('w, 'i) pagingOptions \<Rightarrow> executionContext \<Rightarrow>
    ('w, executionContext) M" where
  "pagingUpdate c opts context = bindM (getCell c) (\<lambda>st.
     returnM (writeCheckpoint context (pagingKey opts) [(''offset'', JNum (Fin (ps_offset st)))]))"

definition pagingReader :: "('w, 'i pagingState) cell \<Rightarrow> ('w, 'i) pagingOptions \<Rightarrow> ('w, 'i) itemReader" where
  "pagingReader c opts = \<lparr>rd_read = (\<lambda>_. pagingRead c opts), rd_stream = Some
     \<lparr>st_open = pagingOpen c opts, st_update = pagingUpdate c opts,
      st_close = updateCell c (\<lambda>s. s\<lparr>ps_buffer := []\<rparr>)\<rparr>\<rparr>"

record ('w, 'i) cursorOptions =
  uo_pageSize :: number
  uo_checkpointKey :: "string option"
  uo_initialCursor :: "json option"
  uo_fetchAfter :: "json \<Rightarrow> number \<Rightarrow> ('w, 'i list) M"
  uo_getCursor :: "'i \<Rightarrow> json"

record 'i cursorState =
  us_cursor :: json
  us_buffer :: "'i list"
  us_bufferIndex :: nat

definition cursorKey :: "('w, 'i) cursorOptions \<Rightarrow> string" where
  "cursorKey opts = orKeep (uo_checkpointKey opts) ''database-cursor-reader''"

definition cursorOpen :: "('w, 'i cursorState) cell \<Rightarrow> ('w, 'i) cursorOptions \<Rightarrow> executionContext \<Rightarrow>
    ('w, executionContext) M" where
  "cursorOpen c opts context =
     thenM (updateCell c (\<lambda>_. \<lparr>us_cursor = readCheckpointValue context (cursorKey opts) ''cursor''
           (orKeep (uo_initialCursor opts) JNull), us_buffer = [], us_bufferIndex = 0\<rparr>))
       (returnM context)"

definition cursorTake :: "('w, 'i cursorState) cell \<Rightarrow> ('w, 'i) cursorOptions \<Rightarrow> ('w, 'i option) M" where
  "cursorTake c opts = bindM (getCell c) (\<lambda>st.
     let item = us_buffer st ! us_bufferIndex st in
     thenM (updateCell c (\<lambda>s. s\<lparr>us_bufferIndex := us_bufferIndex s + 1, us_cursor := uo_getCursor opts item\<rparr>))
       (returnM (Some item)))"

definition cursorRead :: "('w, 'i cursorState) cell \<Rightarrow> ('w, 'i) cursorOptions \<Rightarrow> ('w, 'i option) M" where
  "cursorRead c opts = bindM (getCell c) (\<lambda>st.
     if length (us_buffer st) \<le> us_bufferIndex st
     then bindM (uo_fetchAfter opts (us_cursor st) (uo_pageSize opts)) (\<lambda>page.
       thenM (updateCell c (\<lambda>s. s\<lparr>us_buffer := page, us_bufferIndex := 0\<rparr>))
         (if page = [] then returnM None else cursorTake c opts))
     else cursorTake c opts)"

definition cursorUpdate :: "('w, 'i cursorState) cell \<Rightarrow> ('w, 'i) cursorOptions \<Rightarrow> executionContext \<Rightarrow>
    ('w, executionContext) M" where
  "cursorUpdate c opts context = bindM (getCell c) (\<lambda>st.
     returnM (writeCheckpoint context (cursorKey opts) [(''cursor'', us_cursor st)]))"

definition cursorReader :: "('w, 'i cursorState) cell \<Rightarrow> ('w, 'i) cursorOptions \<Rightarrow> ('w, 'i) itemReader" where
  "cursorReader c opts = \<lparr>rd_read = (\<lambda>_. cursorRead c opts), rd_stream = Some
     \<lparr>st_open = cursorOpen c opts, st_update = cursorUpdate c opts,
      st_close = updateCell c (\<lambda>s. s\<lparr>us_buffer := []\<rparr>)\<rparr>\<rparr>"

definition batchWriter :: "('i list \<Rightarrow> ('w, writerResult option) M) \<Rightarrow> ('w, 'i) itemWriter" where
  "batchWriter writeBatch = \<lparr>wt_write = (\<lambda>(items, _). writeBatch items), wt_stream = None\<rparr>"

section \<open>S3\<close>

record 'w s3Client =
  s3_getObject :: "string \<Rightarrow> string \<Rightarrow> ('w, string) M"
  s3_putObject :: "string \<Rightarrow> string \<Rightarrow> string \<Rightarrow> string \<Rightarrow> ('w, unit) M"

record ('w, 'i) s3ReaderOptions =
  so_bucket :: string
  so_key :: string
  so_checkpointKey :: "string option"
  so_mapItem :: "(json \<Rightarrow> rat \<Rightarrow> ('w, 'i) M) option"
  so_asItem :: "json \<Rightarrow> 'i option"

definition s3ReaderKey :: "('w, 'i) s3ReaderOptions \<Rightarrow> string" where
  "s3ReaderKey opts = orKeep (so_checkpointKey opts) (''s3-jsonl:'' @ so_bucket opts @ ''/'' @ so_key opts)"

definition s3Open :: "'w s3Client \<Rightarrow> ('w, lineReaderState) cell \<Rightarrow> ('w, 'i) s3ReaderOptions \<Rightarrow>
    executionContext \<Rightarrow> ('w, executionContext) M" where
  "s3Open client c opts context =
     bindM (s3_getObject client (so_bucket opts) (so_key opts)) (\<lambda>body.
     thenM (updateCell c (\<lambda>_. \<lparr>lr_lines = splitLines body,
         lr_index = checkpointRat context (s3ReaderKey opts) ''index'' 0\<rparr>))
       (returnM context))"

primrec s3ReadLoop :: "nat \<Rightarrow> (string \<Rightarrow> exn + json) \<Rightarrow> ('w, lineReaderState) cell \<Rightarrow>
    ('w, 'i) s3ReaderOptions \<Rightarrow> ('w, 'i option) M" where
  "s3ReadLoop 0 parseJson c opts = outOfFuelM"
| "s3ReadLoop (Suc n) parseJson c opts = bindM (getCell c) (\<lambda>st.
     if \<not> lr_index st < of_nat (length (lr_lines st)) then returnM None
     else
       let lineIndex = lr_index st; line = lineAt (lr_lines st) lineIndex in
       thenM (updateCell c (\<lambda>s. s\<lparr>lr_index := lr_index s + 1\<rparr>))
         (case line of
            None \<Rightarrow> throwM (undefinedProperty ''trim'')
          | Some text \<Rightarrow>
              if trimString text = [] then s3ReadLoop n parseJson c opts
              else bindM (liftE (parseJson text)) (\<lambda>parsed. case so_mapItem opts of
                  Some mapItem \<Rightarrow> bindM (mapItem parsed lineIndex) (\<lambda>item. returnM (Some item))
                | None \<Rightarrow> returnM (so_asItem opts parsed))))"

definition s3Read :: "(string \<Rightarrow> exn + json) \<Rightarrow> ('w, lineReaderState) cell \<Rightarrow> ('w, 'i) s3ReaderOptions \<Rightarrow>
    ('w, 'i option) M" where
  "s3Read parseJson c opts = bindM (getCell c) (\<lambda>st.
     s3ReadLoop (readTurns (lr_lines st) (lr_index st)) parseJson c opts)"

definition s3Update :: "('w, lineReaderState) cell \<Rightarrow> ('w, 'i) s3ReaderOptions \<Rightarrow>
    executionContext \<Rightarrow> ('w, executionContext) M" where
  "s3Update c opts context = bindM (getCell c) (\<lambda>st.
     returnM (writeCheckpoint context (s3ReaderKey opts) [(''index'', JNum (Fin (lr_index st)))]))"

definition s3Reader :: "'w s3Client \<Rightarrow> (string \<Rightarrow> exn + json) \<Rightarrow> ('w, lineReaderState) cell \<Rightarrow>
    ('w, 'i) s3ReaderOptions \<Rightarrow> ('w, 'i) itemReader" where
  "s3Reader client parseJson c opts = \<lparr>rd_read = (\<lambda>_. s3Read parseJson c opts), rd_stream = Some
     \<lparr>st_open = s3Open client c opts, st_update = s3Update c opts, st_close = lineClose c\<rparr>\<rparr>"

record s3WriterOptions =
  sw_bucket :: string
  sw_keyPrefix :: string
  sw_checkpointKey :: "string option"

definition s3WriterKey :: "s3WriterOptions \<Rightarrow> string" where
  "s3WriterKey opts = orKeep (sw_checkpointKey opts) (''s3-jsonl-writer:'' @ sw_bucket opts @ ''/'' @ sw_keyPrefix opts)"

text \<open>
  The pattern anchors at the end of the text, so the replacement strips the trailing slashes.
\<close>

definition stripSlashes :: "string \<Rightarrow> string" where
  "stripSlashes s = rev (dropWhile (\<lambda>c. c = CHR ''/'') (rev s))"

definition padStart :: "nat \<Rightarrow> string \<Rightarrow> string" where
  "padStart n s = replicate (n - length s) (CHR ''0'') @ s"

definition chunkObjectKey :: "string \<Rightarrow> rat \<Rightarrow> string" where
  "chunkObjectKey prefix index = stripSlashes prefix @ ''/chunk-'' @ padStart 6 (showNumber (Fin index)) @ ''.jsonl''"

definition s3WriterOpen :: "('w, rat) cell \<Rightarrow> s3WriterOptions \<Rightarrow> executionContext \<Rightarrow> ('w, executionContext) M" where
  "s3WriterOpen c opts context =
     thenM (updateCell c (\<lambda>_. checkpointRat context (s3WriterKey opts) ''chunkIndex'' 0)) (returnM context)"

definition s3Write :: "'w s3Client \<Rightarrow> (rat \<Rightarrow> string) \<Rightarrow> ('w, rat) cell \<Rightarrow> s3WriterOptions \<Rightarrow> json list \<Rightarrow>
    ('w, writerResult option) M" where
  "s3Write client num c opts items =
     (if items = [] then returnM None
      else bindM (getCell c) (\<lambda>chunkIndex.
        thenM (s3_putObject client (sw_bucket opts) (chunkObjectKey (sw_keyPrefix opts) chunkIndex)
            (joinLines (map (printJson num) items)) ''application/x-ndjson'')
       (thenM (updateCell c (\<lambda>i. i + 1)) (returnM None))))"

definition s3WriterUpdate :: "('w, rat) cell \<Rightarrow> s3WriterOptions \<Rightarrow> executionContext \<Rightarrow> ('w, executionContext) M" where
  "s3WriterUpdate c opts context = bindM (getCell c) (\<lambda>chunkIndex.
     returnM (writeCheckpoint context (s3WriterKey opts) [(''chunkIndex'', JNum (Fin chunkIndex))]))"

definition s3Writer :: "'w s3Client \<Rightarrow> (rat \<Rightarrow> string) \<Rightarrow> ('w, rat) cell \<Rightarrow> s3WriterOptions \<Rightarrow> ('w, json) itemWriter" where
  "s3Writer client num c opts = \<lparr>wt_write = (\<lambda>(items, _). s3Write client num c opts items), wt_stream = Some
     \<lparr>st_open = s3WriterOpen c opts, st_update = s3WriterUpdate c opts, st_close = returnM ()\<rparr>\<rparr>"

end
