(* ===== verification/FileProperties.thy ===== *)
theory FileProperties
  imports FileIO
begin

text \<open>
  The properties of the library's readers and writers: what the CSV writer puts into a line
  the CSV parser takes out again, a file of such lines is read back row by row, and each
  restartable reader hands out, from its checkpoint, exactly what was left to read.
\<close>

section \<open>Escaping and parsing a CSV line\<close>

lemma parseFields_plain:
  "CHR 0x22 \<notin> set body \<Longrightarrow> (\<And>c. c \<in> set body \<Longrightarrow> [c] \<noteq> delim) \<Longrightarrow>
     parseFields delim (body @ rest) out field False = parseFields delim rest out (field @ body) False"
  by (induction body arbitrary: field) auto

lemma parseFields_quoted:
  assumes "rest = [] \<or> hd rest \<noteq> CHR 0x22"
  shows "parseFields delim (concat (map (\<lambda>c. if c = CHR 0x22 then [CHR 0x22, CHR 0x22] else [c]) body) @ CHR 0x22 # rest)
      out field True = parseFields delim rest out (field @ body) False"
  using assms
proof (induction body arbitrary: field)
  case Nil
  then show ?case by (cases rest) auto
next
  case (Cons c body)
  let ?d = "concat (map (\<lambda>c. if c = CHR 0x22 then [CHR 0x22, CHR 0x22] else [c]) body) @ CHR 0x22 # rest"
  have "?d \<noteq> []" by simp
  then obtain x xs where d: "?d = x # xs" by (cases ?d) auto
  with Cons show ?case by (cases "c = CHR 0x22") auto
qed

lemma length_parseFields: "length out < length (parseFields delim body out field quoted)"
proof (induction delim body out field quoted rule: parseFields.induct)
  case (2 delim ch rest out field)
  then show ?case by (cases rest) auto
qed auto

lemma length_parseFields_delim:
  "CHR 0x22 \<notin> set body \<Longrightarrow> d \<in> set body \<Longrightarrow> Suc (length out) < length (parseFields [d] body out field False)"
proof (induction body arbitrary: out field)
  case (Cons c body)
  then show ?case using length_parseFields [of "out @ [field]" "[d]" body "[]" False] by auto
qed simp

text \<open>A field of a line that a delimiter or the end follows.\<close>

lemma parseFields_escaped:
  assumes "d \<noteq> CHR 0x22" "rest = [] \<or> hd rest = d"
  shows "parseFields [d] (escapeCsvValue [d] v @ rest) out [] False = parseFields [d] rest out (orKeep v []) False"
proof (cases "escapeCsvValue [d] v = orKeep v []")
  case True
  have "CHR 0x22 \<notin> set (orKeep v [])" "d \<notin> set (orKeep v [])"
  proof -
    show no_quote: "CHR 0x22 \<notin> set (orKeep v [])"
    proof
      assume "CHR 0x22 \<in> set (orKeep v [])"
      then have "length (escapeCsvValue [d] v) = length (CHR 0x22 # concat (map (\<lambda>c. if c = CHR 0x22 then [CHR 0x22, CHR 0x22] else [c])
          (orKeep v [])) @ [CHR 0x22])" by (simp add: escapeCsvValue_def Let_def)
      moreover have "length t \<le> length (concat (map (\<lambda>c. if c = CHR 0x22 then [CHR 0x22, CHR 0x22] else [c]) t))" for t :: string
        by (induction t) auto
      from this [of "orKeep v []"] have "length (orKeep v []) < length (CHR 0x22 # concat (map (\<lambda>c. if c = CHR 0x22 then [CHR 0x22, CHR 0x22] else [c])
          (orKeep v [])) @ [CHR 0x22])" by simp
      ultimately show False using True by simp
    qed
    show "d \<notin> set (orKeep v [])"
    proof
      assume "d \<in> set (orKeep v [])"
      then have "1 < length (parseDelimitedLine [d] (orKeep v []))"
        using length_parseFields_delim [OF no_quote, of d "[]" "[]"] by (simp add: parseDelimitedLine_def)
      then have "CHR 0x22 \<in> set (escapeCsvValue [d] v)" by (simp add: escapeCsvValue_def Let_def)
      with True no_quote show False by simp
    qed
  qed
  then show ?thesis unfolding True by (subst parseFields_plain) auto
next
  case False
  then have "escapeCsvValue [d] v = CHR 0x22 # concat (map (\<lambda>c. if c = CHR 0x22 then [CHR 0x22, CHR 0x22] else [c]) (orKeep v [])) @ [CHR 0x22]"
    by (auto simp: escapeCsvValue_def Let_def split: if_splits)
  moreover have "rest = [] \<or> hd rest \<noteq> CHR 0x22" using assms by auto
  ultimately show ?thesis using parseFields_quoted [of rest "[d]" "orKeep v []" out "[]"] by simp
qed

lemma parseFields_line:
  assumes "d \<noteq> CHR 0x22" "vs \<noteq> []"
  shows "parseFields [d] (joinWith [d] (map (escapeCsvValue [d]) vs)) out [] False = out @ map (\<lambda>v. orKeep v []) vs"
  using assms(2)
proof (induction vs arbitrary: out)
  case (Cons v vs)
  show ?case
  proof (cases vs)
    case Nil
    then show ?thesis using parseFields_escaped [OF assms(1), of "[]" v out] by simp
  next
    case (Cons u us)
    have "parseFields [d] (escapeCsvValue [d] v @ d # joinWith [d] (map (escapeCsvValue [d]) vs)) out [] False
        = parseFields [d] (joinWith [d] (map (escapeCsvValue [d]) vs)) (out @ [orKeep v []]) [] False"
      using parseFields_escaped [OF assms(1), of "d # joinWith [d] (map (escapeCsvValue [d]) vs)" v out] assms(1) by simp
    with Cons.IH Cons show ?thesis by simp
  qed
qed simp

text \<open>
  Whatever texts the values are, with quotes, delimiters and line breaks in them, parsing
  the line the writer builds gives them back; a missing value comes back as the empty text.
\<close>
theorem csv_line_roundtrip:
  assumes "d \<noteq> CHR 0x22" "vs \<noteq> []"
  shows "parseDelimitedLine [d] (csvLine [d] vs) = map (\<lambda>v. orKeep v []) vs"
  using parseFields_line [OF assms, of "[]"] by (simp add: parseDelimitedLine_def csvLine_def)

theorem csv_line_roundtrip_witness:
  "parseDelimitedLine '','' (csvLine '','' [Some ''a,b'', None, Some [CHR 0x22, CHR 0x0A]]) = [''a,b'', [], [CHR 0x22, CHR 0x0A]]"
  using csv_line_roundtrip [of "CHR '',''" "[Some ''a,b'', None, Some [CHR 0x22, CHR 0x0A]]"] by (simp add: orKeep_def)

section \<open>Files of lines\<close>

lemma replaceCrLf_same: "CHR 0x0D \<notin> set s \<Longrightarrow> replaceCrLf s = s"
  by (induction s rule: replaceCrLf.induct) auto

lemma splitOn_append: "sep \<notin> set l \<Longrightarrow> splitOn sep (l @ sep # s) = l # splitOn sep s"
  by (induction l) auto

lemma splitOn_joinWith:
  "\<forall>l \<in> set ls. sep \<notin> set l \<Longrightarrow> ls \<noteq> [] \<Longrightarrow> splitOn sep (joinWith [sep] ls @ [sep]) = ls @ [[]]"
proof (induction ls)
  case (Cons l ls)
  then show ?case
    using splitOn_append [of sep l "[]"] splitOn_append [of sep l "joinWith [sep] ls @ [sep]"]
    by (cases ls) simp_all
qed simp

lemma set_joinWith: "set (joinWith sep ls) \<subseteq> set sep \<union> \<Union> (set ` set ls)"
  by (induction sep ls rule: joinWith.induct) auto

text \<open>A file of lines, each ended by a line break, is split into the lines and an empty rest.\<close>

lemma splitLines_joinLines:
  assumes "\<forall>l \<in> set ls. CHR 0x0A \<notin> set l \<and> CHR 0x0D \<notin> set l" "ls \<noteq> []"
  shows "splitLines (joinLines ls) = ls @ [[]]"
proof -
  have no_cr: "CHR 0x0D \<notin> set (joinLines ls)"
    using set_joinWith [of "[CHR 0x0A]" ls] assms(1) by (auto simp: joinLines_def)
  have "map (\<lambda>c. if c = CHR 0x0D then CHR 0x0A else c) (joinLines ls) = joinLines ls"
    by (rule map_idI) (use no_cr in auto)
  then show ?thesis
    using splitOn_joinWith [of ls "CHR 0x0A"] assms
    by (simp add: splitLines_def replaceCrLf_same [OF no_cr]) (simp add: joinLines_def)
qed

lemma set_escapeCsvValue: "set (escapeCsvValue delim v) \<subseteq> insert (CHR 0x22) (set (orKeep v []))"
  by (auto simp: escapeCsvValue_def Let_def split: if_splits)

lemma set_csvLine: "set (csvLine delim vs) \<subseteq> insert (CHR 0x22) (set delim \<union> \<Union> ((\<lambda>v. set (orKeep v [])) ` set vs))"
  using set_joinWith [of delim "map (escapeCsvValue delim) vs"] set_escapeCsvValue [of delim]
  unfolding csvLine_def by fastforce

section \<open>Reading on from an index\<close>

text \<open>
  The items a line reader has left at index \<open>i\<close>: the lines from there on, without the ones
  it skips as blank and the ones its mapping turns into null.
\<close>

definition pendingItems :: "(string \<Rightarrow> bool) \<Rightarrow> (string \<Rightarrow> nat \<Rightarrow> 'i option) \<Rightarrow> nat \<Rightarrow> string list \<Rightarrow> 'i list" where
  "pendingItems blank item i ls =
     List.map_filter (\<lambda>(j, l). if blank l then None else item l j) (List.enumerate i (drop i ls))"

lemma pendingItems_end: "length ls \<le> i \<Longrightarrow> pendingItems blank item i ls = []"
  by (simp add: pendingItems_def map_filter_def)

lemma pendingItems_step:
  assumes "i < length ls"
  shows "pendingItems blank item i ls = (case if blank (ls ! i) then None else item (ls ! i) i of
      None \<Rightarrow> pendingItems blank item (Suc i) ls
    | Some x \<Rightarrow> x # pendingItems blank item (Suc i) ls)"
  using assms by (simp add: pendingItems_def map_filter_def Cons_nth_drop_Suc [symmetric] split: option.split)

lemma lineAt_nat [simp]: "lineAt ls (of_nat i) = (if i < length ls then Some (ls ! i) else None)"
  by (simp add: lineAt_def)

lemma readTurns_nat: "length ls - i < readTurns ls (of_nat i)"
proof -
  have "of_nat (length ls - i) \<le> (\<lceil>of_nat (length ls) - of_nat i :: rat\<rceil>)" if "i \<le> length ls"
    using that by (simp add: of_nat_diff [symmetric] del: of_nat_diff)
  then show ?thesis by (cases "i \<le> length ls") (simp_all add: readTurns_def)
qed

text \<open>The fields of an object live in a cell: what is put into it is what is in it.\<close>

locale object_cell =
  fixes c :: "('w, 's) cell"
  assumes get_put: "ce_get c (ce_put c s w) = s"
    and put_put: "ce_put c s (ce_put c t w) = ce_put c s w"
    and put_get: "ce_put c (ce_get c w) w = w"

text \<open>
  The loop all line readers share: it takes lines from the index on until one yields an item.
\<close>

locale reading_loop = object_cell c for c :: "('w, 's) cell" +
  fixes linesOf :: "'s \<Rightarrow> string list" and indexOf :: "'s \<Rightarrow> rat" and moveTo :: "rat \<Rightarrow> 's \<Rightarrow> 's"
    and loop :: "nat \<Rightarrow> ('w, 'i option) M" and blank :: "string \<Rightarrow> bool" and item :: "'s \<Rightarrow> string \<Rightarrow> nat \<Rightarrow> 'i option"
  assumes moveTo: "indexOf (moveTo q s) = q" "linesOf (moveTo q s) = linesOf s" "moveTo p (moveTo q s) = moveTo p s"
      "moveTo (indexOf s) s = s" "item (moveTo q s) = item s"
    and turn_end: "indexOf (ce_get c w) = of_nat i \<Longrightarrow> length (linesOf (ce_get c w)) \<le> i \<Longrightarrow>
      loop (Suc n) w = (Value None, w)"
    and turn_skip: "indexOf (ce_get c w) = of_nat i \<Longrightarrow> i < length (linesOf (ce_get c w)) \<Longrightarrow>
      blank (linesOf (ce_get c w) ! i) \<or> item (ce_get c w) (linesOf (ce_get c w) ! i) i = None \<Longrightarrow>
      loop (Suc n) w = loop n (ce_put c (moveTo (of_nat (Suc i)) (ce_get c w)) w)"
    and turn_item: "indexOf (ce_get c w) = of_nat i \<Longrightarrow> i < length (linesOf (ce_get c w)) \<Longrightarrow>
      \<not> blank (linesOf (ce_get c w) ! i) \<Longrightarrow> item (ce_get c w) (linesOf (ce_get c w) ! i) i = Some x \<Longrightarrow>
      loop (Suc n) w = (Value (Some x), ce_put c (moveTo (of_nat (Suc i)) (ce_get c w)) w)"
begin

abbreviation left :: "nat \<Rightarrow> 's \<Rightarrow> 'i list" where
  "left i s \<equiv> pendingItems blank (item s) i (linesOf s)"

lemma loop_next:
  assumes "indexOf (ce_get c w) = of_nat i" "length (linesOf (ce_get c w)) - i < n"
  shows "\<exists>j. loop n w = (Value (case left i (ce_get c w) of [] \<Rightarrow> None | x # _ \<Rightarrow> Some x),
      ce_put c (moveTo (of_nat j) (ce_get c w)) w) \<and> left j (ce_get c w) = tl (left i (ce_get c w))"
  using assms
proof (induction n arbitrary: w i)
  case (Suc n)
  let ?s = "ce_get c w" and ?w = "ce_put c (moveTo (of_nat (Suc i)) (ce_get c w)) w"
  consider (ended) "length (linesOf ?s) \<le> i"
    | (skipped) "i < length (linesOf ?s)" "blank (linesOf ?s ! i) \<or> item ?s (linesOf ?s ! i) i = None"
    | (item) x where "i < length (linesOf ?s)" "\<not> blank (linesOf ?s ! i)" "item ?s (linesOf ?s ! i) i = Some x"
    by fastforce
  then show ?case
  proof cases
    case ended
    then show ?thesis using turn_end [OF Suc.prems(1), of n] moveTo(4) [of ?s] put_get [of w] Suc.prems(1)
      by (intro exI [of _ i]) (simp add: pendingItems_end)
  next
    case skipped
    then have left: "left i ?s = left (Suc i) ?s" by (auto simp: pendingItems_step)
    have "indexOf (ce_get c ?w) = of_nat (Suc i)" "length (linesOf (ce_get c ?w)) - Suc i < n"
      using Suc.prems(2) skipped(1) unfolding get_put moveTo(1,2,5) by simp_all
    from Suc.IH [OF this] show ?thesis
      unfolding turn_skip [OF Suc.prems(1) skipped] get_put moveTo put_put left .
  next
    case item
    then have "left i ?s = x # left (Suc i) ?s" by (simp add: pendingItems_step)
    with turn_item [OF Suc.prems(1) item] show ?thesis by (intro exI [of _ "Suc i"]) simp
  qed
qed simp

end

subsection \<open>RestartableFileLineReader\<close>

definition blankLine :: "('w, 'i) lineReaderOptions \<Rightarrow> string \<Rightarrow> bool" where
  "blankLine opts l \<longleftrightarrow> lo_skipBlankLines opts = Some True \<and> trimString l = []"

locale line_reader = object_cell c for c :: "('w, lineReaderState) cell" +
  fixes opts :: "('w, 'i) lineReaderOptions" and item :: "string \<Rightarrow> nat \<Rightarrow> 'i option"
  assumes item_cast: "lo_mapLine opts = None \<Longrightarrow> item l i = Some (lo_asItem opts l)"
    and item_map: "lo_mapLine opts = Some m \<Longrightarrow> m (Some l) (of_nat i) w = (Value (item l i), w)"
begin

lemma bindM_mapLine:
  "lo_mapLine opts = Some m \<Longrightarrow> bindM (m (Some l) (of_nat i)) k w = k (item l i) w"
  using item_map [of m l i w] by (simp add: bindM_def)

lemma lineReadLoop_turn:
  assumes "lr_index (ce_get c w) = of_nat i" "i < length (lr_lines (ce_get c w))" "l = lr_lines (ce_get c w) ! i"
    and "w' = ce_put c ((ce_get c w)\<lparr>lr_index := of_nat (Suc i)\<rparr>) w"
  shows "lineReadLoop (Suc n) c opts w = (if blankLine opts l then lineReadLoop n c opts w'
    else (case item l i of None \<Rightarrow> lineReadLoop n c opts w' | Some x \<Rightarrow> (Value (Some x), w')))"
proof -
  have "lineReadLoop (Suc n) c opts w =
      (if blankLine opts l then lineReadLoop n c opts
       else (case lo_mapLine opts of
           Some m \<Rightarrow> bindM (m (Some l) (of_nat i)) (\<lambda>mapped. case mapped of
               None \<Rightarrow> lineReadLoop n c opts | Some x \<Rightarrow> returnM (Some x))
         | None \<Rightarrow> returnM (Some (lo_asItem opts l)))) w'"
    using assms(2,4) by (simp add: Let_def blankLine_def assms(1,3) add.commute split: option.split)
  also have "\<dots> = (if blankLine opts l then lineReadLoop n c opts w'
    else (case item l i of None \<Rightarrow> lineReadLoop n c opts w' | Some x \<Rightarrow> (Value (Some x), w')))"
    by (cases "lo_mapLine opts") (simp_all add: item_cast bindM_mapLine split: option.split)
  finally show ?thesis .
qed

end

sublocale line_reader \<subseteq> lines: reading_loop c lr_lines lr_index "\<lambda>q s. s\<lparr>lr_index := q\<rparr>"
    "\<lambda>n. lineReadLoop n c opts" "blankLine opts" "\<lambda>_. item"
proof (unfold_locales, goal_cases)
  case (6 w i n)
  then show ?case by simp
next
  case (7 w i n)
  then show ?case using lineReadLoop_turn [OF 7(1,2) refl refl] by auto
next
  case (8 w i x n)
  then show ?case using lineReadLoop_turn [OF 8(1,2) refl refl] by simp
qed simp_all

context line_reader
begin

text \<open>A read hands out the first item left and leaves the others.\<close>

lemma lineRead_next:
  assumes "ce_get c w = \<lparr>lr_lines = ls, lr_index = of_nat i\<rparr>"
  shows "\<exists>j. lineRead c opts w = (Value (case pendingItems (blankLine opts) item i ls of [] \<Rightarrow> None | x # _ \<Rightarrow> Some x),
      ce_put c \<lparr>lr_lines = ls, lr_index = of_nat j\<rparr> w)
    \<and> pendingItems (blankLine opts) item j ls = tl (pendingItems (blankLine opts) item i ls)"
  using lines.loop_next [of w i] readTurns_nat [of ls i] assms by (simp add: lineRead_def)

end

subsection \<open>CsvFileItemReader\<close>

definition blankRow :: "('w, 'i) csvReaderOptions \<Rightarrow> string \<Rightarrow> bool" where
  "blankRow opts l \<longleftrightarrow> cr_skipBlankLines opts \<noteq> Some False \<and> trimString l = []"

definition csvItem :: "('w, 'i) csvReaderOptions \<Rightarrow> csvReaderState \<Rightarrow> string \<Rightarrow> nat \<Rightarrow> 'i option" where
  "csvItem opts s l i = Some (cr_asItem opts (rowOf (cv_headers s) (parseDelimitedLine (csvReaderDelimiter opts) l) []))"

lemma csvItem_index [simp]: "csvItem opts (s\<lparr>cv_index := q\<rparr>) = csvItem opts s"
  by (simp add: csvItem_def fun_eq_iff)

locale csv_reader = object_cell c for c :: "('w, csvReaderState) cell" +
  fixes opts :: "('w, 'i) csvReaderOptions"
  assumes no_mapRow: "cr_mapRow opts = None"

sublocale csv_reader \<subseteq> rows: reading_loop c cv_lines cv_index "\<lambda>q s. s\<lparr>cv_index := q\<rparr>"
    "\<lambda>n. csvReadLoop n c opts" "blankRow opts" "csvItem opts"
proof (unfold_locales, goal_cases)
  case (6 w i n)
  then show ?case by simp
next
  case (7 w i n)
  then show ?case by (auto simp: Let_def blankRow_def csvItem_def add.commute)
next
  case (8 w i x n)
  then show ?case by (auto simp: Let_def blankRow_def csvItem_def no_mapRow add.commute)
qed (simp_all add: csvItem_def fun_eq_iff)

context csv_reader
begin

lemma csvRead_next:
  assumes "ce_get c w = s" "cv_index s = of_nat i"
  shows "\<exists>j. csvRead c opts w = (Value (case rows.left i s of [] \<Rightarrow> None | x # _ \<Rightarrow> Some x),
      ce_put c (s\<lparr>cv_index := of_nat j\<rparr>) w) \<and> rows.left j s = tl (rows.left i s)"
  using rows.loop_next [of w i] readTurns_nat [of "cv_lines s" i] assms by (simp add: csvRead_def)

end

end
