(* ===== verification/FileRestart.thy ===== *)
theory FileRestart
  imports FileProperties ChunkProperties
begin

text \<open>
  The file readers and writers over a file system, and in a chunk step: a CSV file is read
  back as it was written, and a restarted step with a line reader continues behind the last
  line it committed.
\<close>

section \<open>A world with files\<close>

record fileWorld =
  fw_files :: "(string, string) jsmap"
  fw_repo :: inMemoryState
  fw_lines :: lineReaderState
  fw_rows :: csvReaderState
  fw_header :: json
  fw_batches :: "string list list"

definition emptyFileWorld :: fileWorld where
  "emptyFileWorld = \<lparr>fw_files = [], fw_repo = emptyInMemoryState, fw_lines = \<lparr>lr_lines = [], lr_index = 0\<rparr>,
     fw_rows = \<lparr>cv_lines = [], cv_headers = [], cv_index = 0\<rparr>, fw_header = JBool False, fw_batches = []\<rparr>"

text \<open>What the library uses of \<open>node:fs/promises\<close>: reading a whole file, and appending to one.\<close>

definition nodeFiles :: "fileWorld fileSystem" where
  "nodeFiles = \<lparr>fs_readFile = (\<lambda>path _ w. case mapGet (fw_files w) path of
        Some content \<Rightarrow> (Value content, w)
      | None \<Rightarrow> (Throw (plainError (''ENOENT: no such file or directory, open '' @ path)), w)),
     fs_appendFile = (\<lambda>path body _ w. (Value (), w\<lparr>fw_files :=
        mapSet path (orKeep (mapGet (fw_files w) path) [] @ body) (fw_files w)\<rparr>))\<rparr>"

definition linesCell :: "(fileWorld, lineReaderState) cell" where
  "linesCell = \<lparr>ce_get = fw_lines, ce_put = (\<lambda>s w. w\<lparr>fw_lines := s\<rparr>)\<rparr>"

definition rowsCell :: "(fileWorld, csvReaderState) cell" where
  "rowsCell = \<lparr>ce_get = fw_rows, ce_put = (\<lambda>s w. w\<lparr>fw_rows := s\<rparr>)\<rparr>"

definition headerCell :: "(fileWorld, json) cell" where
  "headerCell = \<lparr>ce_get = fw_header, ce_put = (\<lambda>s w. w\<lparr>fw_header := s\<rparr>)\<rparr>"

lemma cells [simp]:
  "ce_get linesCell = fw_lines" "ce_put linesCell s w = w\<lparr>fw_lines := s\<rparr>"
  "ce_get rowsCell = fw_rows" "ce_put rowsCell r w = w\<lparr>fw_rows := r\<rparr>"
  "ce_get headerCell = fw_header" "ce_put headerCell j w = w\<lparr>fw_header := j\<rparr>"
  by (simp_all add: linesCell_def rowsCell_def headerCell_def)

text \<open>Reading to the end, as the chunk loop does.\<close>

fun readAll :: "nat \<Rightarrow> ('w, 'i option) M \<Rightarrow> ('w, 'i list) M" where
  "readAll 0 r = outOfFuelM"
| "readAll (Suc n) r = bindM r (\<lambda>item. case item of
     None \<Rightarrow> returnM [] | Some x \<Rightarrow> bindM (readAll n r) (\<lambda>xs. returnM (x # xs)))"

section \<open>A CSV file is read back\<close>

lemma pendingItems_pure:
  "pendingItems blank (\<lambda>l i. Some (g l)) i ls = map g (filter (\<lambda>l. \<not> blank l) (drop i ls))"
proof -
  have "List.map_filter (\<lambda>(j, l). if blank l then None else Some (g l)) (List.enumerate i xs)
      = map g (filter (\<lambda>l. \<not> blank l) xs)" for xs
    by (induction xs arbitrary: i) (simp_all add: map_filter_def)
  then show ?thesis by (simp add: pendingItems_def)
qed

lemma rowOf_zip:
  "distinct (map fst row @ hs) \<Longrightarrow> length fs = length hs \<Longrightarrow> rowOf hs fs row = row @ zip hs fs"
proof (induction hs fs row rule: rowOf.induct)
  case (3 h hs f fs row)
  then have "mapGet row h = None" by (auto simp: map_of_eq_None_iff)
  with 3 show ?case by (auto simp: mapSet_fresh)
qed simp_all

text \<open>The options of a writer and of a reader of the same file.\<close>

definition writerOptions :: "string \<Rightarrow> char \<Rightarrow> string list \<Rightarrow> ('i \<Rightarrow> string \<Rightarrow> string option) \<Rightarrow> 'i csvWriterOptions" where
  "writerOptions path d headers field = \<lparr>cw_path = path, cw_headers = headers, cw_encoding = None,
     cw_delimiter = Some [d], cw_checkpointKey = None, cw_writeHeader = None, cw_field = field\<rparr>"

definition readerOptions :: "string \<Rightarrow> char \<Rightarrow> (fileWorld, (string, string) jsmap) csvReaderOptions" where
  "readerOptions path d = \<lparr>cr_path = path, cr_encoding = None, cr_checkpointKey = None,
     cr_delimiter = Some [d], cr_headers = None, cr_hasHeader = None, cr_skipBlankLines = None,
     cr_mapRow = None, cr_asItem = id\<rparr>"

interpretation csv_file: csv_reader rowsCell "readerOptions path d" for path d
  by unfold_locales (simp_all add: readerOptions_def)

definition fileRows :: "string \<Rightarrow> char \<Rightarrow> csvReaderState \<Rightarrow> nat \<Rightarrow> (string, string) jsmap list" where
  "fileRows path d s i = pendingItems (blankRow (readerOptions path d)) (csvItem (readerOptions path d) s) i (cv_lines s)"

lemma readAll_csvRead:
  assumes "fw_rows w = s" "cv_index s = of_nat i" "length (fileRows path d s i) < n"
  shows "fst (readAll n (csvRead rowsCell (readerOptions path d)) w) = Value (fileRows path d s i)"
  using assms
proof (induction "fileRows path d s i" arbitrary: n w s i)
  case Nil
  then obtain n' where "n = Suc n'" by (cases n) auto
  with csv_file.csvRead_next [of w s i path d] Nil show ?case by (auto simp: fileRows_def)
next
  case (Cons x xs)
  then obtain n' where n: "n = Suc n'" by (cases n) auto
  let ?s = "\<lambda>j. s\<lparr>cv_index := of_nat j\<rparr>"
  have left: "csv_file.rows.left path d i s = x # xs" using Cons.hyps(2) by (simp add: fileRows_def)
  obtain j where j: "csvRead rowsCell (readerOptions path d) w = (Value (Some x), w\<lparr>fw_rows := ?s j\<rparr>)"
    "fileRows path d s j = xs"
    using csv_file.csvRead_next [of w s i path d] Cons.prems(1,2) unfolding left fileRows_def by auto
  have "fileRows path d (?s j) j = xs" using j(2) by (simp add: fileRows_def)
  moreover have "length xs < n'" using Cons.prems(3) n unfolding Cons.hyps(2) [symmetric] by simp
  ultimately have "fst (readAll n' (csvRead rowsCell (readerOptions path d)) (w\<lparr>fw_rows := ?s j\<rparr>)) = Value xs"
    using Cons.hyps(1) [of "?s j" j "w\<lparr>fw_rows := ?s j\<rparr>" n'] by auto
  then obtain w' where "readAll n' (csvRead rowsCell (readerOptions path d)) (w\<lparr>fw_rows := ?s j\<rparr>) = (Value xs, w')"
    by (cases "readAll n' (csvRead rowsCell (readerOptions path d)) (w\<lparr>fw_rows := ?s j\<rparr>)") simp
  with j(1) n Cons.hyps(2) show ?case by simp
qed

definition oneLine :: "string \<Rightarrow> bool" where
  "oneLine s \<longleftrightarrow> CHR 0x0A \<notin> set s \<and> CHR 0x0D \<notin> set s"

text \<open>
  C23: a new file the CSV writer has written, header line and all, is read back by the CSV
  reader as the same rows, whatever quotes and delimiters the values hold, provided no value
  holds a line break and no row is written as a blank line.
\<close>
theorem csv_file_roundtrip:
  assumes "d \<noteq> CHR 0x22" "oneLine [d]" "headers \<noteq> []" "distinct headers" "\<forall>h \<in> set headers. oneLine h"
    and "\<forall>item \<in> set items. (\<forall>h \<in> set headers. oneLine (orKeep (field item h) []))
      \<and> trimString (csvLine [d] (map (field item) headers)) \<noteq> []"
    and "items \<noteq> []" "mapGet (fw_files w) path = None" "\<not> jsonTruthy (fw_header w)"
    and "ctx_data ctx = JNull" "length items < n"
  shows "fst (thenM (csvWrite nodeFiles headerCell (writerOptions path d headers field) items)
      (thenM (csvOpen nodeFiles rowsCell (readerOptions path d) ctx)
        (readAll n (csvRead rowsCell (readerOptions path d)))) w)
    = Value (map (\<lambda>item. map (\<lambda>h. (h, orKeep (field item h) [])) headers) items)"
proof -
  let ?line = "\<lambda>item. csvLine [d] (map (field item) headers)"
  let ?ls = "csvLine [d] (map Some headers) # map ?line items"
  let ?w = "w\<lparr>fw_header := JBool True, fw_files := mapSet path (joinLines ?ls) (fw_files w)\<rparr>"
  let ?opts = "readerOptions path d"
  have "oneLine (csvLine [d] vs)" if "\<forall>v \<in> set vs. oneLine (orKeep v [])" for vs
    using set_csvLine [of "[d]" vs] that assms(2) by (fastforce simp: oneLine_def)
  from this [of "map Some headers"] this [of "map (field _) headers"]
  have "\<forall>l \<in> set ?ls. oneLine l" using assms(5,6) by (auto simp: orKeep_def)
  then have split: "splitLines (joinLines ?ls) = ?ls @ [[]]"
    by (intro splitLines_joinLines) (auto simp: oneLine_def)
  have header: "parseDelimitedLine [d] (csvLine [d] (map Some headers)) = headers"
    using parseFields_line [OF assms(1), of "map Some headers" "[]"] assms(3)
    by (simp add: parseDelimitedLine_def csvLine_def) (simp add: orKeep_def o_def)
  define s where "s = \<lparr>cv_lines = ?ls @ [[]], cv_headers = headers, cv_index = 1\<rparr>"
  have wrote: "csvWrite nodeFiles headerCell (writerOptions path d headers field) items w = (Value None, ?w)"
    using assms(7-9) by (simp add: csvWrite_def writerOptions_def csvWriterDelimiter_def orKeep_def nodeFiles_def Let_def)
  have opened: "csvOpen nodeFiles rowsCell ?opts ctx ?w = (Value ctx, ?w\<lparr>fw_rows := s\<rparr>)"
    using split header assms(10)
    by (simp add: csvOpen_def readerOptions_def nodeFiles_def csvReaderDelimiter_def orKeep_def s_def checkpointRat_def
        finiteOr_def readCheckpointNumber_def readCheckpoint_def asJsonRecord_def)
  have row: "rowOf headers (parseDelimitedLine [d] (?line item)) [] = map (\<lambda>h. (h, orKeep (field item h) [])) headers" for item
  proof -
    have "parseDelimitedLine [d] (?line item) = map (\<lambda>h. orKeep (field item h) []) headers"
      using parseFields_line [OF assms(1), of "map (field item) headers" "[]"] assms(3)
      by (simp add: parseDelimitedLine_def csvLine_def)
    with assms(4) show ?thesis by (simp add: rowOf_zip zip_map2 zip_same_conv_map)
  qed
  have "fileRows path d s 1 = map (\<lambda>l. rowOf headers (parseDelimitedLine [d] l) []) (map ?line items)"
    using assms(6) unfolding fileRows_def csvItem_def pendingItems_pure
    by (simp add: readerOptions_def csvReaderDelimiter_def orKeep_def s_def blankRow_def trimString_def)
  also have "\<dots> = map (\<lambda>item. map (\<lambda>h. (h, orKeep (field item h) [])) headers) items"
    unfolding map_map o_def by (intro map_cong refl row)
  finally have rows: "fileRows path d s 1 = map (\<lambda>item. map (\<lambda>h. (h, orKeep (field item h) [])) headers) items" .
  have "fst (readAll n (csvRead rowsCell ?opts) (?w\<lparr>fw_rows := s\<rparr>)) = Value (fileRows path d s 1)"
    by (rule readAll_csvRead) (use rows assms(11) in \<open>simp_all add: readerOptions_def s_def\<close>)
  with wrote opened rows show ?thesis by simp
qed

theorem csv_file_roundtrip_witness:
  "fst (thenM (csvWrite nodeFiles headerCell (writerOptions ''out.csv'' (CHR '','') [''id'', ''name''] map_of)
        [[(''id'', ''7''), (''name'', ''a,b'')], [(''id'', ''8'')]])
      (thenM (csvOpen nodeFiles rowsCell (readerOptions ''out.csv'' (CHR '','')) \<lparr>ctx_data = JNull, ctx_version = 0\<rparr>)
        (readAll 3 (csvRead rowsCell (readerOptions ''out.csv'' (CHR '','')))))
      emptyFileWorld)
    = Value [[(''id'', ''7''), (''name'', ''a,b'')], [(''id'', ''8''), (''name'', [])]]"
proof -
  let ?items = "[[(''id'', ''7''), (''name'', ''a,b'')], [(''id'', ''8'')]] :: (string \<times> string) list list"
  have "\<forall>item \<in> set ?items. (\<forall>h \<in> set [''id'', ''name'']. oneLine (orKeep (map_of item h) []))
      \<and> trimString (csvLine '','' (map (map_of item) [''id'', ''name''])) \<noteq> []"
    by code_simp
  from csv_file_roundtrip [OF _ _ _ _ _ this, where n = 3 and path = "''out.csv''"
      and ctx = "\<lparr>ctx_data = JNull, ctx_version = 0\<rparr>"
      and w = "emptyFileWorld"]
  show ?thesis by (simp add: oneLine_def orKeep_def emptyFileWorld_def)
qed

section \<open>What the CSV writer and reader lose\<close>

text \<open>
  A value with a line break does not survive a file. The writer quotes it, but the reader
  cuts the file into lines before it looks at quotes: one row comes back as two.
\<close>
theorem csv_linebreak_splits_row:
  "fst (thenM (csvWrite nodeFiles headerCell (writerOptions ''out.csv'' (CHR '','') [''note''] map_of)
        [[(''note'', [CHR ''a'', CHR 0x0A, CHR ''b''])]])
      (thenM (csvOpen nodeFiles rowsCell (readerOptions ''out.csv'' (CHR '','')) \<lparr>ctx_data = JNull, ctx_version = 0\<rparr>)
        (readAll 3 (csvRead rowsCell (readerOptions ''out.csv'' (CHR '','')))))
      emptyFileWorld)
    = Value [[(''note'', ''a'')], [(''note'', ''b'')]]"
  by code_simp

text \<open>
  The header line is lost when the first write fails. The writer remembers the header as
  written before it appends anything, so the retry of the same items appends them without it.
\<close>
theorem csv_header_lost_on_retry:
  assumes "object_cell c" "items \<noteq> []" "orKeep (cw_writeHeader opts) True"
    and "\<And>path body encoding w. fs_appendFile broken path body encoding w = (Throw e, w)"
  shows "\<exists>w1. csvWrite broken c opts items w = (Throw e, w1)
    \<and> csvWrite fs c opts items w1 = thenM (fs_appendFile fs (cw_path opts)
        (joinLines (map (\<lambda>item. csvLine (csvWriterDelimiter opts) (map (cw_field opts item) (cw_headers opts))) items))
        (orKeep (cw_encoding opts) ''utf8'')) (returnM None) w1"
proof (cases "jsonTruthy (ce_get c w)")
  case True
  then show ?thesis using assms(2-4) by (intro exI [of _ w]) (simp add: csvWrite_def Let_def)
next
  case False
  then show ?thesis using assms(2-4) object_cell.get_put [OF assms(1)]
    by (intro exI [of _ "ce_put c (JBool True) w"]) (simp add: csvWrite_def Let_def)
qed

theorem csv_header_lost_on_retry_witness:
  "\<exists>w1. csvWrite (nodeFiles\<lparr>fs_appendFile := \<lambda>_ _ _ w. (Throw (plainError ''EIO''), w)\<rparr>) headerCell
        (writerOptions ''out.csv'' (CHR '','') [''id''] map_of) [[(''id'', ''7'')]] emptyFileWorld = (Throw (plainError ''EIO''), w1)
    \<and> csvWrite nodeFiles headerCell (writerOptions ''out.csv'' (CHR '','') [''id''] map_of) [[(''id'', ''7'')]] w1
      = thenM (fs_appendFile nodeFiles ''out.csv'' [CHR ''7'', CHR 0x0A] ''utf8'') (returnM None) w1"
proof -
  have "object_cell headerCell" by unfold_locales simp_all
  from csv_header_lost_on_retry [OF this, of "[[(''id'', ''7'')]]" "writerOptions ''out.csv'' (CHR '','') [''id''] map_of"
      "nodeFiles\<lparr>fs_appendFile := \<lambda>_ _ _ w. (Throw (plainError ''EIO''), w)\<rparr>" "plainError ''EIO''" emptyFileWorld nodeFiles]
  show ?thesis by (simp add: writerOptions_def csvWriterDelimiter_def orKeep_def joinLines_def csvLine_def
      escapeCsvValue_def parseDelimitedLine_def)
qed

end
