(* ===== verification/StreamRestart.thy ===== *)
theory StreamRestart
  imports FileRestart JobExecutor
begin

text \<open>
  Restarting a chunk step whose reader keeps its own position: the stream is opened on the
  context of the failed run and reads on behind the last committed chunk. The contract of
  the chunk step is interpreted on the library's line reader over a file.
\<close>

section \<open>A restart with a stream\<close>

lemma stream_restart:
  assumes "chunk_step env ok src sink checkpoint (\<lambda>k xs. (Some k, xs)) f stop e env0 ready toRead"
    and "chunk_step env2 ok2 src2 sink2 checkpoint2 mark2 f (\<lambda>_. False) e2 env02 ready2 toRead2"
    and "rd_stream (ev_reader env) \<noteq> None" "rd_stream (ev_reader env2) \<noteq> None"
    and "cs_chunkSize (ev_step env2) = cs_chunkSize (ev_step env)"
    and "ready w" "xc_resumeFromChunkIndex (ev_context env) = None" "checkpoint w = (None, toRead w)"
    and "length (toRead w) < fuel"
    and "executeChunkStep fuel (ev_step env) (ev_context env) w = (Value r, w1)"
    and "ready2 w2" "sink2 w2 = sink w1"
    and "xc_resumeFromChunkIndex (ev_context env2) = fst (checkpoint w1)"
    and "toRead2 w2 = snd (checkpoint w1)"
    and "cs = chunksOf (nat (cs_chunkSize (ev_step env))) (toRead w)"
  shows "\<exists>r2 w3. executeChunkStep fuel (ev_step env2) (ev_context env2) w2 = (Value r2, w3)
    \<and> sr_status r2 = StepCompleted \<and> sink2 w3 = sink w @ batches f cs
    \<and> concat (batches f cs) = List.map_filter f (toRead w)"
proof -
  let ?n = "nat (cs_chunkSize (ev_step env))"
  have n: "0 < ?n" using chunk_pipeline.size_pos [OF chunk_step.axioms(1) [OF assms(1)]] .
  have len: "length cs < fuel" using assms(9,15) length_chunksOf le_less_trans by blast
  define k where "k = committed stop f (length (sink w)) cs"
  have k_le: "k \<le> length cs" by (simp add: k_def committed_le)
  define i where "i = chunk_step.firstIndex env + of_nat k - 1"
  have first: "sink w1 = sink w @ batches f (take k cs)"
    "checkpoint w1 = (if k = 0 then None else Some i, drop (k * ?n) (toRead w))"
    using chunk_step.execute_fresh [OF assms(1,6) disjI1 [OF assms(7)] assms(15) len k_def] assms(8,10) by (auto simp: i_def)
  have rest: "toRead2 w2 = drop (k * ?n) (toRead w)" using assms(14) first(2) by simp
  have cs2: "drop k cs = chunksOf (nat (cs_chunkSize (ev_step env2))) (toRead2 w2)"
    using assms(5,15) n rest by (simp add: chunksOf_drop)
  have len2: "length (drop k cs) < fuel" using len by simp
  have all: "committed (\<lambda>_. False) f m ds = length ds" for m and ds :: "'b list list"
    by (simp add: committed_all)
  obtain r2 w3 where "executeChunkStep fuel (ev_step env2) (ev_context env2) w2 = (Value r2, w3)"
    "sink2 w3 = sink2 w2 @ batches f (drop k cs)" "sr_status r2 = StepCompleted"
    using chunk_step.execute_fresh [OF assms(2,11) disjI2 [OF assms(4)] cs2 len2 refl] unfolding all by auto
  moreover have "batches f (take k cs) @ batches f (drop k cs) = batches f cs"
    by (metis append_take_drop_id batches_simps(3))
  moreover have "concat (batches f cs) = List.map_filter f (toRead w)"
    using n assms(15) by (simp add: concat_batches)
  ultimately show ?thesis using first(1) assms(12) by simp
qed

text \<open>
  C7: no item is lost and none is written twice over a failure when the reader is a stream:
  whether a first run fails because a write does, at whatever chunk, or completes, when the
  step is run again with the stream opened where the last commit left it, the two runs
  together have written exactly the batches of one undisturbed run.
\<close>
theorem stream_restart_exactly_once:
  assumes "chunk_step env ok src sink checkpoint (\<lambda>k xs. (Some k, xs)) f stop e env0 ready toRead"
    and "chunk_step env2 ok2 src2 sink2 checkpoint2 mark2 f (\<lambda>_. False) e2 env02 ready2 toRead2"
    and "rd_stream (ev_reader env) \<noteq> None" "rd_stream (ev_reader env2) \<noteq> None"
    and "cs_chunkSize (ev_step env2) = cs_chunkSize (ev_step env)"
    and "ready w" "xc_resumeFromChunkIndex (ev_context env) = None" "checkpoint w = (None, toRead w)"
    and "length (toRead w) < fuel"
    and "executeChunkStep fuel (ev_step env) (ev_context env) w = (Value r, w1)"
    and "ready2 w2" "sink2 w2 = sink w1"
    and "xc_resumeFromChunkIndex (ev_context env2) = fst (checkpoint w1)"
    and "toRead2 w2 = snd (checkpoint w1)"
    and "cs = chunksOf (nat (cs_chunkSize (ev_step env))) (toRead w)"
  shows "\<exists>r2 w3. executeChunkStep fuel (ev_step env2) (ev_context env2) w2 = (Value r2, w3)
    \<and> sr_status r2 = StepCompleted \<and> sink2 w3 = sink w @ batches f cs
    \<and> concat (batches f cs) = List.map_filter f (toRead w)"
  by (rule stream_restart [OF assms])

section \<open>The line reader keeps the contract\<close>

lemma savable_writeCheckpoint:
  assumes "savable c"
  shows "savable (writeCheckpoint c key [(field, JNum (Fin q))])"
proof -
  from assms have "\<forall>(k, x) \<in> set (asJsonRecord (Some (ctx_data c))). assertJsonTree (''$'' @ ''.'' @ k) 1 x = Inr ()"
    by (cases "ctx_data c") (auto simp: savable_def asJsonRecord_def MAX_DEPTH_def)
  then show ?thesis
    using set_mapSet [of key "JObj [(field, JNum (Fin q))]" "asJsonRecord (Some (ctx_data c))"]
    by (fastforce simp: savable_def writeCheckpoint_def MAX_DEPTH_def)
qed

lemma checkpointRat_writeCheckpoint [simp]:
  "checkpointRat (writeCheckpoint c key [(field, JNum (Fin q))]) key field d = q"
  by (simp add: checkpointRat_def readCheckpointNumber_def finiteOr_def)

lemma lastIndexOf_writeCheckpoint:
  "key \<noteq> ''lastChunkIndex'' \<Longrightarrow> lastIndexOf (writeCheckpoint c key v) = lastIndexOf c"
  by (simp add: lastIndexOf_def writeCheckpoint_def)

definition fileRepository :: "fileWorld jobRepository" where
  "fileRepository = liftRepository fw_repo (\<lambda>r w. w\<lparr>fw_repo := r\<rparr>) (inMemoryRepository exampleGen)"

definition contextAt :: "string \<Rightarrow> fileWorld \<Rightarrow> executionContext" where
  "contextAt sid w = contextIn (fw_repo w) (StepScope sid)"

definition lineOptions :: "string \<Rightarrow> bool option \<Rightarrow> (fileWorld, string) lineReaderOptions" where
  "lineOptions path skipBlank = \<lparr>lo_path = path, lo_encoding = None, lo_checkpointKey = None, lo_skipLines = None,
     lo_skipBlankLines = skipBlank, lo_mapLine = None, lo_asItem = id\<rparr>"

definition batchCollector :: "(nat \<Rightarrow> bool) \<Rightarrow> (fileWorld, string) itemWriter" where
  "batchCollector stop = functionWriter (\<lambda>(items, _) w.
     if stop (length (fw_batches w)) then (Throw (plainError ''boom''), w)
     else (Value None, w\<lparr>fw_batches := fw_batches w @ [items]\<rparr>))"

definition lineStep :: "nat \<Rightarrow> (nat \<Rightarrow> bool) \<Rightarrow> string \<Rightarrow> bool option \<Rightarrow> (fileWorld, string) chunkStepDefinition" where
  "lineStep n stop path skipBlank = \<lparr>cs_id = ''s'', cs_chunkSize = int (Suc n),
     cs_reader = objectRef (lineReader nodeFiles linesCell (lineOptions path skipBlank)),
     cs_processor = None, cs_writer = objectRef (batchCollector stop),
     cs_skipPolicy = None, cs_retryPolicy = None, cs_partitions = None\<rparr>"

definition fileContext :: "string \<Rightarrow> rat option \<Rightarrow> (fileWorld, string) chunkExecutionContext" where
  "fileContext sid resume = \<lparr>xc_jobExecutionId = ''e'', xc_stepExecutionId = sid, xc_stepName = None,
     xc_jobParameters = None, xc_jobRepository = fileRepository, xc_withTransaction = id,
     xc_listenerResolvers = None, xc_skipListenerResolvers = None, xc_readerMethods = [],
     xc_processorMethods = [], xc_writerMethods = [], xc_jobExecutionId2 = ''e'',
     xc_readerProviders = None, xc_processorProviders = None, xc_writerProviders = None,
     xc_resumeFromChunkIndex = resume, xc_partitionIndex = None, xc_partitionCount = None\<rparr>"

definition fileEnv0 :: "nat \<Rightarrow> (nat \<Rightarrow> bool) \<Rightarrow> string \<Rightarrow> bool option \<Rightarrow> string \<Rightarrow> rat option \<Rightarrow> (fileWorld, string) chunkEnv" where
  "fileEnv0 n stop path skipBlank sid resume = \<lparr>ev_step = lineStep n stop path skipBlank, ev_context = fileContext sid resume,
     ev_listeners = [], ev_skipListeners = [], ev_skipPolicy = None, ev_retryPolicy = None, ev_skipLimit = Fin 0,
     ev_retryLimit = Fin 0, ev_partition = None, ev_reader = unresolvedReader, ev_processor = None,
     ev_writer = unresolvedWriter\<rparr>"

definition fileEnv :: "nat \<Rightarrow> (nat \<Rightarrow> bool) \<Rightarrow> string \<Rightarrow> bool option \<Rightarrow> string \<Rightarrow> rat option \<Rightarrow> (fileWorld, string) chunkEnv" where
  "fileEnv n stop path skipBlank sid resume = (fileEnv0 n stop path skipBlank sid resume)\<lparr>
     ev_reader := lineReader nodeFiles linesCell (lineOptions path skipBlank), ev_writer := batchCollector stop\<rparr>"

text \<open>What is left in the reader, and what a reader opened on the stored context has to read.\<close>

definition linesLeft :: "string \<Rightarrow> bool option \<Rightarrow> rat \<Rightarrow> string list \<Rightarrow> string list" where
  "linesLeft path skipBlank q ls = pendingItems (blankLine (lineOptions path skipBlank)) (\<lambda>l _. Some l) (nat \<lfloor>q\<rfloor>) ls"

definition lineIndexIn :: "string \<Rightarrow> executionContext \<Rightarrow> rat" where
  "lineIndexIn path c = checkpointRat c (''file-line:'' @ path) ''index'' 0"

definition fileSrc :: "string \<Rightarrow> bool option \<Rightarrow> fileWorld \<Rightarrow> string list" where
  "fileSrc path skipBlank w = linesLeft path skipBlank (lr_index (fw_lines w)) (lr_lines (fw_lines w))"

definition fileToRead :: "string \<Rightarrow> bool option \<Rightarrow> string \<Rightarrow> string \<Rightarrow> fileWorld \<Rightarrow> string list" where
  "fileToRead path skipBlank body sid w = linesLeft path skipBlank (lineIndexIn path (contextAt sid w)) (splitLines body)"

definition fileCheckpoint :: "string \<Rightarrow> bool option \<Rightarrow> string \<Rightarrow> string \<Rightarrow> fileWorld \<Rightarrow> rat option \<times> string list" where
  "fileCheckpoint path skipBlank body sid w =
     (lastIndexOf (contextAt sid w), fileToRead path skipBlank body sid w)"

definition fileReady :: "string \<Rightarrow> string \<Rightarrow> string \<Rightarrow> fileWorld \<Rightarrow> bool" where
  "fileReady path body sid w \<longleftrightarrow> imsInv exampleGen (fw_repo w) \<and> savable (contextAt sid w)
     \<and> mapGet (fw_files w) path = Some body \<and> lineIndexIn path (contextAt sid w) \<in> \<nat>"

definition fileOk :: "string \<Rightarrow> string \<Rightarrow> string \<Rightarrow> fileWorld \<Rightarrow> bool" where
  "fileOk path body sid w \<longleftrightarrow> fileReady path body sid w
     \<and> (\<exists>i. fw_lines w = \<lparr>lr_lines = splitLines body, lr_index = of_nat i\<rparr>)"

interpretation file_lines: line_reader linesCell "lineOptions path skipBlank" "\<lambda>l _. Some l" for path skipBlank
  by unfold_locales (simp_all add: lineOptions_def)

lemma fileEnv_fields [simp]:
  "ev_step (fileEnv n stop path skipBlank sid resume) = lineStep n stop path skipBlank"
  "ev_context (fileEnv n stop path skipBlank sid resume) = fileContext sid resume"
  "ev_reader (fileEnv n stop path skipBlank sid resume) = lineReader nodeFiles linesCell (lineOptions path skipBlank)"
  "ev_writer (fileEnv n stop path skipBlank sid resume) = batchCollector stop"
  "cs_chunkSize (lineStep n stop path skipBlank) = int (Suc n)"
  "xc_jobRepository (fileContext sid resume) = fileRepository" "xc_stepExecutionId (fileContext sid resume) = sid"
  "xc_resumeFromChunkIndex (fileContext sid resume) = resume" "xc_withTransaction (fileContext sid resume) = id"
  by (simp_all add: fileEnv_def fileEnv0_def lineStep_def fileContext_def)

lemma file_streams [simp]:
  "streamsOf (fileEnv n stop path skipBlank sid resume) = [lineStream nodeFiles linesCell (lineOptions path skipBlank)]"
  by (simp add: streamsOf_def lineReader_def batchCollector_def functionWriter_def)

lemma fileRepository_context: "repo_getExecutionContext fileRepository (StepScope sid) w = (Value (contextAt sid w), w)"
  by (simp add: fileRepository_def liftRepository_def zoomM_def getExecutionContext_contextIn contextAt_def)

lemma fileRepository_save:
  assumes "imsInv exampleGen (fw_repo w)" "savable u"
  shows "\<exists>w'. repo_saveExecutionContext fileRepository (StepScope sid) u None w = (Value (), w')
    \<and> imsInv exampleGen (fw_repo w') \<and> (\<exists>r. w' = w\<lparr>fw_repo := r\<rparr>)
    \<and> ctx_data (contextAt sid w') = ctx_data u"
proof -
  obtain r n where "repo_saveExecutionContext (inMemoryRepository exampleGen) (StepScope sid) u None (fw_repo w) = (Value (), r)"
    "imsInv exampleGen r"
    "contextIn r = (contextIn (fw_repo w))(StepScope sid := \<lparr>ctx_data = ctx_data u,
       ctx_version = orKeep None n\<rparr>)"
    using im.saveExecutionContext [of "''id''" "fw_repo w" u "StepScope sid" None] assms by (auto simp: savable_def)
  then show ?thesis
    by (intro exI [of _ "w\<lparr>fw_repo := r\<rparr>"]) (simp add: fileRepository_def liftRepository_def zoomM_def contextAt_def, blast)
qed

text \<open>Everything that is read off a context depends on its data alone.\<close>

lemma context_data_cong:
  assumes "ctx_data c = ctx_data c'"
  shows "savable c = savable c'" "lastIndexOf c = lastIndexOf c'" "lineIndexIn path c = lineIndexIn path c'"
  using assms by (simp_all add: savable_def lastIndexOf_def lineIndexIn_def checkpointRat_def readCheckpointNumber_def
      readCheckpoint_def)

lemma file_opens:
  assumes "fileReady path body sid w"
  shows "\<exists>c w'. openContext (fileEnv n stop path skipBlank sid resume) w = (Value c, w') \<and> savable c
    \<and> fileOk path body sid w' \<and> fileSrc path skipBlank w' = fileToRead path skipBlank body sid w
    \<and> fw_batches w' = fw_batches w
    \<and> fileCheckpoint path skipBlank body sid w' = fileCheckpoint path skipBlank body sid w"
proof -
  obtain i where i: "lineIndexIn path (contextAt sid w) = of_nat i" using assms by (auto simp: fileReady_def elim: Nats_cases)
  let ?st = "\<lparr>lr_lines = splitLines body, lr_index = of_nat i\<rparr>"
  let ?w = "w\<lparr>fw_lines := ?st\<rparr>"
  have ctx: "contextAt sid ?w = contextAt sid w" by (simp add: contextAt_def)
  have "lineOpen nodeFiles linesCell (lineOptions path skipBlank) (contextAt sid w) w = (Value (contextAt sid w), ?w)"
    using assms i by (simp add: lineOpen_def nodeFiles_def lineOptions_def fileReady_def lineCheckpointKey_def
        lineIndexIn_def orKeep_def)
  then have "openContext (fileEnv n stop path skipBlank sid resume) w = (Value (contextAt sid w), ?w)"
    by (simp add: openContext_def fileRepository_context lineStream_def bindM_def)
  moreover have "fileOk path body sid ?w" using assms ctx by (auto simp: fileOk_def fileReady_def)
  ultimately show ?thesis using assms ctx i
    by (auto simp: fileReady_def fileSrc_def fileToRead_def fileCheckpoint_def)
qed

lemma file_commits:
  assumes "fileOk path body sid w" "savable c"
  shows "\<exists>c' w'. storeContext (fileEnv n stop path skipBlank sid resume) k c w = (Value c', w') \<and> savable c'
    \<and> fileOk path body sid w' \<and> fileSrc path skipBlank w' = fileSrc path skipBlank w \<and> fw_batches w' = fw_batches w
    \<and> fileCheckpoint path skipBlank body sid w' = (Some k, fileSrc path skipBlank w)"
proof -
  obtain i where i: "fw_lines w = \<lparr>lr_lines = splitLines body, lr_index = of_nat i\<rparr>" using assms(1) by (auto simp: fileOk_def)
  let ?u = "writeCheckpoint (withLastChunkIndex c k) (''file-line:'' @ path) [(''index'', JNum (Fin (of_nat i)))]"
  have u: "savable ?u" "lastIndexOf ?u = Some k" "lineIndexIn path ?u = of_nat i"
    using savable_writeCheckpoint [OF savable_withLastChunkIndex [OF assms(2)]]
    by (simp_all add: lastIndexOf_writeCheckpoint lineIndexIn_def)
  have update: "lineUpdate linesCell (lineOptions path skipBlank) (withLastChunkIndex c k) w = (Value ?u, w)"
    using i by (simp add: lineUpdate_def lineCheckpointKey_def lineOptions_def orKeep_def)
  have "imsInv exampleGen (fw_repo w)" using assms(1) by (simp add: fileOk_def fileReady_def)
  then obtain w' r where save: "repo_saveExecutionContext fileRepository (StepScope sid) ?u None w = (Value (), w')"
    "imsInv exampleGen (fw_repo w')" "w' = w\<lparr>fw_repo := r\<rparr>" "ctx_data (contextAt sid w') = ctx_data ?u"
    using fileRepository_save [OF _ u(1)] by blast
  have ctx: "savable (contextAt sid w')" "lastIndexOf (contextAt sid w') = Some k"
    "lineIndexIn path (contextAt sid w') = of_nat i"
    using context_data_cong [OF save(4)] u by simp_all
  have "storeContext (fileEnv n stop path skipBlank sid resume) k c w = (Value (contextAt sid w'), w')"
    using update save(1) by (simp add: storeContext_def Let_def bindM_assoc lineStream_def fileRepository_context)
  with ctx save(2,3) assms(1) i show ?thesis
    by (auto simp: fileOk_def fileReady_def fileSrc_def fileToRead_def fileCheckpoint_def)
qed

lemma file_reads:
  assumes "fileOk path body sid w"
  shows "\<exists>w'. lineRead linesCell (lineOptions path skipBlank) w =
      (Value (case fileSrc path skipBlank w of [] \<Rightarrow> None | x # _ \<Rightarrow> Some x), w')
    \<and> fileOk path body sid w' \<and> fileSrc path skipBlank w' = tl (fileSrc path skipBlank w)
    \<and> fw_batches w' = fw_batches w
    \<and> fileCheckpoint path skipBlank body sid w' = fileCheckpoint path skipBlank body sid w"
proof -
  obtain i where i: "fw_lines w = \<lparr>lr_lines = splitLines body, lr_index = of_nat i\<rparr>" using assms by (auto simp: fileOk_def)
  obtain j where "lineRead linesCell (lineOptions path skipBlank) w = (Value (case fileSrc path skipBlank w of [] \<Rightarrow> None
      | x # _ \<Rightarrow> Some x), w\<lparr>fw_lines := \<lparr>lr_lines = splitLines body, lr_index = of_nat j\<rparr>\<rparr>)" (is "_ = (_, ?w)")
    "linesLeft path skipBlank (of_nat j) (splitLines body) = tl (fileSrc path skipBlank w)"
    using file_lines.lineRead_next [of w "splitLines body" i path skipBlank] i by (auto simp: fileSrc_def linesLeft_def)
  moreover have "contextAt sid ?w = contextAt sid w" by (simp add: contextAt_def)
  ultimately show ?thesis using assms
    by (intro exI [of _ ?w]) (auto simp: fileOk_def fileReady_def fileSrc_def fileToRead_def fileCheckpoint_def)
qed

lemma fileOk_batches [simp]:
  "fileOk path body sid (w\<lparr>fw_batches := bs\<rparr>) = fileOk path body sid w"
  "fileSrc path skipBlank (w\<lparr>fw_batches := bs\<rparr>) = fileSrc path skipBlank w"
  "fileCheckpoint path skipBlank body sid (w\<lparr>fw_batches := bs\<rparr>) = fileCheckpoint path skipBlank body sid w"
  by (simp_all add: fileOk_def fileReady_def fileSrc_def fileCheckpoint_def fileToRead_def contextAt_def)

interpretation file_step: chunk_step "fileEnv n stop path skipBlank sid resume" "fileOk path body sid" "fileSrc path skipBlank"
    fw_batches "fileCheckpoint path skipBlank body sid" "\<lambda>k xs. (Some k, xs)" Some stop "plainError ''boom''"
    "fileEnv0 n stop path skipBlank sid resume" "fileReady path body sid" "fileToRead path skipBlank body sid"
  for n stop path skipBlank sid resume body
proof (unfold_locales, goal_cases)
  case (6 w ictx)
  then show ?case using file_reads [OF 6(1), of skipBlank] by (simp add: lineReader_def)
next
  case (7 w x xs ictx)
  then show ?case using file_reads [OF 7(1), of skipBlank] by (simp add: lineReader_def)
next
  case (12 w c k)
  then show ?case by (rule file_commits)
next
  case (19 w)
  then show ?case by (rule file_opens)
next
  case (20 w)
  then show ?case
    by (simp add: closeStreams_def lineStream_def lineClose_def fileOk_def fileReady_def fileCheckpoint_def fileToRead_def contextAt_def)
qed (simp_all add: batchCollector_def functionWriter_def objectRef_resolves, simp_all add: fileEnv_def fileEnv0_def lineStep_def fileContext_def
    prepareEnv_def compileOptional_def partitionOf_def Let_def objectRef_resolves batchCollector_def functionWriter_def)

section \<open>A file is written exactly once over a failure\<close>

lemma map_filter_Some [simp]: "List.map_filter Some xs = xs"
  by (simp add: map_filter_def)

lemma batches_Some: "[] \<notin> set cs \<Longrightarrow> batches Some cs = cs"
  by (induction cs) (auto simp: batches_def batchOf_def)

lemma chunksOf_nonempty: "0 < n \<Longrightarrow> [] \<notin> set (chunksOf n xs)"
proof (induction n xs rule: chunksOf.induct)
  case (1 n xs)
  then show ?case using chunksOf_step [of n xs] by (cases "xs = []") auto
qed

lemma linesLeft_start:
  "linesLeft path skipBlank 0 ls = filter (\<lambda>l. \<not> (skipBlank = Some True \<and> trimString l = [])) ls"
proof -
  have "linesLeft path skipBlank 0 ls = map id (filter (\<lambda>l. \<not> blankLine (lineOptions path skipBlank) l) (drop 0 ls))"
    using pendingItems_pure [of "blankLine (lineOptions path skipBlank)" id 0 ls] by (simp add: linesLeft_def)
  then show ?thesis by (simp add: blankLine_def lineOptions_def)
qed

text \<open>
  C10: a step that reads a file line by line, fails while writing some chunk, and is restarted
  by the job executor under a new step execution with the old context copied into it, hands
  the writer every line of the file exactly once, in order and in full chunks, whatever the
  chunk size and whichever write failed.
\<close>
theorem file_lines_written_once:
  assumes "mapGet (fw_files w) path = Some body" "imsInv exampleGen (fw_repo w)"
    and "contextAt sid w = \<lparr>ctx_data = JNull, ctx_version = 0\<rparr>" "fw_batches w = []"
    and "length (splitLines body) < fuel"
    and "executeChunkStep fuel (lineStep n stop path skipBlank) (fileContext sid None) w = (Value r, w1)"
    and "repo_saveExecutionContext fileRepository (StepScope sid2) (contextAt sid w1) None w1 = (Value (), w2)"
    and "ls = filter (\<lambda>l. \<not> (skipBlank = Some True \<and> trimString l = [])) (splitLines body)"
  shows "\<exists>r2 w3. executeChunkStep fuel (lineStep n (\<lambda>_. False) path skipBlank)
      (fileContext sid2 (readLastCheckpoint (contextAt sid w1))) w2 = (Value r2, w3)
    \<and> sr_status r2 = StepCompleted \<and> fw_batches w3 = chunksOf (Suc n) ls \<and> concat (fw_batches w3) = ls"
proof -
  have start: "lineIndexIn path (contextAt sid w) = 0" "lastIndexOf (contextAt sid w) = None" "savable (contextAt sid w)"
    using assms(3) by (simp_all add: lineIndexIn_def checkpointRat_def readCheckpointNumber_def readCheckpoint_def
        asJsonRecord_def finiteOr_def lastIndexOf_def savable_def)
  then have ready: "fileReady path body sid w" using assms(1,2) by (simp add: fileReady_def)
  have toRead: "fileToRead path skipBlank body sid w = ls"
    using start(1) assms(8) linesLeft_start by (simp add: fileToRead_def)
  have len: "length (fileToRead path skipBlank body sid w) < fuel"
    unfolding toRead assms(8) using assms(5) le_less_trans [OF length_filter_le] by blast
  have "length (chunksOf (nat (int (Suc n))) (fileToRead path skipBlank body sid w)) < fuel"
    using le_less_trans [OF length_chunksOf len] .
  then have ready1: "fileReady path body sid w1"
    using file_step.execute_fresh [OF ready disjI1 refl _ refl, where n = n and stop = stop and skipBlank = skipBlank
        and resume = None and fuel = fuel] assms(6) by auto
  then obtain w2' r2 where save: "repo_saveExecutionContext fileRepository (StepScope sid2) (contextAt sid w1) None w1 = (Value (), w2')"
    "imsInv exampleGen (fw_repo w2')" "w2' = w1\<lparr>fw_repo := r2\<rparr>" "ctx_data (contextAt sid2 w2') = ctx_data (contextAt sid w1)"
    using fileRepository_save [of w1 "contextAt sid w1" sid2] by (auto simp: fileReady_def)
  then have w2: "w2 = w2'" using assms(7) by simp
  note same = context_data_cong [OF save(4) [folded w2]]
  have ready2: "fileReady path body sid2 w2" using ready1 save(2,3) same w2 by (simp add: fileReady_def)
  have resume: "readLastCheckpoint (contextAt sid w1) = fst (fileCheckpoint path skipBlank body sid w1)"
    by (simp add: readLastCheckpoint_def fileCheckpoint_def lastIndexOf_def asJsonRecord_def
        split: json.split option.split number.split)
  have toRead2: "fileToRead path skipBlank body sid2 w2 = snd (fileCheckpoint path skipBlank body sid w1)"
    using same by (simp add: fileToRead_def fileCheckpoint_def)
  have none: "fileCheckpoint path skipBlank body sid w = (None, fileToRead path skipBlank body sid w)"
    using start(2) by (simp add: fileCheckpoint_def)
  let ?cs = "chunksOf (nat (int (Suc n))) (fileToRead path skipBlank body sid w)"
  obtain r2 w3 where "executeChunkStep fuel (lineStep n (\<lambda>_. False) path skipBlank)
      (fileContext sid2 (readLastCheckpoint (contextAt sid w1))) w2 = (Value r2, w3)"
    "sr_status r2 = StepCompleted" "fw_batches w3 = fw_batches w @ batches Some ?cs"
    using stream_restart [OF file_step.chunk_step_axioms [where n = n and stop = stop and path = path
          and skipBlank = skipBlank and sid = sid and resume = None and body = body]
        file_step.chunk_step_axioms [where n = n and path = path and skipBlank = skipBlank and sid = sid2
          and resume = "readLastCheckpoint (contextAt sid w1)" and body = body]
        _ _ _ ready _ none len _ ready2 _ _ toRead2 refl, of r] assms(6) save(3) w2 resume
    by (auto simp: lineReader_def)
  then show ?thesis
    using assms(4) chunksOf_nonempty [of "Suc n" ls] concat_chunksOf [of "Suc n" ls] unfolding toRead
    by (simp add: batches_Some del: of_nat_Suc)
qed

text \<open>Three lines and a blank one, in chunks of two; the second write fails.\<close>

definition threeLines :: string where
  "threeLines = joinWith [CHR 0x0A] [''a'', ''b'', '' '', ''c'']"

definition lineWorld :: fileWorld where
  "lineWorld = emptyFileWorld\<lparr>fw_files := [(''in.txt'', threeLines)]\<rparr>"

lemma lineWorld_start:
  "mapGet (fw_files lineWorld) ''in.txt'' = Some threeLines" "imsInv exampleGen (fw_repo lineWorld)"
  "contextAt sid lineWorld = \<lparr>ctx_data = JNull, ctx_version = 0\<rparr>" "fw_batches lineWorld = []"
  by (simp_all add: lineWorld_def emptyFileWorld_def contextAt_def contextIn_empty)

lemma lineWorld_ready: "fileReady ''in.txt'' threeLines sid lineWorld"
  using lineWorld_start by (simp add: fileReady_def savable_def lineIndexIn_def checkpointRat_def readCheckpointNumber_def
      readCheckpoint_def asJsonRecord_def finiteOr_def)

lemma lineWorld_toRead: "fileToRead ''in.txt'' (Some True) threeLines ''x'' lineWorld = [''a'', ''b'', ''c'']"
  by code_simp

lemma lineWorld_first_run:
  "\<exists>r w1. executeChunkStep 6 (lineStep 1 (\<lambda>n. n = 1) ''in.txt'' (Some True)) (fileContext ''x'' None) lineWorld = (Value r, w1)
    \<and> sr_status r = StepFailed \<and> fileReady ''in.txt'' threeLines ''x'' w1 \<and> fw_batches w1 = [[''a'', ''b'']]"
proof -
  have cs: "[[''a'', ''b''], [''c'']] = chunksOf (nat (int (Suc 1))) (fileToRead ''in.txt'' (Some True) threeLines ''x'' lineWorld)"
    unfolding lineWorld_toRead by (simp add: chunksOf.simps)
  have k: "1 = committed (\<lambda>n. n = 1) Some (length (fw_batches lineWorld)) [[''a'', ''b''], [''c'']]"
    unfolding lineWorld_start(4) by (simp add: batchOf_def)
  let ?env = "fileEnv 1 (\<lambda>n. n = 1) ''in.txt'' (Some True) ''x'' None"
  have cs_env: "[[''a'', ''b''], [''c'']] = chunksOf (nat (cs_chunkSize (ev_step ?env))) (fileToRead ''in.txt'' (Some True) threeLines ''x'' lineWorld)"
    using cs by simp
  have resume: "xc_resumeFromChunkIndex (ev_context ?env) = None" by simp
  have fuel: "length [[''a'', ''b''], [''c'']] < 6" by simp
  obtain r w1 where "executeChunkStep 6 (ev_step ?env) (ev_context ?env) lineWorld = (Value r, w1)"
    "fileReady ''in.txt'' threeLines ''x'' w1" "fw_batches w1 = fw_batches lineWorld @ batches Some (take 1 [[''a'', ''b''], [''c'']])"
    "1 = length [[''a'', ''b''], [''c'']] \<or> sr_status r = StepFailed"
    using file_step.execute_fresh [OF lineWorld_ready disjI1 [OF resume] cs_env fuel k] by metis
  then show ?thesis using lineWorld_start(4) by (auto simp: batchOf_def)
qed

theorem file_lines_written_once_witness:
  "\<exists>r w1 w2 r2 w3. executeChunkStep 6 (lineStep 1 (\<lambda>n. n = 1) ''in.txt'' (Some True)) (fileContext ''x'' None) lineWorld = (Value r, w1)
    \<and> sr_status r = StepFailed \<and> fw_batches w1 = [[''a'', ''b'']]
    \<and> executeChunkStep 6 (lineStep 1 (\<lambda>_. False) ''in.txt'' (Some True))
        (fileContext ''y'' (readLastCheckpoint (contextAt ''x'' w1))) w2 = (Value r2, w3)
    \<and> sr_status r2 = StepCompleted \<and> fw_batches w3 = [[''a'', ''b''], [''c'']]"
proof -
  obtain r w1 where run: "executeChunkStep 6 (lineStep 1 (\<lambda>n. n = 1) ''in.txt'' (Some True)) (fileContext ''x'' None) lineWorld = (Value r, w1)"
    "sr_status r = StepFailed" "fileReady ''in.txt'' threeLines ''x'' w1" "fw_batches w1 = [[''a'', ''b'']]"
    using lineWorld_first_run by blast
  obtain w2 where save: "repo_saveExecutionContext fileRepository (StepScope ''y'') (contextAt ''x'' w1) None w1 = (Value (), w2)"
    using fileRepository_save [of w1 "contextAt ''x'' w1" "''y''"] run(3) by (auto simp: fileReady_def)
  have lines: "[''a'', ''b'', ''c''] = filter (\<lambda>l. \<not> (Some True = Some True \<and> trimString l = [])) (splitLines threeLines)"
    "length (splitLines threeLines) < 6" by code_simp+
  have "chunksOf (Suc 1) [''a'', ''b'', ''c''] = [[''a'', ''b''], [''c'']]" by (simp add: chunksOf.simps)
  with file_lines_written_once [OF lineWorld_start lines(2) run(1) save lines(1)] run(1,2,4)
  show ?thesis by metis
qed

theorem stream_restart_exactly_once_witness:
  "\<exists>r w1 w2 r2 w3. executeChunkStep 6 (lineStep 1 (\<lambda>n. n = 1) ''in.txt'' (Some True)) (fileContext ''x'' None) lineWorld = (Value r, w1)
    \<and> sr_status r = StepFailed
    \<and> executeChunkStep 6 (lineStep 1 (\<lambda>_. False) ''in.txt'' (Some True))
        (fileContext ''x'' (lastIndexOf (contextAt ''x'' w1))) w1 = (Value r2, w3)
    \<and> sr_status r2 = StepCompleted \<and> fw_batches w3 = [[''a'', ''b''], [''c'']]"
proof -
  obtain r w1 where run: "executeChunkStep 6 (lineStep 1 (\<lambda>n. n = 1) ''in.txt'' (Some True)) (fileContext ''x'' None) lineWorld = (Value r, w1)"
    "sr_status r = StepFailed" "fileReady ''in.txt'' threeLines ''x'' w1" "fw_batches w1 = [[''a'', ''b'']]"
    using lineWorld_first_run by blast
  have cs: "chunksOf 2 [''a'', ''b'', ''c''] = [[''a'', ''b''], [''c'']]" by (simp add: chunksOf.simps)
  have start: "lastIndexOf (contextAt ''x'' lineWorld) = None"
    unfolding lineWorld_start(3) by (simp add: lastIndexOf_def asJsonRecord_def)
  let ?env = "fileEnv 1 (\<lambda>_. False) ''in.txt'' (Some True) ''x'' (lastIndexOf (contextAt ''x'' w1))"
  have "\<exists>r2 w3. executeChunkStep 6 (ev_step ?env) (ev_context ?env) w1 = (Value r2, w3)
    \<and> sr_status r2 = StepCompleted \<and> fw_batches w3 = fw_batches lineWorld @ batches Some [[''a'', ''b''], [''c'']]
    \<and> concat (batches Some [[''a'', ''b''], [''c'']]) = List.map_filter Some (fileToRead ''in.txt'' (Some True) threeLines ''x'' lineWorld)"
    by (rule stream_restart_exactly_once [OF file_step.chunk_step_axioms [where n = 1 and stop = "\<lambda>n. n = 1" and path = "''in.txt''"
          and skipBlank = "Some True" and sid = "''x''" and resume = None and body = threeLines]
        file_step.chunk_step_axioms [where n = 1 and path = "''in.txt''" and skipBlank = "Some True" and sid = "''x''"
          and resume = "lastIndexOf (contextAt ''x'' w1)" and body = threeLines], where w = lineWorld and r = r and ?w1.0 = w1])
      (use run start cs lineWorld_ready lineWorld_toRead in \<open>simp_all add: lineReader_def fileCheckpoint_def\<close>)
  then have "\<exists>r2 w3. executeChunkStep 6 (lineStep 1 (\<lambda>_. False) ''in.txt'' (Some True))
        (fileContext ''x'' (lastIndexOf (contextAt ''x'' w1))) w1 = (Value r2, w3)
    \<and> sr_status r2 = StepCompleted \<and> fw_batches w3 = [[''a'', ''b''], [''c'']]"
    using lineWorld_start(4) by (auto simp: batchOf_def)
  with run show ?thesis by blast
qed

end
