(* ===== verification/SqlRepository.thy ===== *)
theory SqlRepository
  imports Repository "HOL-Library.Product_Lexorder"
begin

text \<open>
  \<open>TypeOrmJobRepository\<close> (\<open>packages/typeorm/src/repository/typeorm-job-repository.ts\<close>), the
  repository over a relational database, statement by statement.

  A table is the list of its rows in insertion order. The statements mean what SQL says:
  \<open>INSERT ... ON CONFLICT (job_name, job_key) DO NOTHING RETURNING\<close> respects the unique index
  the entities declare (\<open>entities/job-meta.entities.ts\<close>), \<open>UPDATE\<close> changes the rows that match,
  \<open>ORDER BY\<close> sorts (strings by code units), and \<open>FOR UPDATE SKIP LOCKED\<close> leaves out the rows
  that other transactions hold. \<open>NOW()\<close>, the stream of \<open>randomUUID\<close>, the rows locked by
  others and whether the driver is SQLite are readings of the state; \<open>JSON.stringify\<close> and
  \<open>JSON.parse\<close>, and the errors of a violated primary key and of the SQL parser, are parameters. Interleaved
  transactions are the subject of \<open>SqlConcurrency\<close>.
\<close>

section \<open>Tables (job-meta.entities.ts)\<close>

record jobInstanceRow =
  ir_id :: string
  ir_job_name :: string
  ir_job_key :: string
  ir_created_at :: date

record jobExecutionRow =
  er_id :: string
  er_job_instance_id :: string
  er_status :: JobStatus
  er_start_time :: "date option"
  er_end_time :: "date option"
  er_exit_code :: string
  er_exit_message :: string
  er_params :: string

record stepExecutionRow =
  sr_id :: string
  sr_job_execution_id :: string
  sr_step_name :: string
  sr_row_status :: StepStatus
  sr_read_count :: int
  sr_write_count :: int
  sr_skip_count :: int
  sr_rollback_count :: int
  sr_commit_count :: int
  sr_exit_code :: string
  sr_exit_message :: string
  sr_created_at :: date

record contextRow =
  cr_data :: string
  cr_version :: int

record sqlDatabase =
  batch_job_instance :: "jobInstanceRow list"
  batch_job_execution :: "jobExecutionRow list"
  batch_step_execution :: "stepExecutionRow list"
  batch_job_execution_context :: "(string, contextRow) jsmap"
  batch_step_execution_context :: "(string, contextRow) jsmap"
  sql_now :: date
  sql_uuids :: nat
  sql_lockedByOthers :: "string list"
  sql_isSqlite :: bool

record sqlDriver =
  drv_uuid :: "nat \<Rightarrow> string"
  drv_stringify :: "json \<Rightarrow> string"
  drv_parse :: "string \<Rightarrow> exn + json"
  drv_primaryKeyViolation :: exn
  drv_syntaxError :: exn

definition emptyDatabase :: sqlDatabase where
  "emptyDatabase = \<lparr>batch_job_instance = [], batch_job_execution = [], batch_step_execution = [],
     batch_job_execution_context = [], batch_step_execution_context = [], sql_now = 0, sql_uuids = 0,
     sql_lockedByOthers = [], sql_isSqlite = False\<rparr>"

section \<open>From rows to values\<close>

definition mapJobInstance :: "jobInstanceRow \<Rightarrow> jobInstance" where
  "mapJobInstance r = \<lparr>ji_id = ir_id r, ji_jobName = ir_job_name r, ji_jobKey = ir_job_key r,
     ji_createdAt = ir_created_at r\<rparr>"

definition parseParams :: "sqlDriver \<Rightarrow> string \<Rightarrow> jobParameters" where
  "parseParams drv params = (if params = [] then [] else (case drv_parse drv params of
      Inr (JObj ps) \<Rightarrow> ps
    | _ \<Rightarrow> []))"

definition mapJobExecution :: "sqlDriver \<Rightarrow> jobExecutionRow \<Rightarrow> jobExecution" where
  "mapJobExecution drv r = \<lparr>je_id = er_id r, je_jobInstanceId = er_job_instance_id r,
     je_status = er_status r, je_startTime = er_start_time r, je_endTime = er_end_time r,
     je_exitCode = er_exit_code r, je_exitMessage = er_exit_message r,
     je_params = parseParams drv (er_params r)\<rparr>"

text \<open>The table has no columns for the times of a step execution.\<close>

definition mapStepExecution :: "stepExecutionRow \<Rightarrow> stepExecution" where
  "mapStepExecution r = \<lparr>se_id = sr_id r, se_jobExecutionId = sr_job_execution_id r,
     se_stepName = sr_step_name r, se_status = sr_row_status r, se_readCount = sr_read_count r,
     se_writeCount = sr_write_count r, se_skipCount = sr_skip_count r,
     se_rollbackCount = sr_rollback_count r, se_commitCount = sr_commit_count r,
     se_startTime = None, se_endTime = None, se_exitCode = sr_exit_code r,
     se_exitMessage = sr_exit_message r\<rparr>"

section \<open>Statements\<close>

text \<open>\<open>rows[0]\<close> of a result, if there is one.\<close>

fun firstRow :: "'a list \<Rightarrow> 'a option" where
  "firstRow [] = None"
| "firstRow (r # rs) = Some r"

definition randomUUID :: "sqlDriver \<Rightarrow> (sqlDatabase, string) M" where
  "randomUUID drv = (\<lambda>db. (Value (drv_uuid drv (sql_uuids db)), db\<lparr>sql_uuids := sql_uuids db + 1\<rparr>))"

definition hasKey :: "string \<Rightarrow> string \<Rightarrow> jobInstanceRow \<Rightarrow> bool" where
  "hasKey name jobKey r \<longleftrightarrow> ir_job_name r = name \<and> ir_job_key r = jobKey"

definition selectInstance :: "string \<Rightarrow> string \<Rightarrow> (sqlDatabase, jobInstanceRow option) M" where
  "selectInstance name jobKey =
     getM (\<lambda>db. firstRow (filter (hasKey name jobKey) (batch_job_instance db)))"

definition insertInstanceOnConflict :: "sqlDriver \<Rightarrow> string \<Rightarrow> string \<Rightarrow> string \<Rightarrow>
    (sqlDatabase, jobInstanceRow list) M" where
  "insertInstanceOnConflict drv i name jobKey = (\<lambda>db.
     if \<exists>r \<in> set (batch_job_instance db). hasKey name jobKey r then (Value [], db)
     else if i \<in> set (map ir_id (batch_job_instance db)) then (Throw (drv_primaryKeyViolation drv), db)
     else let row = \<lparr>ir_id = i, ir_job_name = name, ir_job_key = jobKey, ir_created_at = sql_now db\<rparr>
       in (Value [row], db\<lparr>batch_job_instance := batch_job_instance db @ [row]\<rparr>))"

definition insertExecutionRow :: "sqlDriver \<Rightarrow> jobExecutionRow \<Rightarrow> (sqlDatabase, jobExecutionRow) M" where
  "insertExecutionRow drv row = (\<lambda>db.
     if er_id row \<in> set (map er_id (batch_job_execution db)) then (Throw (drv_primaryKeyViolation drv), db)
     else (Value row, db\<lparr>batch_job_execution := batch_job_execution db @ [row]\<rparr>))"

text \<open>\<open>DataSource.transaction\<close>: an error rolls the tables back.\<close>

definition transactionM :: "(sqlDatabase, 'a) M \<Rightarrow> (sqlDatabase, 'a) M" where
  "transactionM m = (\<lambda>db. case m db of
      (Throw e, db') \<Rightarrow> (Throw e, db\<lparr>sql_uuids := sql_uuids db'\<rparr>)
    | r \<Rightarrow> r)"

text \<open>Descending, rows that compare equal in the order of the table.\<close>

definition orderDescending :: "('a \<Rightarrow> 'k :: linorder) \<Rightarrow> 'a list \<Rightarrow> 'a list" where
  "orderDescending key xs = rev (sort_key key (rev xs))"

text \<open>\<open>NULLS LAST\<close> in a descending order: null is below every value.\<close>

definition nullsLast :: "date option \<Rightarrow> bool \<times> date" where
  "nullsLast d = (case d of None \<Rightarrow> (False, 0) | Some t \<Rightarrow> (True, t))"

section \<open>Instances\<close>

definition sqlGetOrCreateJobInstance :: "sqlDriver \<Rightarrow> string \<Rightarrow> string \<Rightarrow> (sqlDatabase, jobInstance) M" where
  "sqlGetOrCreateJobInstance drv name jobKey =
     bindM (selectInstance name jobKey) (\<lambda>existing. case existing of
       Some r \<Rightarrow> returnM (mapJobInstance r)
     | None \<Rightarrow> bindM (randomUUID drv) (\<lambda>i.
         bindM (catchM (insertInstanceOnConflict drv i name jobKey) (\<lambda>_. returnM [])) (\<lambda>inserted.
           case firstRow inserted of
             Some r \<Rightarrow> returnM (mapJobInstance r)
           | None \<Rightarrow> bindM (selectInstance name jobKey) (\<lambda>winner. case winner of
               Some r \<Rightarrow> returnM (mapJobInstance r)
             | None \<Rightarrow> throwM (plainError (''Failed to upsert JobInstance ('' @ name @ '', '' @ jobKey
                 @ '') and could not read it back''))))))"

definition sqlGetJobInstance :: "string \<Rightarrow> (sqlDatabase, jobInstance option) M" where
  "sqlGetJobInstance i = getM (\<lambda>db.
     map_option mapJobInstance (firstRow (filter (\<lambda>r. ir_id r = i) (batch_job_instance db))))"

definition instanceWhere :: "jobInstanceFilter \<Rightarrow> jobInstanceRow \<Rightarrow> bool" where
  "instanceWhere f r \<longleftrightarrow> (case if_jobName f of None \<Rightarrow> True | Some n \<Rightarrow> ir_job_name r = n)
     \<and> (case if_jobKey f of None \<Rightarrow> True | Some k \<Rightarrow> ir_job_key r = k)"

definition sqlFindJobInstances :: "jobInstanceFilter \<Rightarrow> (sqlDatabase, jobInstance list) M" where
  "sqlFindJobInstances f = getM (\<lambda>db. map mapJobInstance
     (sort_key (\<lambda>r. (ir_created_at r, ir_id r)) (filter (instanceWhere f) (batch_job_instance db))))"

section \<open>Job executions\<close>

definition newExecutionRow :: "sqlDriver \<Rightarrow> string \<Rightarrow> string \<Rightarrow> jobParameters \<Rightarrow> jobExecutionRow" where
  "newExecutionRow drv i jobInstanceId params = \<lparr>er_id = i, er_job_instance_id = jobInstanceId,
     er_status = JobStarting, er_start_time = None, er_end_time = None, er_exit_code = [],
     er_exit_message = [], er_params = drv_stringify drv (JObj params)\<rparr>"

definition sqlCreateJobExecution :: "sqlDriver \<Rightarrow> string \<Rightarrow> jobParameters \<Rightarrow> (sqlDatabase, jobExecution) M" where
  "sqlCreateJobExecution drv jobInstanceId params =
     bindM (randomUUID drv) (\<lambda>i.
       bindM (insertExecutionRow drv (newExecutionRow drv i jobInstanceId params)) (\<lambda>row.
         returnM (mapJobExecution drv row)))"

text \<open>Step 2 of the transaction: the row lock, with \<open>SKIP LOCKED\<close> except on SQLite.\<close>

definition lockInstance :: "string \<Rightarrow> string \<Rightarrow> (sqlDatabase, string) M" where
  "lockInstance name jobKey =
     bindM (getM (\<lambda>db. firstRow (filter
         (\<lambda>r. hasKey name jobKey r \<and> (sql_isSqlite db \<or> ir_id r \<notin> set (sql_lockedByOthers db)))
         (batch_job_instance db)))) (\<lambda>row. case row of
       None \<Rightarrow> throwM (jobExecutionAlreadyRunningError name)
     | Some r \<Rightarrow> returnM (ir_id r))"

definition runningRow :: "string \<Rightarrow> jobExecutionRow \<Rightarrow> bool" where
  "runningRow instanceId r \<longleftrightarrow> er_job_instance_id r = instanceId \<and> isRunningStatus (er_status r)"

definition checkNotRunning :: "string \<Rightarrow> (sqlDatabase, unit) M" where
  "checkNotRunning instanceId =
     bindM (getM (\<lambda>db. firstRow (filter (runningRow instanceId) (batch_job_execution db)))) (\<lambda>running.
       case running of
         Some r \<Rightarrow> throwM (jobExecutionAlreadyRunningError (er_id r))
       | None \<Rightarrow> returnM ())"

definition sqlCreateExecutionAtomic :: "sqlDriver \<Rightarrow> string \<Rightarrow> string \<Rightarrow> jobParameters \<Rightarrow>
    (sqlDatabase, jobExecution) M" where
  "sqlCreateExecutionAtomic drv name jobKey params = transactionM (
     bindM (randomUUID drv) (\<lambda>instId.
     thenM (insertInstanceOnConflict drv instId name jobKey)
     (bindM (lockInstance name jobKey) (\<lambda>instanceId.
     thenM (checkNotRunning instanceId)
     (bindM (randomUUID drv) (\<lambda>execId.
      bindM (insertExecutionRow drv (newExecutionRow drv execId instanceId params)) (\<lambda>row.
        returnM (mapJobExecution drv row))))))))"

definition setExecution :: "jobExecutionPatch \<Rightarrow> jobExecutionRow \<Rightarrow> jobExecutionRow" where
  "setExecution patch r = r\<lparr>
     er_status := orKeep (jp_status patch) (er_status r),
     er_start_time := orKeep (jp_startTime patch) (er_start_time r),
     er_end_time := orKeep (jp_endTime patch) (er_end_time r),
     er_exit_code := orKeep (jp_exitCode patch) (er_exit_code r),
     er_exit_message := orKeep (jp_exitMessage patch) (er_exit_message r)\<rparr>"

definition sqlUpdateJobExecution :: "string \<Rightarrow> jobExecutionPatch \<Rightarrow> (sqlDatabase, unit) M" where
  "sqlUpdateJobExecution i patch =
     (if patch = emptyJobPatch then returnM ()
      else modifyM (\<lambda>db. db\<lparr>batch_job_execution :=
        map (\<lambda>r. if er_id r = i then setExecution patch r else r) (batch_job_execution db)\<rparr>))"

definition sqlGetJobExecution :: "sqlDriver \<Rightarrow> string \<Rightarrow> (sqlDatabase, jobExecution option) M" where
  "sqlGetJobExecution drv i = getM (\<lambda>db.
     map_option (mapJobExecution drv) (firstRow (filter (\<lambda>r. er_id r = i) (batch_job_execution db))))"

definition executionWhere :: "jobExecutionFilter \<Rightarrow> jobExecutionRow \<Rightarrow> bool" where
  "executionWhere f r \<longleftrightarrow> (case ef_jobInstanceId f of None \<Rightarrow> True | Some i \<Rightarrow> er_job_instance_id r = i)
     \<and> (case ef_status f of None \<Rightarrow> True | Some ss \<Rightarrow> er_status r \<in> set ss)
     \<and> (case ef_startedAfter f of None \<Rightarrow> True
        | Some d \<Rightarrow> (case er_start_time r of None \<Rightarrow> False | Some t \<Rightarrow> d \<le> t))
     \<and> (case ef_startedBefore f of None \<Rightarrow> True
        | Some d \<Rightarrow> (case er_start_time r of None \<Rightarrow> False | Some t \<Rightarrow> t \<le> d))"

text \<open>\<open>status IN ()\<close>, for an empty list of statuses, is accepted by SQLite and is a syntax error to PostgreSQL.\<close>

definition sqlFindJobExecutions :: "sqlDriver \<Rightarrow> jobExecutionFilter \<Rightarrow> (sqlDatabase, jobExecution list) M" where
  "sqlFindJobExecutions drv f = bindM (getM sql_isSqlite) (\<lambda>lite.
     if ef_status f = Some [] \<and> \<not> lite then throwM (drv_syntaxError drv)
     else getM (\<lambda>db. map (mapJobExecution drv)
       (orderDescending (\<lambda>r. (nullsLast (er_start_time r), er_id r))
         (filter (executionWhere f) (batch_job_execution db)))))"

definition sqlGetRunningJobExecution :: "sqlDriver \<Rightarrow> string \<Rightarrow> (sqlDatabase, jobExecution option) M" where
  "sqlGetRunningJobExecution drv jobInstanceId =
     (if jobInstanceId = [] then returnM None
      else getM (\<lambda>db. map_option (mapJobExecution drv) (firstRow
        (orderDescending (\<lambda>r. nullsLast (er_start_time r))
          (filter (runningRow jobInstanceId) (batch_job_execution db))))))"

section \<open>Step executions\<close>

definition sqlCreateStepExecution :: "sqlDriver \<Rightarrow> string \<Rightarrow> string \<Rightarrow> (sqlDatabase, stepExecution) M" where
  "sqlCreateStepExecution drv jobExecutionId stepName =
     bindM (randomUUID drv) (\<lambda>i db.
       if i \<in> set (map sr_id (batch_step_execution db)) then (Throw (drv_primaryKeyViolation drv), db)
       else let row = \<lparr>sr_id = i, sr_job_execution_id = jobExecutionId, sr_step_name = stepName,
           sr_row_status = StepStarting, sr_read_count = 0, sr_write_count = 0, sr_skip_count = 0,
           sr_rollback_count = 0, sr_commit_count = 0, sr_exit_code = [], sr_exit_message = [],
           sr_created_at = sql_now db\<rparr>
         in (Value (mapStepExecution row), db\<lparr>batch_step_execution := batch_step_execution db @ [row]\<rparr>))"

definition setStep :: "stepExecutionPatch \<Rightarrow> stepExecutionRow \<Rightarrow> stepExecutionRow" where
  "setStep patch r = r\<lparr>
     sr_row_status := orKeep (sp_status patch) (sr_row_status r),
     sr_read_count := orKeep (sp_readCount patch) (sr_read_count r),
     sr_write_count := orKeep (sp_writeCount patch) (sr_write_count r),
     sr_skip_count := orKeep (sp_skipCount patch) (sr_skip_count r),
     sr_rollback_count := orKeep (sp_rollbackCount patch) (sr_rollback_count r),
     sr_commit_count := orKeep (sp_commitCount patch) (sr_commit_count r),
     sr_exit_code := orKeep (sp_exitCode patch) (sr_exit_code r),
     sr_exit_message := orKeep (sp_exitMessage patch) (sr_exit_message r)\<rparr>"

text \<open>The statement is left out when no column of the table is patched; the times have none.\<close>

definition sqlUpdateStepExecution :: "string \<Rightarrow> stepExecutionPatch \<Rightarrow> (sqlDatabase, unit) M" where
  "sqlUpdateStepExecution i patch =
     (if patch\<lparr>sp_startTime := None, sp_endTime := None\<rparr> = emptyStepPatch then returnM ()
      else modifyM (\<lambda>db. db\<lparr>batch_step_execution :=
        map (\<lambda>r. if sr_id r = i then setStep patch r else r) (batch_step_execution db)\<rparr>))"

definition sqlGetStepExecution :: "string \<Rightarrow> (sqlDatabase, stepExecution option) M" where
  "sqlGetStepExecution i = getM (\<lambda>db.
     map_option mapStepExecution (firstRow (filter (\<lambda>r. sr_id r = i) (batch_step_execution db))))"

definition sqlFindStepExecutions :: "string \<Rightarrow> (sqlDatabase, stepExecution list) M" where
  "sqlFindStepExecutions jobExecutionId = getM (\<lambda>db. map mapStepExecution
     (sort_key (\<lambda>r. (sr_created_at r, sr_id r))
       (filter (\<lambda>r. sr_job_execution_id r = jobExecutionId) (batch_step_execution db))))"

definition sqlFindLatestStepExecution :: "string \<Rightarrow> string \<Rightarrow> (sqlDatabase, stepExecution option) M" where
  "sqlFindLatestStepExecution jobExecutionId stepName = getM (\<lambda>db. map_option mapStepExecution (firstRow
     (orderDescending (\<lambda>r. (sr_created_at r, sr_id r))
       (filter (\<lambda>r. sr_job_execution_id r = jobExecutionId \<and> sr_step_name r = stepName)
         (batch_step_execution db)))))"

section \<open>Contexts\<close>

text \<open>The two branches of the code, on the table of the scope.\<close>

fun contextTable :: "executionScope \<Rightarrow> sqlDatabase \<Rightarrow> (string, contextRow) jsmap" where
  "contextTable (JobScope _) db = batch_job_execution_context db"
| "contextTable (StepScope _) db = batch_step_execution_context db"

fun scopeId :: "executionScope \<Rightarrow> string" where
  "scopeId (JobScope i) = i"
| "scopeId (StepScope i) = i"

fun putContextRow :: "executionScope \<Rightarrow> contextRow \<Rightarrow> sqlDatabase \<Rightarrow> sqlDatabase" where
  "putContextRow (JobScope i) r db =
     db\<lparr>batch_job_execution_context := mapSet i r (batch_job_execution_context db)\<rparr>"
| "putContextRow (StepScope i) r db =
     db\<lparr>batch_step_execution_context := mapSet i r (batch_step_execution_context db)\<rparr>"

definition sqlGetExecutionContext :: "sqlDriver \<Rightarrow> executionScope \<Rightarrow> (sqlDatabase, executionContext) M" where
  "sqlGetExecutionContext drv scope =
     bindM (getM (\<lambda>db. mapGet (contextTable scope db) (scopeId scope))) (\<lambda>row. case row of
       None \<Rightarrow> returnM \<lparr>ctx_data = JNull, ctx_version = 0\<rparr>
     | Some r \<Rightarrow> (if cr_data r = [] then returnM \<lparr>ctx_data = JNull, ctx_version = cr_version r\<rparr>
         else bindM (liftE (drv_parse drv (cr_data r))) (\<lambda>d.
           returnM \<lparr>ctx_data = d, ctx_version = cr_version r\<rparr>)))"

definition sqlSaveExecutionContext :: "sqlDriver \<Rightarrow> executionScope \<Rightarrow> executionContext \<Rightarrow> int option \<Rightarrow>
    (sqlDatabase, unit) M" where
  "sqlSaveExecutionContext drv scope ctx version =
     bindM (liftE (assertJsonTree ''$'' 0 (ctx_data ctx))) (\<lambda>_.
     bindM (getM (\<lambda>db. mapGet (contextTable scope db) (scopeId scope))) (\<lambda>existing.
       let nextVersion = (case version of
           Some v \<Rightarrow> v
         | None \<Rightarrow> (case existing of Some r \<Rightarrow> cr_version r + 1 | None \<Rightarrow> 0))
       in modifyM (putContextRow scope
            \<lparr>cr_data = drv_stringify drv (ctx_data ctx), cr_version = nextVersion\<rparr>)))"

definition typeOrmJobRepository :: "sqlDriver \<Rightarrow> sqlDatabase jobRepository" where
  "typeOrmJobRepository drv = \<lparr>
     repo_getOrCreateJobInstance = sqlGetOrCreateJobInstance drv,
     repo_createJobExecution = sqlCreateJobExecution drv,
     repo_createExecutionAtomic = sqlCreateExecutionAtomic drv,
     repo_updateJobExecution = sqlUpdateJobExecution,
     repo_getJobExecution = sqlGetJobExecution drv,
     repo_getJobInstance = sqlGetJobInstance,
     repo_findJobInstances = sqlFindJobInstances,
     repo_findJobExecutions = sqlFindJobExecutions drv,
     repo_getRunningJobExecution = sqlGetRunningJobExecution drv,
     repo_createStepExecution = sqlCreateStepExecution drv,
     repo_updateStepExecution = sqlUpdateStepExecution,
     repo_getStepExecution = sqlGetStepExecution,
     repo_findStepExecutions = sqlFindStepExecutions,
     repo_getExecutionContext = sqlGetExecutionContext drv,
     repo_saveExecutionContext = sqlSaveExecutionContext drv,
     repo_findLatestStepExecution = sqlFindLatestStepExecution\<rparr>"

section \<open>Facts about tables\<close>

lemma firstRow_append: "firstRow (xs @ ys) = (case firstRow xs of Some x \<Rightarrow> Some x | None \<Rightarrow> firstRow ys)"
  by (cases xs) simp_all

lemma firstRow_None [simp]: "firstRow xs = None \<longleftrightarrow> xs = []"
  by (cases xs) simp_all

lemma firstRow_set: "firstRow xs = Some x \<Longrightarrow> x \<in> set xs"
  by (cases xs) auto

text \<open>An \<open>UPDATE\<close> by primary key, seen through the selection by primary key.\<close>

lemma select_update:
  assumes "\<And>r. ident (f r) = ident r"
  shows "firstRow (filter (\<lambda>r. ident r = j) (map (\<lambda>r. if ident r = i then f r else r) rows))
    = (if j = i then map_option f (firstRow (filter (\<lambda>r. ident r = i) rows))
       else firstRow (filter (\<lambda>r. ident r = j) rows))"
  using assms by (induction rows) auto

lemma select_distinct:
  "distinct (map ident rows) \<Longrightarrow> r \<in> set rows \<Longrightarrow> firstRow (filter (\<lambda>x. ident x = ident r) rows) = Some r"
  by (induction rows) auto

lemma ident_update: "(\<And>r. ident (f r) = ident r) \<Longrightarrow>
   map ident (map (\<lambda>r. if ident r = i then f r else r) rows) = map ident rows"
  by auto

lemma set_orderDescending [simp]: "set (orderDescending key xs) = set xs"
  by (simp add: orderDescending_def)

lemma orderDescending_empty [simp]: "orderDescending key xs = [] \<longleftrightarrow> xs = []"
  by (metis set_orderDescending set_empty)

section \<open>The invariant\<close>

text \<open>What the code relies on of the driver, and what the tables always are.\<close>

definition driverOk :: "sqlDriver \<Rightarrow> bool" where
  "driverOk drv \<longleftrightarrow> inj (drv_uuid drv)
     \<and> (\<forall>d. assertJsonTree ''$'' 0 d = Inr () \<longrightarrow>
          drv_stringify drv d \<noteq> [] \<and> drv_parse drv (drv_stringify drv d) = Inr d)"

definition idsOk :: "sqlDriver \<Rightarrow> nat \<Rightarrow> string list \<Rightarrow> bool" where
  "idsOk drv n ids \<longleftrightarrow> distinct ids \<and> set ids \<subseteq> drv_uuid drv ` {..<n}"

definition contextsOk :: "sqlDriver \<Rightarrow> (string, contextRow) jsmap \<Rightarrow> bool" where
  "contextsOk drv t \<longleftrightarrow> (\<forall>i r. mapGet t i = Some r \<longrightarrow> cr_data r \<noteq> [] \<longrightarrow>
     (\<exists>d. drv_parse drv (cr_data r) = Inr d))"

definition sqlInv :: "sqlDriver \<Rightarrow> sqlDatabase \<Rightarrow> bool" where
  "sqlInv drv db \<longleftrightarrow> idsOk drv (sql_uuids db) (map ir_id (batch_job_instance db))
     \<and> idsOk drv (sql_uuids db) (map er_id (batch_job_execution db))
     \<and> idsOk drv (sql_uuids db) (map sr_id (batch_step_execution db))
     \<and> distinct (map (\<lambda>r. (ir_job_name r, ir_job_key r)) (batch_job_instance db))
     \<and> contextsOk drv (batch_job_execution_context db) \<and> contextsOk drv (batch_step_execution_context db)"

lemma idsOk_mono: "idsOk drv n ids \<Longrightarrow> n \<le> m \<Longrightarrow> idsOk drv m ids"
  by (force simp: idsOk_def)

lemma idsOk_fresh: "inj (drv_uuid drv) \<Longrightarrow> idsOk drv n ids \<Longrightarrow> drv_uuid drv n \<notin> set ids"
  by (fastforce simp: idsOk_def dest: injD)

lemma idsOk_snoc:
  "inj (drv_uuid drv) \<Longrightarrow> idsOk drv n ids \<Longrightarrow> idsOk drv (n + 1) (ids @ [drv_uuid drv n])"
  using idsOk_fresh [of drv n ids] by (force simp: idsOk_def)

lemma sqlInv_empty [simp]: "sqlInv drv emptyDatabase"
  by (simp add: sqlInv_def idsOk_def contextsOk_def emptyDatabase_def)

lemma contextsOk_put:
  "contextsOk drv t \<Longrightarrow> drv_parse drv (cr_data r) = Inr d \<Longrightarrow> contextsOk drv (mapSet i r t)"
  by (auto simp: contextsOk_def)

section \<open>The views of the contract\<close>

definition sqlJobRow :: "sqlDriver \<Rightarrow> sqlDatabase \<Rightarrow> string \<Rightarrow> jobExecution option" where
  "sqlJobRow drv db i =
     map_option (mapJobExecution drv) (firstRow (filter (\<lambda>r. er_id r = i) (batch_job_execution db)))"

definition sqlStepRow :: "sqlDatabase \<Rightarrow> string \<Rightarrow> stepExecution option" where
  "sqlStepRow db i = map_option mapStepExecution (firstRow (filter (\<lambda>r. sr_id r = i) (batch_step_execution db)))"

definition sqlContext :: "sqlDriver \<Rightarrow> sqlDatabase \<Rightarrow> executionScope \<Rightarrow> executionContext" where
  "sqlContext drv db scope = (case mapGet (contextTable scope db) (scopeId scope) of
      None \<Rightarrow> \<lparr>ctx_data = JNull, ctx_version = 0\<rparr>
    | Some r \<Rightarrow> \<lparr>ctx_data = (if cr_data r = [] then JNull else
          (case drv_parse drv (cr_data r) of Inl _ \<Rightarrow> JNull | Inr d \<Rightarrow> d)), ctx_version = cr_version r\<rparr>)"

lemma contextTable_ok: "sqlInv drv db \<Longrightarrow> contextsOk drv (contextTable scope db)"
  by (cases scope) (simp_all add: sqlInv_def)

lemma sqlGetExecutionContext_view:
  assumes "sqlInv drv db"
  shows "sqlGetExecutionContext drv scope db = (Value (sqlContext drv db scope), db)"
proof (cases "mapGet (contextTable scope db) (scopeId scope)")
  case (Some r)
  with contextTable_ok [OF assms, of scope] have "cr_data r \<noteq> [] \<longrightarrow> (\<exists>d. drv_parse drv (cr_data r) = Inr d)"
    by (auto simp: contextsOk_def)
  with Some show ?thesis by (auto simp: sqlGetExecutionContext_def sqlContext_def)
qed (simp add: sqlGetExecutionContext_def sqlContext_def)

lemma contextTable_put:
  "mapGet (contextTable sc (putContextRow scope r db)) (scopeId sc)
    = (if sc = scope then Some r else mapGet (contextTable sc db) (scopeId sc))"
  by (cases sc; cases scope) auto

lemma putContextRow_rows [simp]:
  "batch_job_execution (putContextRow scope r db) = batch_job_execution db"
  "batch_step_execution (putContextRow scope r db) = batch_step_execution db"
  "batch_job_instance (putContextRow scope r db) = batch_job_instance db"
  "sql_uuids (putContextRow scope r db) = sql_uuids db"
  by (cases scope; simp)+

lemma sqlInv_putContextRow:
  "sqlInv drv db \<Longrightarrow> drv_parse drv (cr_data r) = Inr d \<Longrightarrow> sqlInv drv (putContextRow scope r db)"
  by (cases scope) (auto simp: sqlInv_def intro: contextsOk_put)

lemma sqlSave_effect:
  assumes "sqlInv drv db" "driverOk drv" "assertJsonTree ''$'' 0 (ctx_data c) = Inr ()"
  shows "\<exists>db' n. sqlSaveExecutionContext drv scope c v db = (Value (), db') \<and> sqlInv drv db'
    \<and> sqlContext drv db' = (sqlContext drv db)(scope := \<lparr>ctx_data = ctx_data c, ctx_version = orKeep v n\<rparr>)
    \<and> sqlJobRow drv db' = sqlJobRow drv db \<and> sqlStepRow db' = sqlStepRow db
    \<and> (v = None \<longrightarrow> n = (case mapGet (contextTable scope db) (scopeId scope) of None \<Rightarrow> 0 | Some r \<Rightarrow> cr_version r + 1))"
proof -
  let ?n = "case mapGet (contextTable scope db) (scopeId scope) of None \<Rightarrow> 0 | Some r \<Rightarrow> cr_version r + 1"
  let ?r = "\<lparr>cr_data = drv_stringify drv (ctx_data c), cr_version = orKeep v ?n\<rparr>"
  have p: "drv_parse drv (cr_data ?r) = Inr (ctx_data c)" "cr_data ?r \<noteq> []"
    using assms(2,3) by (simp_all add: driverOk_def)
  have "sqlSaveExecutionContext drv scope c v db = (Value (), putContextRow scope ?r db)"
    using assms(3) by (cases v) (auto simp: sqlSaveExecutionContext_def Let_def split: option.splits)
  moreover have "sqlContext drv (putContextRow scope ?r db)
      = (sqlContext drv db)(scope := \<lparr>ctx_data = ctx_data c, ctx_version = orKeep v ?n\<rparr>)"
    using p by (auto simp: sqlContext_def contextTable_put)
  ultimately show ?thesis
    using sqlInv_putContextRow [OF assms(1) p(1), of scope]
    by (intro exI [of _ "putContextRow scope ?r db"] exI [of _ ?n]) (simp add: sqlJobRow_def sqlStepRow_def fun_eq_iff)
qed

section \<open>The contract, discharged\<close>

lemma setExecution_view:
  "er_id (setExecution p r) = er_id r"
  "mapJobExecution drv (setExecution p r) = patchJobExecution p (mapJobExecution drv r)"
  by (simp_all add: setExecution_def mapJobExecution_def patchJobExecution_def)

lemma setStep_view:
  "sr_id (setStep q r) = sr_id r" "patchedStep q (mapStepExecution r) (mapStepExecution (setStep q r))"
  by (simp_all add: setStep_def patchedStep_def mapStepExecution_def patchStepExecution_def)

lemma patch_nothing: "map_option (patchJobExecution emptyJobPatch) e = e"
  by (cases e) (simp_all add: patchJobExecution_def emptyJobPatch_def)

lemma patch_only_times:
  "q\<lparr>sp_startTime := None, sp_endTime := None\<rparr> = emptyStepPatch \<Longrightarrow> patchedStep q s s"
  by (cases q; cases s) (auto simp: emptyStepPatch_def patchedStep_def patchStepExecution_def)

lemma sqlUpdateJob_effect:
  "sqlInv drv db \<Longrightarrow> \<exists>db'. sqlUpdateJobExecution i p db = (Value (), db') \<and> sqlInv drv db'
     \<and> sqlJobRow drv db' = (\<lambda>j. if j = i then map_option (patchJobExecution p) (sqlJobRow drv db i) else sqlJobRow drv db j)
     \<and> sqlStepRow db' = sqlStepRow db \<and> sqlContext drv db' = sqlContext drv db"
proof (cases "p = emptyJobPatch")
  case True
  assume "sqlInv drv db"
  with True show ?thesis
    by (auto simp: sqlUpdateJobExecution_def patch_nothing fun_eq_iff)
next
  case False
  assume inv: "sqlInv drv db"
  let ?rows = "map (\<lambda>r. if er_id r = i then setExecution p r else r) (batch_job_execution db)"
  let ?db = "db\<lparr>batch_job_execution := ?rows\<rparr>"
  have "map er_id ?rows = map er_id (batch_job_execution db)"
    by (rule ident_update) (simp add: setExecution_view)
  then have "sqlInv drv ?db" using inv by (simp add: sqlInv_def del: map_map)
  moreover have "sqlJobRow drv ?db j = (if j = i then map_option (patchJobExecution p) (sqlJobRow drv db i) else sqlJobRow drv db j)" for j
    by (simp add: sqlJobRow_def select_update [where ident = er_id] setExecution_view option.map_comp comp_def)
  moreover have "contextTable sc ?db = contextTable sc db" for sc by (cases sc) simp_all
  ultimately show ?thesis
    using False by (auto simp: sqlUpdateJobExecution_def sqlStepRow_def sqlContext_def fun_eq_iff)
qed

lemma sqlUpdateStep_effect:
  assumes "sqlInv drv db" "sqlStepRow db i = Some s"
  shows "\<exists>db' s'. sqlUpdateStepExecution i q db = (Value (), db') \<and> sqlInv drv db' \<and> patchedStep q s s'
     \<and> sqlStepRow db' = (sqlStepRow db)(i \<mapsto> s')
     \<and> sqlJobRow drv db' = sqlJobRow drv db \<and> sqlContext drv db' = sqlContext drv db"
proof (cases "q\<lparr>sp_startTime := None, sp_endTime := None\<rparr> = emptyStepPatch")
  case True
  with assms patch_only_times [OF True, of s] show ?thesis
    by (intro exI [of _ db] exI [of _ s]) (auto simp: sqlUpdateStepExecution_def fun_eq_iff)
next
  case False
  let ?rows = "map (\<lambda>r. if sr_id r = i then setStep q r else r) (batch_step_execution db)"
  let ?db = "db\<lparr>batch_step_execution := ?rows\<rparr>"
  obtain r where r: "firstRow (filter (\<lambda>r. sr_id r = i) (batch_step_execution db)) = Some r" "s = mapStepExecution r"
    using assms(2) by (auto simp: sqlStepRow_def)
  have "map sr_id ?rows = map sr_id (batch_step_execution db)"
    by (rule ident_update) (simp add: setStep_view)
  then have "sqlInv drv ?db" using assms(1) by (simp add: sqlInv_def del: map_map)
  moreover have "sqlStepRow ?db = (sqlStepRow db)(i \<mapsto> mapStepExecution (setStep q r))"
    by (auto simp: sqlStepRow_def select_update [where ident = sr_id] setStep_view r fun_eq_iff)
  moreover have "contextTable sc ?db = contextTable sc db" for sc by (cases sc) simp_all
  ultimately show ?thesis
    using False setStep_view(2) [of q r] r(2)
    by (intro exI [of _ ?db] exI [of _ "mapStepExecution (setStep q r)"])
      (auto simp: sqlUpdateStepExecution_def sqlJobRow_def sqlContext_def fun_eq_iff)
qed

lemma sqlCreateStep_effect:
  assumes "sqlInv drv db" "driverOk drv"
  shows "\<exists>db' s. sqlCreateStepExecution drv j name db = (Value s, db') \<and> sqlInv drv db'
     \<and> sqlStepRow db (se_id s) = None \<and> sqlStepRow db' = (sqlStepRow db)(se_id s \<mapsto> s)
     \<and> se_jobExecutionId s = j \<and> se_stepName s = name \<and> se_status s = StepStarting
     \<and> sqlJobRow drv db' = sqlJobRow drv db \<and> sqlContext drv db' = sqlContext drv db"
proof -
  let ?i = "drv_uuid drv (sql_uuids db)"
  let ?row = "\<lparr>sr_id = ?i, sr_job_execution_id = j, sr_step_name = name,
     sr_row_status = StepStarting, sr_read_count = 0, sr_write_count = 0, sr_skip_count = 0,
     sr_rollback_count = 0, sr_commit_count = 0, sr_exit_code = [], sr_exit_message = [],
     sr_created_at = sql_now db\<rparr>"
  let ?db = "db\<lparr>sql_uuids := sql_uuids db + 1, batch_step_execution := batch_step_execution db @ [?row]\<rparr>"
  have inj: "inj (drv_uuid drv)" using assms(2) by (simp add: driverOk_def)
  have fresh: "?i \<notin> set (map sr_id (batch_step_execution db))"
    using assms(1) idsOk_fresh [OF inj, of "sql_uuids db" "map sr_id (batch_step_execution db)"]
    by (simp add: sqlInv_def)
  then have none: "filter (\<lambda>r. sr_id r = ?i) (batch_step_execution db) = []"
    unfolding filter_empty_conv by (metis image_eqI set_map)
  have "sqlInv drv ?db"
    using assms(1) idsOk_snoc [OF inj] idsOk_mono [of drv "sql_uuids db" _ "sql_uuids db + 1"]
    by (simp add: sqlInv_def)
  moreover have "sqlStepRow ?db = (sqlStepRow db)(?i \<mapsto> mapStepExecution ?row)"
    using none by (auto simp: sqlStepRow_def firstRow_append fun_eq_iff split: option.splits)
  moreover have "contextTable sc ?db = contextTable sc db" for sc by (cases sc) simp_all
  moreover have "sqlCreateStepExecution drv j name db = (Value (mapStepExecution ?row), ?db)"
    using fresh by (simp add: sqlCreateStepExecution_def randomUUID_def bindM_def Let_def)
  ultimately show ?thesis
    using none
    by (intro exI [of _ ?db] exI [of _ "mapStepExecution ?row"])
      (simp add: sqlJobRow_def sqlContext_def mapStepExecution_def sqlStepRow_def fun_eq_iff)
qed

lemma sqlFindLatest_effect:
  assumes "sqlInv drv db"
  shows "\<exists>r. sqlFindLatestStepExecution j name db = (Value r, db)
     \<and> (\<forall>s. r = Some s \<longrightarrow> sqlStepRow db (se_id s) = Some s \<and> se_jobExecutionId s = j \<and> se_stepName s = name)"
proof -
  let ?rows = "orderDescending (\<lambda>r. (sr_created_at r, sr_id r))
    (filter (\<lambda>r. sr_job_execution_id r = j \<and> sr_step_name r = name) (batch_step_execution db))"
  have "sqlStepRow db (se_id (mapStepExecution r)) = Some (mapStepExecution r)
      \<and> sr_job_execution_id r = j \<and> sr_step_name r = name" if "firstRow ?rows = Some r" for r
  proof -
    from firstRow_set [OF that] have r: "r \<in> set (batch_step_execution db)"
      "sr_job_execution_id r = j" "sr_step_name r = name" by simp_all
    have "distinct (map sr_id (batch_step_execution db))" using assms by (simp add: sqlInv_def idsOk_def)
    from select_distinct [OF this r(1)] r(2,3) show ?thesis by (simp add: sqlStepRow_def mapStepExecution_def)
  qed
  note row = this
  have "sqlStepRow db (se_id s) = Some s \<and> se_jobExecutionId s = j \<and> se_stepName s = name"
    if "map_option mapStepExecution (firstRow ?rows) = Some s" for s
  proof -
    from that obtain r where r: "firstRow ?rows = Some r" "s = mapStepExecution r"
      unfolding map_option_eq_Some by blast
    from row [OF r(1)] show ?thesis unfolding r(2) by (simp add: mapStepExecution_def)
  qed
  then show ?thesis unfolding sqlFindLatestStepExecution_def getM_apply by blast
qed

lemma typeOrm_contract:
  assumes "driverOk drv"
  shows "repository_contract (typeOrmJobRepository drv) (sqlInv drv) (sqlJobRow drv) sqlStepRow (sqlContext drv)"
proof (unfold_locales, goal_cases)
  case (1 w i e)
  then show ?case by (auto simp: sqlJobRow_def mapJobExecution_def dest!: firstRow_set)
next
  case (2 w i)
  show ?case by (simp add: typeOrmJobRepository_def sqlGetJobExecution_def sqlJobRow_def)
next
  case (3 w i e p)
  obtain w' where w': "sqlUpdateJobExecution i p w = (Value (), w')" "sqlInv drv w'"
    "sqlJobRow drv w' = (\<lambda>j. if j = i then map_option (patchJobExecution p) (sqlJobRow drv w i) else sqlJobRow drv w j)"
    "sqlStepRow w' = sqlStepRow w" "sqlContext drv w' = sqlContext drv w"
    using sqlUpdateJob_effect [OF 3(1), of i p] by blast
  have "sqlJobRow drv w' = (sqlJobRow drv w)(i \<mapsto> patchJobExecution p e)"
    unfolding w'(3) using 3(2) by auto
  with w' show ?case by (simp add: typeOrmJobRepository_def)
next
  case (4 w i p)
  then have "map (\<lambda>r. if er_id r = i then setExecution p r else r) (batch_job_execution w) = batch_job_execution w"
    by (auto simp: sqlJobRow_def filter_empty_conv intro!: map_idI)
  then show ?case by (simp add: typeOrmJobRepository_def sqlUpdateJobExecution_def)
next
  case (5 w j name)
  with sqlCreateStep_effect [OF _ assms, of w j name] show ?case by (simp add: typeOrmJobRepository_def)
next
  case (6 w i s q)
  with sqlUpdateStep_effect [of drv w i s q] show ?case by (simp add: typeOrmJobRepository_def)
next
  case (7 w sc)
  with sqlGetExecutionContext_view [of drv w sc] show ?case by (simp add: typeOrmJobRepository_def)
next
  case (8 w c sc v)
  with sqlSave_effect [OF _ assms, of w c sc v] show ?case by (simp add: typeOrmJobRepository_def) blast
next
  case (9 c err sc v w)
  then show ?case by (simp add: typeOrmJobRepository_def sqlSaveExecutionContext_def)
next
  case (10 w j name)
  with sqlFindLatest_effect [of drv w j name] show ?case by (simp add: typeOrmJobRepository_def)
qed

end
