(* ===== verification/SqlConcurrency.thy ===== *)
theory SqlConcurrency
  imports SqlRepository
begin

text \<open>
  Concurrent launches over one database: \<open>createExecutionAtomic\<close> of
  \<open>typeorm-job-repository.ts\<close> as a transaction whose statements interleave with those of
  other transactions, on PostgreSQL at its default isolation level.

  A transaction sees the committed rows and its own; the rows it adds are committed together
  or not at all. An \<open>INSERT\<close> whose key another transaction has added but not committed waits
  for that transaction, \<open>FOR UPDATE SKIP LOCKED\<close> passes over the rows others have locked, and
  a lock is held to the end of the transaction. Each phase runs the very statement of the
  sequential model on what the transaction sees.
\<close>

section \<open>Transactions\<close>

datatype txPhase = PhaseInsert | PhaseLock | PhaseCheck | PhaseCreate | PhaseCommit

record atomicTx =
  tx_name :: string
  tx_key :: string
  tx_params :: jobParameters
  tx_phase :: txPhase
  tx_instances :: "jobInstanceRow list"
  tx_lock :: "string option"
  tx_executions :: "jobExecutionRow list"

record sqlServer =
  srv_db :: sqlDatabase
  srv_txs :: "nat \<Rightarrow> atomicTx option"

definition beginTx :: "string \<Rightarrow> string \<Rightarrow> jobParameters \<Rightarrow> atomicTx" where
  "beginTx name jobKey params = \<lparr>tx_name = name, tx_key = jobKey, tx_params = params,
     tx_phase = PhaseInsert, tx_instances = [], tx_lock = None, tx_executions = []\<rparr>"

text \<open>The rows a transaction sees; \<open>locks\<close> are the rows the others hold.\<close>

definition viewOf :: "string list \<Rightarrow> atomicTx \<Rightarrow> sqlDatabase \<Rightarrow> sqlDatabase" where
  "viewOf locks tx db = db\<lparr>batch_job_instance := batch_job_instance db @ tx_instances tx,
     batch_job_execution := batch_job_execution db @ tx_executions tx, sql_lockedByOthers := locks\<rparr>"

text \<open>One statement, or \<open>None\<close> when it throws and the transaction rolls back.\<close>

definition runTxPhase :: "sqlDriver \<Rightarrow> string list \<Rightarrow> atomicTx \<Rightarrow> sqlDatabase \<Rightarrow> atomicTx option" where
  "runTxPhase drv locks tx db = (let v = viewOf locks tx db in case tx_phase tx of
      PhaseInsert \<Rightarrow> (case insertInstanceOnConflict drv (drv_uuid drv (sql_uuids db)) (tx_name tx) (tx_key tx) v of
          (Value rows, _) \<Rightarrow> Some (tx\<lparr>tx_instances := rows, tx_phase := PhaseLock\<rparr>)
        | _ \<Rightarrow> None)
    | PhaseLock \<Rightarrow> (case lockInstance (tx_name tx) (tx_key tx) v of
          (Value i, _) \<Rightarrow> Some (tx\<lparr>tx_lock := Some i, tx_phase := PhaseCheck\<rparr>)
        | _ \<Rightarrow> None)
    | PhaseCheck \<Rightarrow> (case checkNotRunning (the (tx_lock tx)) v of
          (Value _, _) \<Rightarrow> Some (tx\<lparr>tx_phase := PhaseCreate\<rparr>)
        | _ \<Rightarrow> None)
    | PhaseCreate \<Rightarrow> (case insertExecutionRow drv (newExecutionRow drv (drv_uuid drv (sql_uuids db))
            (the (tx_lock tx)) (tx_params tx)) v of
          (Value row, _) \<Rightarrow> Some (tx\<lparr>tx_executions := [row], tx_phase := PhaseCommit\<rparr>)
        | _ \<Rightarrow> None)
    | PhaseCommit \<Rightarrow> None)"

text \<open>The phases that call \<open>randomUUID\<close> first.\<close>

definition drawsUuid :: "txPhase \<Rightarrow> bool" where
  "drawsUuid p \<longleftrightarrow> p = PhaseInsert \<or> p = PhaseCreate"

definition commitTx :: "atomicTx \<Rightarrow> sqlDatabase \<Rightarrow> sqlDatabase" where
  "commitTx tx db = db\<lparr>batch_job_instance := batch_job_instance db @ tx_instances tx,
     batch_job_execution := batch_job_execution db @ tx_executions tx\<rparr>"

section \<open>The server\<close>

text \<open>Whether a row is locked by a transaction other than \<open>t\<close>, and which keys it waits for.\<close>

definition othersLock :: "nat \<Rightarrow> sqlServer \<Rightarrow> string \<Rightarrow> bool" where
  "othersLock t srv i \<longleftrightarrow> (\<exists>u tx. u \<noteq> t \<and> srv_txs srv u = Some tx \<and> tx_lock tx = Some i)"

definition mustWait :: "nat \<Rightarrow> atomicTx \<Rightarrow> sqlServer \<Rightarrow> bool" where
  "mustWait t tx srv \<longleftrightarrow> tx_phase tx = PhaseInsert
     \<and> (\<exists>u tx'. u \<noteq> t \<and> srv_txs srv u = Some tx' \<and> (\<exists>r \<in> set (tx_instances tx'). hasKey (tx_name tx) (tx_key tx) r))"

text \<open>
  The status updates the executor and the operator make: none brings a finished execution
  back to a running status.
\<close>

definition allowedUpdate :: "string \<Rightarrow> jobExecutionPatch \<Rightarrow> sqlDatabase \<Rightarrow> bool" where
  "allowedUpdate i p db \<longleftrightarrow> (\<forall>st. jp_status p = Some st \<longrightarrow> isRunningStatus st \<longrightarrow>
     (\<forall>r \<in> set (batch_job_execution db). er_id r = i \<longrightarrow> isRunningStatus (er_status r)))"

inductive serverStep :: "sqlDriver \<Rightarrow> sqlServer \<Rightarrow> sqlServer \<Rightarrow> bool" for drv where
  step_begin: "srv_txs srv t = None \<Longrightarrow>
    serverStep drv srv (srv\<lparr>srv_txs := (srv_txs srv)(t \<mapsto> beginTx name jobKey params)\<rparr>)"
| step_phase: "srv_txs srv t = Some tx \<Longrightarrow> \<not> mustWait t tx srv \<Longrightarrow>
    \<forall>i. i \<in> set locks \<longleftrightarrow> othersLock t srv i \<Longrightarrow>
    runTxPhase drv locks tx (srv_db srv) = Some tx' \<Longrightarrow>
    n = (if drawsUuid (tx_phase tx) then sql_uuids (srv_db srv) + 1 else sql_uuids (srv_db srv)) \<Longrightarrow>
    serverStep drv srv (srv\<lparr>srv_db := (srv_db srv)\<lparr>sql_uuids := n\<rparr>, srv_txs := (srv_txs srv)(t \<mapsto> tx')\<rparr>)"
| step_abort: "srv_txs srv t = Some tx \<Longrightarrow>
    serverStep drv srv (srv\<lparr>srv_txs := (srv_txs srv)(t := None)\<rparr>)"
| step_commit: "srv_txs srv t = Some tx \<Longrightarrow> tx_phase tx = PhaseCommit \<Longrightarrow>
    serverStep drv srv (srv\<lparr>srv_db := commitTx tx (srv_db srv), srv_txs := (srv_txs srv)(t := None)\<rparr>)"
| step_update: "allowedUpdate i p (srv_db srv) \<Longrightarrow>
    serverStep drv srv (srv\<lparr>srv_db := snd (sqlUpdateJobExecution i p (srv_db srv))\<rparr>)"
| step_time: "serverStep drv srv (srv\<lparr>srv_db := (srv_db srv)\<lparr>sql_now := t\<rparr>\<rparr>)"

definition freshServer :: "sqlServer" where
  "freshServer = \<lparr>srv_db = emptyDatabase, srv_txs = Map.empty\<rparr>"

inductive serverReachable :: "sqlDriver \<Rightarrow> sqlServer \<Rightarrow> bool" for drv where
  server_start: "serverReachable drv freshServer"
| server_step: "serverReachable drv srv \<Longrightarrow> serverStep drv srv srv' \<Longrightarrow> serverReachable drv srv'"

inductive_cases serverStepE: "serverStep drv srv srv'"

section \<open>The invariant\<close>

definition keysOf :: "jobInstanceRow list \<Rightarrow> (string \<times> string) list" where
  "keysOf rows = map (\<lambda>r. (ir_job_name r, ir_job_key r)) rows"

text \<open>
  What holds of one transaction over the committed rows: the phases it has passed, and that
  a transaction behind the check holds the lock of an instance without a running execution.
\<close>

definition txInv :: "sqlDatabase \<Rightarrow> atomicTx \<Rightarrow> bool" where
  "txInv db tx \<longleftrightarrow>
     (tx_instances tx = [] \<or> keysOf (tx_instances tx) = [(tx_name tx, tx_key tx)]
        \<and> (tx_name tx, tx_key tx) \<notin> set (keysOf (batch_job_instance db)))
   \<and> (tx_phase tx = PhaseInsert \<longrightarrow> tx_instances tx = [])
   \<and> (tx_executions tx = [] \<or> tx_phase tx = PhaseCommit \<and>
        (\<exists>r. tx_executions tx = [r] \<and> tx_lock tx = Some (er_job_instance_id r)))
   \<and> (tx_phase tx \<in> {PhaseCheck, PhaseCreate, PhaseCommit} \<longrightarrow> tx_lock tx \<noteq> None)
   \<and> (tx_phase tx \<in> {PhaseCreate, PhaseCommit} \<longrightarrow>
        filter (runningRow (the (tx_lock tx))) (batch_job_execution db) = [])"

definition serverInv :: "sqlServer \<Rightarrow> bool" where
  "serverInv srv \<longleftrightarrow> \<not> sql_isSqlite (srv_db srv)
     \<and> (\<forall>t tx. srv_txs srv t = Some tx \<longrightarrow> txInv (srv_db srv) tx)
     \<and> (\<forall>t u tx tx' i. srv_txs srv t = Some tx \<longrightarrow> srv_txs srv u = Some tx' \<longrightarrow>
          tx_lock tx = Some i \<longrightarrow> tx_lock tx' = Some i \<longrightarrow> t = u)
     \<and> (\<forall>t u tx tx'. srv_txs srv t = Some tx \<longrightarrow> srv_txs srv u = Some tx' \<longrightarrow>
          tx_instances tx \<noteq> [] \<longrightarrow> tx_instances tx' \<noteq> [] \<longrightarrow>
          tx_name tx = tx_name tx' \<longrightarrow> tx_key tx = tx_key tx' \<longrightarrow> t = u)
     \<and> distinct (keysOf (batch_job_instance (srv_db srv)))
     \<and> (\<forall>i. length (filter (runningRow i) (batch_job_execution (srv_db srv))) \<le> 1)"

lemma hasKey_keysOf: "(\<exists>r \<in> set rows. hasKey name jobKey r) \<longleftrightarrow> (name, jobKey) \<in> set (keysOf rows)"
  by (auto simp: hasKey_def keysOf_def)

lemma keysOf_append: "keysOf (rows @ rows') = keysOf rows @ keysOf rows'"
  by (simp add: keysOf_def)

lemma runTxPhase_insert:
  assumes "tx_phase tx = PhaseInsert" "runTxPhase drv locks tx db = Some tx'" "tx_instances tx = []"
  shows "tx' = tx\<lparr>tx_phase := PhaseLock\<rparr> \<or> (\<exists>row. tx' = tx\<lparr>tx_instances := [row], tx_phase := PhaseLock\<rparr>
    \<and> hasKey (tx_name tx) (tx_key tx) row \<and> (tx_name tx, tx_key tx) \<notin> set (keysOf (batch_job_instance db)))"
  using assms
  by (cases tx) (auto simp: runTxPhase_def insertInstanceOnConflict_def viewOf_def Let_def hasKey_keysOf [symmetric] hasKey_def
      split: if_splits)

lemma runTxPhase_lock:
  assumes "tx_phase tx = PhaseLock" "runTxPhase drv locks tx db = Some tx'" "\<not> sql_isSqlite db"
  shows "\<exists>i. tx' = tx\<lparr>tx_lock := Some i, tx_phase := PhaseCheck\<rparr> \<and> i \<notin> set locks"
  using assms
  by (auto simp: runTxPhase_def lockInstance_def viewOf_def Let_def bindM_def
      split: option.splits prod.splits outcome.splits dest!: firstRow_set)

lemma runTxPhase_check:
  assumes "tx_phase tx = PhaseCheck" "runTxPhase drv locks tx db = Some tx'"
  shows "tx' = tx\<lparr>tx_phase := PhaseCreate\<rparr> \<and> filter (runningRow (the (tx_lock tx))) (batch_job_execution db) = []"
  using assms
  by (auto simp: runTxPhase_def checkNotRunning_def viewOf_def Let_def bindM_def
      split: option.splits prod.splits outcome.splits)

lemma runTxPhase_create:
  assumes "tx_phase tx = PhaseCreate" "runTxPhase drv locks tx db = Some tx'"
  shows "\<exists>r. tx' = tx\<lparr>tx_executions := [r], tx_phase := PhaseCommit\<rparr> \<and> er_job_instance_id r = the (tx_lock tx)"
  using assms
  by (auto simp: runTxPhase_def insertExecutionRow_def newExecutionRow_def viewOf_def Let_def
      split: if_splits)

section \<open>Preservation\<close>

lemma serverInv_tx: "serverInv srv \<Longrightarrow> srv_txs srv t = Some tx \<Longrightarrow> txInv (srv_db srv) tx"
  by (auto simp: serverInv_def)

lemma serverInv_locks: "serverInv srv \<Longrightarrow> srv_txs srv t = Some tx \<Longrightarrow> srv_txs srv u = Some tx' \<Longrightarrow>
   tx_lock tx = Some i \<Longrightarrow> tx_lock tx' = Some i \<Longrightarrow> t = u"
  by (simp add: serverInv_def)

lemma serverInv_keys: "serverInv srv \<Longrightarrow> srv_txs srv t = Some tx \<Longrightarrow> srv_txs srv u = Some tx' \<Longrightarrow>
   tx_instances tx \<noteq> [] \<Longrightarrow> tx_instances tx' \<noteq> [] \<Longrightarrow>
   tx_name tx = tx_name tx' \<Longrightarrow> tx_key tx = tx_key tx' \<Longrightarrow> t = u"
  by (simp add: serverInv_def)

lemma serverInv_db: "serverInv srv \<Longrightarrow> \<not> sql_isSqlite (srv_db srv)
   \<and> distinct (keysOf (batch_job_instance (srv_db srv)))
   \<and> (\<forall>i. length (filter (runningRow i) (batch_job_execution (srv_db srv))) \<le> 1)"
  by (simp add: serverInv_def)

lemma txInv_cong:
  "batch_job_instance db' = batch_job_instance db \<Longrightarrow>
   (\<And>i. filter (runningRow i) (batch_job_execution db) = [] \<Longrightarrow> filter (runningRow i) (batch_job_execution db') = []) \<Longrightarrow>
   txInv db tx \<Longrightarrow> txInv db' tx"
  by (auto simp: txInv_def)

text \<open>Replacing the committed rows by ones with no more running executions.\<close>

lemma serverInv_replace:
  assumes "serverInv srv" "batch_job_instance db' = batch_job_instance (srv_db srv)"
    "sql_isSqlite db' = sql_isSqlite (srv_db srv)"
    "\<And>i. length (filter (runningRow i) (batch_job_execution db'))
       \<le> length (filter (runningRow i) (batch_job_execution (srv_db srv)))"
  shows "serverInv (srv\<lparr>srv_db := db'\<rparr>)"
proof -
  have "txInv db' tx" if "srv_txs srv t = Some tx" for t tx
    using serverInv_tx [OF assms(1) that] assms(4)
    by (intro txInv_cong [OF assms(2)]) (metis le_zero_eq length_0_conv)
  then show ?thesis
    using assms(1,2,3) order_trans [OF assms(4)] by (simp add: serverInv_def)
qed

text \<open>Replacing one transaction.\<close>

lemma serverInv_replaceTx:
  assumes "serverInv srv" "txInv (srv_db srv) tx'"
    and "\<And>u tx2 i. u \<noteq> t \<Longrightarrow> srv_txs srv u = Some tx2 \<Longrightarrow> tx_lock tx' = Some i \<Longrightarrow> tx_lock tx2 \<noteq> Some i"
    and "\<And>u tx2. u \<noteq> t \<Longrightarrow> srv_txs srv u = Some tx2 \<Longrightarrow> tx_instances tx' \<noteq> [] \<Longrightarrow> tx_instances tx2 \<noteq> [] \<Longrightarrow>
      \<not> (tx_name tx2 = tx_name tx' \<and> tx_key tx2 = tx_key tx')"
  shows "serverInv (srv\<lparr>srv_txs := (srv_txs srv)(t \<mapsto> tx')\<rparr>)"
  using assms(1) unfolding serverInv_def sqlServer.simps
proof (intro conjI allI impI, goal_cases)
  case (2 u tx2)
  then show ?case using assms(2) by (auto split: if_splits)
next
  case (3 u u' tx2 tx3 i)
  show ?case
    using 3(2-) 3(1) assms(3) [of u tx2 i] assms(3) [of u' tx3 i] by (cases "u = t"; cases "u' = t") auto
next
  case (4 u u' tx2 tx3)
  show ?case
    using 4(2-) 4(1) assms(4) [of u tx2] assms(4) [of u' tx3] by (cases "u = t"; cases "u' = t") auto
qed simp_all

lemma serverInv_removeTx:
  "serverInv srv \<Longrightarrow> serverInv (srv\<lparr>srv_txs := (srv_txs srv)(t := None)\<rparr>)"
  unfolding serverInv_def by (auto split: if_splits)

lemma serverInv_phase:
  assumes inv: "serverInv srv" and tx: "srv_txs srv t = Some tx" and wait: "\<not> mustWait t tx srv"
    and locks: "\<forall>i. i \<in> set locks \<longleftrightarrow> othersLock t srv i"
    and run: "runTxPhase drv locks tx (srv_db srv) = Some tx'"
  shows "serverInv (srv\<lparr>srv_txs := (srv_txs srv)(t \<mapsto> tx')\<rparr>)"
proof -
  note txi = serverInv_tx [OF inv tx]
  have keep_lock: "tx_lock tx2 \<noteq> Some i" if "u \<noteq> t" "srv_txs srv u = Some tx2" "tx_lock tx = Some i" for u tx2 i
    using serverInv_locks [OF inv tx that(2,3)] that(1) by blast
  have keep_key: "\<not> (tx_name tx2 = tx_name tx \<and> tx_key tx2 = tx_key tx)"
    if "u \<noteq> t" "srv_txs srv u = Some tx2" "tx_instances tx \<noteq> []" "tx_instances tx2 \<noteq> []" for u tx2
    using serverInv_keys [OF inv tx that(2-4)] that(1) by metis
  show ?thesis
  proof (cases "tx_phase tx")
    case PhaseInsert
    then have none: "tx_instances tx = []" "tx_executions tx = []" using txi by (auto simp: txInv_def)
    have free: "\<not> (\<exists>r \<in> set (tx_instances tx2). hasKey (tx_name tx) (tx_key tx) r)"
      if "u \<noteq> t" "srv_txs srv u = Some tx2" for u tx2
      using wait PhaseInsert that by (auto simp: mustWait_def)
    consider "tx' = tx\<lparr>tx_phase := PhaseLock\<rparr>" | row where
        "tx' = tx\<lparr>tx_instances := [row], tx_phase := PhaseLock\<rparr>" "hasKey (tx_name tx) (tx_key tx) row"
        "(tx_name tx, tx_key tx) \<notin> set (keysOf (batch_job_instance (srv_db srv)))"
      using runTxPhase_insert [OF PhaseInsert run none(1)] by blast
    then show ?thesis
    proof cases
      case 1
      show ?thesis
        by (rule serverInv_replaceTx [OF inv]) (use 1 txi PhaseInsert none keep_lock in \<open>auto simp: txInv_def\<close>)
    next
      case 2
      have "\<not> (tx_name tx2 = tx_name tx \<and> tx_key tx2 = tx_key tx)"
        if "u \<noteq> t" "srv_txs srv u = Some tx2" "tx_instances tx2 \<noteq> []" for u tx2
        using free [OF that(1,2)] serverInv_tx [OF inv that(2)] that(3)
        by (auto simp: txInv_def hasKey_keysOf)
      then show ?thesis
        by (intro serverInv_replaceTx [OF inv])
          (use 2 txi PhaseInsert none keep_lock in \<open>auto simp: txInv_def keysOf_def hasKey_def\<close>)
    qed
  next
    case PhaseLock
    obtain i where i: "tx' = tx\<lparr>tx_lock := Some i, tx_phase := PhaseCheck\<rparr>" "i \<notin> set locks"
      using runTxPhase_lock [OF PhaseLock run] serverInv_db [OF inv] by blast
    have "tx_lock tx2 \<noteq> Some i" if "u \<noteq> t" "srv_txs srv u = Some tx2" for u tx2
      using that i(2) locks by (auto simp: othersLock_def)
    then show ?thesis
      by (intro serverInv_replaceTx [OF inv]) (use i txi PhaseLock keep_key in \<open>auto simp: txInv_def\<close>)
  next
    case PhaseCheck
    then have "tx_executions tx = []" "tx_lock tx \<noteq> None" using txi by (auto simp: txInv_def)
    with runTxPhase_check [OF PhaseCheck run] have "txInv (srv_db srv) tx'"
      using txi PhaseCheck by (auto simp: txInv_def)
    moreover have "tx_lock tx' = tx_lock tx" "tx_instances tx' = tx_instances tx" "tx_name tx' = tx_name tx"
      "tx_key tx' = tx_key tx"
      using runTxPhase_check [OF PhaseCheck run] by simp_all
    ultimately show ?thesis
      by (intro serverInv_replaceTx [OF inv]) (simp, metis keep_lock, metis keep_key)
  next
    case PhaseCreate
    obtain r where r: "tx' = tx\<lparr>tx_executions := [r], tx_phase := PhaseCommit\<rparr>"
      "er_job_instance_id r = the (tx_lock tx)"
      using runTxPhase_create [OF PhaseCreate run] by blast
    then have "txInv (srv_db srv) tx'"
      using txi PhaseCreate by (auto simp: txInv_def)
    then show ?thesis
      by (intro serverInv_replaceTx [OF inv]) (use r keep_lock keep_key in auto)
  next
    case PhaseCommit
    with run show ?thesis by (simp add: runTxPhase_def)
  qed
qed

text \<open>A committing transaction adds the only running execution of the instance it has locked.\<close>

lemma serverInv_commit:
  assumes inv: "serverInv srv" and tx: "srv_txs srv t = Some tx" and phase: "tx_phase tx = PhaseCommit"
  shows "serverInv (srv\<lparr>srv_db := commitTx tx (srv_db srv), srv_txs := (srv_txs srv)(t := None)\<rparr>)"
proof -
  let ?db = "srv_db srv" and ?db' = "commitTx tx (srv_db srv)"
  note txi = serverInv_tx [OF inv tx] and db = serverInv_db [OF inv]
  have own: "er_job_instance_id r = the (tx_lock tx)" "tx_lock tx \<noteq> None" if "r \<in> set (tx_executions tx)" for r
    using txi that by (auto simp: txInv_def)
  have len: "length (tx_executions tx) \<le> 1" using txi by (auto simp: txInv_def)
  have running: "filter (runningRow i) (batch_job_execution ?db')
      = filter (runningRow i) (batch_job_execution ?db) @ filter (runningRow i) (tx_executions tx)" for i
    by (simp add: commitTx_def)
  have others: "filter (runningRow i) (tx_executions tx) = []" if "tx_lock tx \<noteq> Some i" for i
    using own that by (auto simp: filter_empty_conv runningRow_def)
  have "length (filter (runningRow i) (batch_job_execution ?db')) \<le> 1" for i
  proof (cases "tx_lock tx = Some i")
    case True
    then have "filter (runningRow i) (batch_job_execution ?db) = []" using txi phase by (auto simp: txInv_def)
    then show ?thesis unfolding running using le_trans [OF length_filter_le len] by simp
  next
    case False
    then show ?thesis unfolding running using others db by simp
  qed
  moreover have "distinct (keysOf (batch_job_instance ?db'))"
  proof -
    have "keysOf (batch_job_instance ?db') = keysOf (batch_job_instance ?db) @ keysOf (tx_instances tx)"
      by (simp add: commitTx_def keysOf_append)
    moreover have "tx_instances tx = [] \<or> keysOf (tx_instances tx) = [(tx_name tx, tx_key tx)]
        \<and> (tx_name tx, tx_key tx) \<notin> set (keysOf (batch_job_instance ?db))"
      using txi by (simp add: txInv_def)
    ultimately show ?thesis using db by (elim disjE conjE) (simp_all add: keysOf_def)
  qed
  moreover have "txInv ?db' tx2" if "u \<noteq> t" "srv_txs srv u = Some tx2" for u tx2
  proof -
    note tx2 = serverInv_tx [OF inv that(2)]
    have "filter (runningRow (the (tx_lock tx2))) (batch_job_execution ?db') = []"
      if phase2: "tx_phase tx2 \<in> {PhaseCreate, PhaseCommit}"
    proof -
      obtain i where i: "tx_lock tx2 = Some i" "filter (runningRow i) (batch_job_execution ?db) = []"
        using tx2 phase2 by (auto simp: txInv_def)
      have "tx_lock tx \<noteq> Some i"
        using serverInv_locks [OF inv \<open>srv_txs srv u = Some tx2\<close> tx i(1)] \<open>u \<noteq> t\<close> by blast
      then show ?thesis unfolding running using i others by simp
    qed
    moreover have "(tx_name tx2, tx_key tx2) \<notin> set (keysOf (batch_job_instance ?db'))"
      if "tx_instances tx2 \<noteq> []"
    proof (cases "tx_instances tx = []")
      case True
      then show ?thesis using tx2 that by (simp add: commitTx_def keysOf_def txInv_def)
    next
      case False
      then have "(tx_name tx2, tx_key tx2) \<noteq> (tx_name tx, tx_key tx)"
        using serverInv_keys [OF inv \<open>srv_txs srv u = Some tx2\<close> tx that] \<open>u \<noteq> t\<close> by blast
      moreover have "keysOf (tx_instances tx) = [(tx_name tx, tx_key tx)]"
        "(tx_name tx2, tx_key tx2) \<notin> set (keysOf (batch_job_instance ?db))"
        using False txi tx2 that by (auto simp: txInv_def)
      ultimately show ?thesis by (simp add: commitTx_def keysOf_def)
    qed
    ultimately show ?thesis using tx2 by (auto simp: txInv_def)
  qed
  moreover have "\<not> sql_isSqlite ?db'" using db by (simp add: commitTx_def)
  ultimately show ?thesis
    using inv unfolding serverInv_def by (auto split: if_splits)
qed

lemma allowed_running:
  assumes "allowedUpdate i p db" "r \<in> set (batch_job_execution db)" "er_id r = i"
    "runningRow j (setExecution p r)"
  shows "runningRow j r"
  using assms by (cases "jp_status p") (auto simp: allowedUpdate_def runningRow_def setExecution_def)

lemma length_filter_map_le:
  "(\<And>x. x \<in> set xs \<Longrightarrow> P (f x) \<Longrightarrow> P x) \<Longrightarrow> length (filter P (map f xs)) \<le> length (filter P xs)"
  by (induction xs) (auto simp: le_SucI)

lemma serverInv_update:
  assumes "serverInv srv" "allowedUpdate i p (srv_db srv)"
  shows "serverInv (srv\<lparr>srv_db := snd (sqlUpdateJobExecution i p (srv_db srv))\<rparr>)"
proof (cases "p = emptyJobPatch")
  case True
  with assms(1) show ?thesis by (simp add: sqlUpdateJobExecution_def)
next
  case False
  let ?f = "\<lambda>r. if er_id r = i then setExecution p r else r"
  have "length (filter (runningRow j) (map ?f (batch_job_execution (srv_db srv))))
      \<le> length (filter (runningRow j) (batch_job_execution (srv_db srv)))" for j
    by (rule length_filter_map_le) (use allowed_running [OF assms(2)] in \<open>auto split: if_splits\<close>)
  with False show ?thesis
    by (intro serverInv_replace [OF assms(1)]) (simp_all add: sqlUpdateJobExecution_def)
qed

lemma serverInv_step: "serverStep drv srv srv' \<Longrightarrow> serverInv srv \<Longrightarrow> serverInv srv'"
proof (induction rule: serverStep.induct)
  case (step_begin srv t name jobKey params)
  have "srv_txs srv t \<noteq> Some tx" for tx using step_begin(1) by simp
  then show ?case
    by (intro serverInv_replaceTx [OF step_begin(2)]) (simp_all add: beginTx_def txInv_def)
next
  case (step_phase srv t tx locks tx' n)
  let ?srv = "srv\<lparr>srv_txs := (srv_txs srv)(t \<mapsto> tx')\<rparr>"
  have "serverInv ?srv" by (rule serverInv_phase [OF step_phase(6,1-4)])
  then have "serverInv (?srv\<lparr>srv_db := (srv_db ?srv)\<lparr>sql_uuids := n\<rparr>\<rparr>)"
    by (rule serverInv_replace) simp_all
  moreover have "?srv\<lparr>srv_db := (srv_db ?srv)\<lparr>sql_uuids := n\<rparr>\<rparr>
      = srv\<lparr>srv_db := (srv_db srv)\<lparr>sql_uuids := n\<rparr>, srv_txs := (srv_txs srv)(t \<mapsto> tx')\<rparr>"
    by simp
  ultimately show ?case by metis
next
  case (step_time srv t)
  then show ?case by (intro serverInv_replace) simp_all
qed (simp_all add: serverInv_removeTx serverInv_commit serverInv_update)

lemma serverInv_fresh: "serverInv freshServer"
  by (simp add: serverInv_def freshServer_def emptyDatabase_def keysOf_def)

lemma serverReachable_inv: "serverReachable drv srv \<Longrightarrow> serverInv srv"
  by (induction rule: serverReachable.induct) (auto intro: serverInv_fresh serverInv_step)

section \<open>A launch that meets no other\<close>

text \<open>The phases one after the other; four of them come before the commit.\<close>

fun phasesLeft :: "txPhase \<Rightarrow> nat" where
  "phasesLeft PhaseInsert = 4"
| "phasesLeft PhaseLock = 3"
| "phasesLeft PhaseCheck = 2"
| "phasesLeft PhaseCreate = 1"
| "phasesLeft PhaseCommit = 0"

fun runTxPhases :: "nat \<Rightarrow> sqlDriver \<Rightarrow> atomicTx \<Rightarrow> sqlDatabase \<Rightarrow> sqlDatabase option" where
  "runTxPhases 0 drv tx db = Some (commitTx tx db)"
| "runTxPhases (Suc n) drv tx db = (case runTxPhase drv [] tx db of
      None \<Rightarrow> None
    | Some tx' \<Rightarrow> runTxPhases n drv tx' (db\<lparr>sql_uuids :=
        (if drawsUuid (tx_phase tx) then sql_uuids db + 1 else sql_uuids db)\<rparr>))"

text \<open>They are the sequential operation.\<close>

lemma insertInstance_effect:
  "insertInstanceOnConflict drv i name jobKey db = (r, db') \<Longrightarrow>
   db' = (case r of Value rows \<Rightarrow> db\<lparr>batch_job_instance := batch_job_instance db @ rows\<rparr> | _ \<Rightarrow> db)"
  by (auto simp: insertInstanceOnConflict_def Let_def split: if_splits)

lemma insertInstance_uuids:
  "fst (insertInstanceOnConflict drv i name jobKey (db\<lparr>sql_uuids := n\<rparr>)) = fst (insertInstanceOnConflict drv i name jobKey db)"
  by (simp add: insertInstanceOnConflict_def Let_def)

lemma insertInstance_total: "fst (insertInstanceOnConflict drv i name jobKey db) \<noteq> OutOfFuel"
  by (simp add: insertInstanceOnConflict_def Let_def)

lemma lockInstance_reads:
  "lockInstance name jobKey db = (case firstRow (filter
     (\<lambda>r. hasKey name jobKey r \<and> (sql_isSqlite db \<or> ir_id r \<notin> set (sql_lockedByOthers db))) (batch_job_instance db)) of
       None \<Rightarrow> Throw (jobExecutionAlreadyRunningError name) | Some r \<Rightarrow> Value (ir_id r), db)"
  by (simp add: lockInstance_def split: option.splits)

lemma checkNotRunning_reads:
  "checkNotRunning i db = (case firstRow (filter (runningRow i) (batch_job_execution db)) of
       Some r \<Rightarrow> Throw (jobExecutionAlreadyRunningError (er_id r)) | None \<Rightarrow> Value (), db)"
  by (simp add: checkNotRunning_def split: option.splits)

lemma runTxPhases_step: "runTxPhase drv [] tx db = Some tx' \<Longrightarrow> 0 < n \<Longrightarrow> runTxPhases n drv tx db
    = runTxPhases (n - 1) drv tx' (db\<lparr>sql_uuids := (if drawsUuid (tx_phase tx) then sql_uuids db + 1 else sql_uuids db)\<rparr>)"
  by (cases n) simp_all

lemma runTxPhases_stuck: "runTxPhase drv [] tx db = None \<Longrightarrow> 0 < n \<Longrightarrow> runTxPhases n drv tx db = None"
  by (cases n) simp_all

lemma runTxPhases_sequential:
  assumes "sql_lockedByOthers db = []"
  shows "runTxPhases 4 drv (beginTx name jobKey params) db =
    (case sqlCreateExecutionAtomic drv name jobKey params db of (Value _, db') \<Rightarrow> Some db' | _ \<Rightarrow> None)"
proof -
  let ?u = "drv_uuid drv (sql_uuids db)"
  define db1 where "db1 = db\<lparr>sql_uuids := sql_uuids db + 1\<rparr>"
  obtain r db2 where ins: "insertInstanceOnConflict drv ?u name jobKey db1 = (r, db2)" by (metis surj_pair)
  have view: "viewOf [] (beginTx name jobKey params) db = db"
    using assms by (simp add: viewOf_def beginTx_def)
  obtain db3 where ins0: "insertInstanceOnConflict drv ?u name jobKey db = (r, db3)"
    using insertInstance_uuids [where n = "sql_uuids db + 1" and db = db and drv = drv and i = ?u] ins unfolding db1_def by (metis fst_conv surj_pair)
  show ?thesis
  proof (cases r)
    case (Value rows)
    define tx1 where "tx1 = (beginTx name jobKey params)\<lparr>tx_instances := rows, tx_phase := PhaseLock\<rparr>"
    have tx1: "tx_name tx1 = name" "tx_key tx1 = jobKey" "tx_params tx1 = params" "tx_phase tx1 = PhaseLock"
      "tx_executions tx1 = []" "tx_instances tx1 = rows"
      by (simp_all add: tx1_def beginTx_def)
    have db2: "db2 = db1\<lparr>batch_job_instance := batch_job_instance db1 @ rows\<rparr>"
      using insertInstance_effect [OF ins] Value by simp
    have seen: "viewOf [] tx db1 = db2" if "tx_instances tx = rows" "tx_executions tx = []" for tx
      using assms db2 that by (simp add: viewOf_def db1_def)
    have u1: "sql_uuids db2 = sql_uuids db1" using db2 by simp
    have "runTxPhase drv [] (beginTx name jobKey params) db = Some tx1"
      using ins0 Value unfolding runTxPhase_def view Let_def by (simp add: tx1_def beginTx_def)
    then have p1: "runTxPhases 4 drv (beginTx name jobKey params) db = runTxPhases 3 drv tx1 db1"
      by (simp add: runTxPhases_step beginTx_def drawsUuid_def db1_def)
    have s1: "sqlCreateExecutionAtomic drv name jobKey params db = transactionM (\<lambda>_.
        bindM (lockInstance name jobKey) (\<lambda>instanceId. thenM (checkNotRunning instanceId)
          (bindM (randomUUID drv) (\<lambda>execId.
            bindM (insertExecutionRow drv (newExecutionRow drv execId instanceId params)) (\<lambda>row.
              returnM (mapJobExecution drv row))))) db2) db"
      using ins Value
      by (simp add: sqlCreateExecutionAtomic_def transactionM_def randomUUID_def thenM_def bindM_def db1_def)
    show ?thesis
    proof (cases "fst (lockInstance name jobKey db2)")
      case (Value i)
      then have lock: "lockInstance name jobKey db2 = (Value i, db2)"
        by (simp add: lockInstance_reads split: option.splits)
      let ?tx2 = "tx1\<lparr>tx_lock := Some i, tx_phase := PhaseCheck\<rparr>"
      have "runTxPhase drv [] tx1 db1 = Some ?tx2"
        using lock by (simp add: runTxPhase_def seen tx1 Let_def)
      then have p2: "runTxPhases 3 drv tx1 db1 = runTxPhases 2 drv ?tx2 db1"
        by (simp add: runTxPhases_step tx1 drawsUuid_def)
      show ?thesis
      proof (cases "fst (checkNotRunning i db2)")
        case (Value u)
        then have check: "checkNotRunning i db2 = (Value (), db2)"
          by (simp add: checkNotRunning_reads split: option.splits)
        have "runTxPhase drv [] ?tx2 db1 = Some (?tx2\<lparr>tx_phase := PhaseCreate\<rparr>)"
          using check by (simp add: runTxPhase_def seen tx1 Let_def)
        then have p3: "runTxPhases 2 drv ?tx2 db1 = runTxPhases 1 drv (?tx2\<lparr>tx_phase := PhaseCreate\<rparr>) db1"
          by (simp add: runTxPhases_step tx1 drawsUuid_def)
        show ?thesis unfolding p1 p2 p3 s1
          using lock check assms db2
          by (simp add: runTxPhase_def viewOf_def tx1 drawsUuid_def Let_def transactionM_def thenM_def bindM_def randomUUID_def
              insertExecutionRow_def commitTx_def db1_def)
      next
        case (Throw e)
        then have check: "checkNotRunning i db2 = (Throw e, db2)"
          by (simp add: checkNotRunning_reads split: option.splits)
        then have "runTxPhase drv [] ?tx2 db1 = None" by (simp add: runTxPhase_def seen tx1 Let_def)
        then show ?thesis unfolding p1 p2 s1 using lock check
          by (simp add: runTxPhases_stuck transactionM_def thenM_def bindM_def)
      qed (simp add: checkNotRunning_reads split: option.splits)
    next
      case (Throw e)
      then have lock: "lockInstance name jobKey db2 = (Throw e, db2)"
        by (simp add: lockInstance_reads split: option.splits)
      then have "runTxPhase drv [] tx1 db1 = None" by (simp add: runTxPhase_def seen tx1 Let_def)
      then show ?thesis unfolding p1 s1 using lock
        by (simp add: runTxPhases_stuck transactionM_def thenM_def bindM_def)
    qed (simp add: lockInstance_reads split: option.splits)
  next
    case (Throw e)
    then have "runTxPhase drv [] (beginTx name jobKey params) db = None"
      using ins0 unfolding runTxPhase_def view Let_def by (simp add: beginTx_def)
    then show ?thesis
      using ins Throw by (simp add: runTxPhases_stuck sqlCreateExecutionAtomic_def transactionM_def
          randomUUID_def thenM_def bindM_def db1_def)
  next
    case OutOfFuel
    then show ?thesis using ins insertInstance_total by (metis fst_conv)
  qed
qed

lemma runTxPhase_phase: "runTxPhase drv locks tx db = Some tx' \<Longrightarrow> phasesLeft (tx_phase tx) = Suc (phasesLeft (tx_phase tx'))"
  by (cases "tx_phase tx") (auto simp: runTxPhase_def Let_def split: prod.splits outcome.splits)

lemma runTxPhases_reachable:
  assumes "serverReachable drv srv" "srv_txs srv = [t \<mapsto> tx]"
    "runTxPhases (phasesLeft (tx_phase tx)) drv tx (srv_db srv) = Some db'"
  shows "serverReachable drv (srv\<lparr>srv_db := db', srv_txs := Map.empty\<rparr>)"
  using assms
proof (induction "phasesLeft (tx_phase tx)" arbitrary: srv tx)
  case 0
  then have "tx_phase tx = PhaseCommit" by (cases "tx_phase tx") simp_all
  with 0 have "serverReachable drv (srv\<lparr>srv_db := db', srv_txs := (srv_txs srv)(t := None)\<rparr>)"
    using server_step [OF 0(2) step_commit [where t = t and tx = tx and srv = srv and drv = drv]] by simp
  moreover have "(srv_txs srv)(t := None) = Map.empty" unfolding 0(3) by auto
  ultimately show ?case by metis
next
  case (Suc n)
  let ?n = "if drawsUuid (tx_phase tx) then sql_uuids (srv_db srv) + 1 else sql_uuids (srv_db srv)"
  obtain tx' where tx': "runTxPhase drv [] tx (srv_db srv) = Some tx'"
    "runTxPhases n drv tx' ((srv_db srv)\<lparr>sql_uuids := ?n\<rparr>) = Some db'"
    using Suc(5) unfolding Suc(2) [symmetric] by (auto split: option.splits)
  have n: "n = phasesLeft (tx_phase tx')" using runTxPhase_phase [OF tx'(1)] Suc(2) by simp
  let ?srv = "srv\<lparr>srv_db := (srv_db srv)\<lparr>sql_uuids := ?n\<rparr>, srv_txs := (srv_txs srv)(t \<mapsto> tx')\<rparr>"
  have "serverStep drv srv ?srv"
    by (rule step_phase [OF _ _ _ tx'(1)]) (simp_all add: Suc(4) mustWait_def othersLock_def)
  then have "serverReachable drv ?srv" by (rule server_step [OF Suc(3)])
  from Suc(1) [OF n this] tx'(2) show ?case by (simp add: Suc(4) n)
qed

lemma launch_reachable:
  assumes "serverReachable drv srv" "srv_txs srv = Map.empty" "sql_lockedByOthers (srv_db srv) = []"
    "sqlCreateExecutionAtomic drv name jobKey params (srv_db srv) = (Value e, db')"
  shows "serverReachable drv (srv\<lparr>srv_db := db'\<rparr>)"
proof -
  let ?tx = "beginTx name jobKey params"
  have step: "serverStep drv srv (srv\<lparr>srv_txs := (srv_txs srv)(0 \<mapsto> ?tx)\<rparr>)"
    by (rule step_begin) (simp add: assms(2))
  have "phasesLeft (tx_phase ?tx) = 4" by (simp add: beginTx_def)
  then have "serverReachable drv (srv\<lparr>srv_txs := (srv_txs srv)(0 \<mapsto> ?tx), srv_db := db', srv_txs := Map.empty\<rparr>)"
    using runTxPhases_sequential [OF assms(3), of drv name jobKey params] assms(2,4)
    by (intro runTxPhases_reachable [OF server_step [OF assms(1) step]]) (simp, simp only:, simp)
  moreover have "srv\<lparr>srv_txs := (srv_txs srv)(0 \<mapsto> ?tx), srv_db := db', srv_txs := Map.empty\<rparr> = srv\<lparr>srv_db := db'\<rparr>"
    using assms(2) by (cases srv) simp
  ultimately show ?thesis by metis
qed

end
