(* ===== verification/SqlVariants.thy ===== *)
theory SqlVariants
  imports SqlRepository
begin

text \<open>
  Three more repositories over the same tables, for PostgreSQL: \<open>PostgresTypeOrmJobRepository\<close>
  (\<open>packages/postgresql/src/typeorm\<close>), \<open>PrismaJobRepository\<close> (\<open>packages/prisma/src/repository\<close>)
  and \<open>DrizzleJobRepository\<close> (\<open>packages/drizzle/src/repository\<close>).

  Each is written from its own file, over the rows, the driver and the statements of
  \<open>SqlRepository\<close>. They differ in how a row just inserted is obtained (read back, or returned
  by the statement), in how an update and a condition are put together, in the first version
  of a context, and in what \<open>findJobExecutions\<close> leaves to the database.
\<close>

section \<open>Statements\<close>

definition selectInstanceById :: "string \<Rightarrow> (sqlDatabase, jobInstanceRow option) M" where
  "selectInstanceById i = getM (\<lambda>db. firstRow (filter (\<lambda>r. ir_id r = i) (batch_job_instance db)))"

definition selectExecution :: "string \<Rightarrow> (sqlDatabase, jobExecutionRow option) M" where
  "selectExecution i = getM (\<lambda>db. firstRow (filter (\<lambda>r. er_id r = i) (batch_job_execution db)))"

definition selectStep :: "string \<Rightarrow> (sqlDatabase, stepExecutionRow option) M" where
  "selectStep i = getM (\<lambda>db. firstRow (filter (\<lambda>r. sr_id r = i) (batch_step_execution db)))"

definition selectContext :: "executionScope \<Rightarrow> (sqlDatabase, contextRow option) M" where
  "selectContext scope = getM (\<lambda>db. mapGet (contextTable scope db) (scopeId scope))"

definition updateExecutionRow :: "string \<Rightarrow> (jobExecutionRow \<Rightarrow> jobExecutionRow) \<Rightarrow> (sqlDatabase, unit) M" where
  "updateExecutionRow i f = modifyM (\<lambda>db. db\<lparr>batch_job_execution :=
     map (\<lambda>r. if er_id r = i then f r else r) (batch_job_execution db)\<rparr>)"

definition updateStepRow :: "string \<Rightarrow> (stepExecutionRow \<Rightarrow> stepExecutionRow) \<Rightarrow> (sqlDatabase, unit) M" where
  "updateStepRow i f = modifyM (\<lambda>db. db\<lparr>batch_step_execution :=
     map (\<lambda>r. if sr_id r = i then f r else r) (batch_step_execution db)\<rparr>)"

definition insertStepRow :: "sqlDriver \<Rightarrow> stepExecutionRow \<Rightarrow> (sqlDatabase, stepExecutionRow) M" where
  "insertStepRow drv row = (\<lambda>db.
     if sr_id row \<in> set (map sr_id (batch_step_execution db)) then (Throw (drv_primaryKeyViolation drv), db)
     else (Value row, db\<lparr>batch_step_execution := batch_step_execution db @ [row]\<rparr>))"

definition newStepRow :: "string \<Rightarrow> string \<Rightarrow> string \<Rightarrow> date \<Rightarrow> stepExecutionRow" where
  "newStepRow i jobExecutionId stepName now = \<lparr>sr_id = i, sr_job_execution_id = jobExecutionId,
     sr_step_name = stepName, sr_row_status = StepStarting, sr_read_count = 0, sr_write_count = 0,
     sr_skip_count = 0, sr_rollback_count = 0, sr_commit_count = 0, sr_exit_code = [],
     sr_exit_message = [], sr_created_at = now\<rparr>"

text \<open>\<open>FOR UPDATE SKIP LOCKED\<close>, on a server that has it.\<close>

definition selectForUpdateSkipLocked :: "string \<Rightarrow> string \<Rightarrow> (sqlDatabase, jobInstanceRow option) M" where
  "selectForUpdateSkipLocked name jobKey = getM (\<lambda>db. firstRow (filter
     (\<lambda>r. hasKey name jobKey r \<and> ir_id r \<notin> set (sql_lockedByOthers db)) (batch_job_instance db)))"

definition selectRunning :: "string \<Rightarrow> (sqlDatabase, jobExecutionRow option) M" where
  "selectRunning instanceId = getM (\<lambda>db. firstRow (filter (runningRow instanceId) (batch_job_execution db)))"

definition notReadBack :: "string \<Rightarrow> string \<Rightarrow> exn" where
  "notReadBack name jobKey = plainError (''Failed to upsert JobInstance ('' @ name @ '', '' @ jobKey
     @ '') and could not read it back'')"

definition notAfterInsert :: "string \<Rightarrow> string \<Rightarrow> exn" where
  "notAfterInsert what i = plainError (what @ '' not found immediately after insert: '' @ i)"

text \<open>The data of a context row, absent when the column is empty.\<close>

definition contextOfRow :: "sqlDriver \<Rightarrow> contextRow \<Rightarrow> (sqlDatabase, executionContext) M" where
  "contextOfRow drv r = (if cr_data r = [] then returnM \<lparr>ctx_data = JNull, ctx_version = cr_version r\<rparr>
     else bindM (liftE (drv_parse drv (cr_data r))) (\<lambda>d. returnM \<lparr>ctx_data = d, ctx_version = cr_version r\<rparr>))"

section \<open>Conditions and assignments collected in arrays\<close>

text \<open>\<open>if (x !== undefined) where.push(...)\<close>, and the conditions joined by \<open>AND\<close>.\<close>

definition pushIf :: "'a option \<Rightarrow> ('a \<Rightarrow> 'b) \<Rightarrow> 'b list" where
  "pushIf x f = (case x of None \<Rightarrow> [] | Some v \<Rightarrow> [f v])"

definition joinAnd :: "('r \<Rightarrow> bool) list \<Rightarrow> 'r \<Rightarrow> bool" where
  "joinAnd conditions r = list_all (\<lambda>c. c r) conditions"

definition instanceConditions :: "jobInstanceFilter \<Rightarrow> (jobInstanceRow \<Rightarrow> bool) list" where
  "instanceConditions f = pushIf (if_jobName f) (\<lambda>n r. ir_job_name r = n)
     @ pushIf (if_jobKey f) (\<lambda>k r. ir_job_key r = k)"

text \<open>A comparison with a null column is not true.\<close>

definition executionConditions :: "jobExecutionFilter \<Rightarrow> (jobExecutionRow \<Rightarrow> bool) list" where
  "executionConditions f = pushIf (ef_jobInstanceId f) (\<lambda>i r. er_job_instance_id r = i)
     @ pushIf (ef_status f) (\<lambda>ss r. er_status r \<in> set ss)
     @ pushIf (ef_startedAfter f) (\<lambda>d r. case er_start_time r of None \<Rightarrow> False | Some t \<Rightarrow> d \<le> t)
     @ pushIf (ef_startedBefore f) (\<lambda>d r. case er_start_time r of None \<Rightarrow> False | Some t \<Rightarrow> t \<le> d)"

text \<open>The assignments of an \<open>UPDATE\<close>; all of them see the row as it was, and set distinct columns.\<close>

definition executionSets :: "jobExecutionPatch \<Rightarrow> (jobExecutionRow \<Rightarrow> jobExecutionRow) list" where
  "executionSets patch = pushIf (jp_status patch) (\<lambda>v r. r\<lparr>er_status := v\<rparr>)
     @ pushIf (jp_startTime patch) (\<lambda>v r. r\<lparr>er_start_time := v\<rparr>)
     @ pushIf (jp_endTime patch) (\<lambda>v r. r\<lparr>er_end_time := v\<rparr>)
     @ pushIf (jp_exitCode patch) (\<lambda>v r. r\<lparr>er_exit_code := v\<rparr>)
     @ pushIf (jp_exitMessage patch) (\<lambda>v r. r\<lparr>er_exit_message := v\<rparr>)"

definition stepSets :: "stepExecutionPatch \<Rightarrow> (stepExecutionRow \<Rightarrow> stepExecutionRow) list" where
  "stepSets patch = pushIf (sp_status patch) (\<lambda>v r. r\<lparr>sr_row_status := v\<rparr>)
     @ pushIf (sp_readCount patch) (\<lambda>v r. r\<lparr>sr_read_count := v\<rparr>)
     @ pushIf (sp_writeCount patch) (\<lambda>v r. r\<lparr>sr_write_count := v\<rparr>)
     @ pushIf (sp_skipCount patch) (\<lambda>v r. r\<lparr>sr_skip_count := v\<rparr>)
     @ pushIf (sp_rollbackCount patch) (\<lambda>v r. r\<lparr>sr_rollback_count := v\<rparr>)
     @ pushIf (sp_commitCount patch) (\<lambda>v r. r\<lparr>sr_commit_count := v\<rparr>)
     @ pushIf (sp_exitCode patch) (\<lambda>v r. r\<lparr>sr_exit_code := v\<rparr>)
     @ pushIf (sp_exitMessage patch) (\<lambda>v r. r\<lparr>sr_exit_message := v\<rparr>)"

section \<open>PostgresTypeOrmJobRepository\<close>

definition pgGetOrCreateJobInstance :: "sqlDriver \<Rightarrow> string \<Rightarrow> string \<Rightarrow> (sqlDatabase, jobInstance) M" where
  "pgGetOrCreateJobInstance drv name jobKey =
     bindM (selectInstance name jobKey) (\<lambda>rows. case rows of
       Some r \<Rightarrow> returnM (mapJobInstance r)
     | None \<Rightarrow> bindM (randomUUID drv) (\<lambda>i. catchM
         (thenM (insertInstanceOnConflict drv i name jobKey)
           (bindM (selectInstance name jobKey) (\<lambda>created. case created of
             None \<Rightarrow> throwM (notReadBack name jobKey)
           | Some r \<Rightarrow> returnM (mapJobInstance r))))
         (\<lambda>_. bindM (selectInstance name jobKey) (\<lambda>winner. case winner of
             Some r \<Rightarrow> returnM (mapJobInstance r)
           | None \<Rightarrow> throwM (notReadBack name jobKey)))))"

definition pgGetJobInstance :: "string \<Rightarrow> (sqlDatabase, jobInstance option) M" where
  "pgGetJobInstance i = bindM (selectInstanceById i) (\<lambda>row. returnM (map_option mapJobInstance row))"

definition pgFindJobInstances :: "jobInstanceFilter \<Rightarrow> (sqlDatabase, jobInstance list) M" where
  "pgFindJobInstances f = getM (\<lambda>db. map mapJobInstance (sort_key (\<lambda>r. (ir_created_at r, ir_id r))
     (filter (joinAnd (instanceConditions f)) (batch_job_instance db))))"

definition pgInsertExecution :: "sqlDriver \<Rightarrow> string \<Rightarrow> jobParameters \<Rightarrow> (sqlDatabase, jobExecution) M" where
  "pgInsertExecution drv instanceId params =
     bindM (randomUUID drv) (\<lambda>i.
     thenM (insertExecutionRow drv (newExecutionRow drv i instanceId params))
     (bindM (selectExecution i) (\<lambda>row. case row of
        None \<Rightarrow> throwM (notAfterInsert ''JobExecution'' i)
      | Some r \<Rightarrow> returnM (mapJobExecution drv r))))"

definition pgCreateJobExecution :: "sqlDriver \<Rightarrow> string \<Rightarrow> jobParameters \<Rightarrow> (sqlDatabase, jobExecution) M" where
  "pgCreateJobExecution drv jobInstanceId params = pgInsertExecution drv jobInstanceId params"

definition pgCreateExecutionAtomic :: "sqlDriver \<Rightarrow> string \<Rightarrow> string \<Rightarrow> jobParameters \<Rightarrow>
    (sqlDatabase, jobExecution) M" where
  "pgCreateExecutionAtomic drv name jobKey params = transactionM (
     bindM (randomUUID drv) (\<lambda>instId.
     thenM (insertInstanceOnConflict drv instId name jobKey)
     (bindM (selectForUpdateSkipLocked name jobKey) (\<lambda>locked. case locked of
        None \<Rightarrow> throwM (jobExecutionAlreadyRunningError name)
      | Some inst \<Rightarrow> bindM (selectRunning (ir_id inst)) (\<lambda>running. case running of
          Some r \<Rightarrow> throwM (jobExecutionAlreadyRunningError (er_id r))
        | None \<Rightarrow> pgInsertExecution drv (ir_id inst) params)))))"

definition pgUpdateJobExecution :: "string \<Rightarrow> jobExecutionPatch \<Rightarrow> (sqlDatabase, unit) M" where
  "pgUpdateJobExecution i patch = (let sets = executionSets patch in
     case sets of [] \<Rightarrow> returnM () | _ \<Rightarrow> updateExecutionRow i (fold (\<lambda>f. f) sets))"

definition pgGetJobExecution :: "sqlDriver \<Rightarrow> string \<Rightarrow> (sqlDatabase, jobExecution option) M" where
  "pgGetJobExecution drv i = bindM (selectExecution i) (\<lambda>row. returnM (map_option (mapJobExecution drv) row))"

definition pgFindJobExecutions :: "sqlDriver \<Rightarrow> jobExecutionFilter \<Rightarrow> (sqlDatabase, jobExecution list) M" where
  "pgFindJobExecutions drv f = (if ef_status f = Some [] then throwM (drv_syntaxError drv)
     else getM (\<lambda>db. map (mapJobExecution drv) (orderDescending (\<lambda>r. (nullsLast (er_start_time r), er_id r))
       (filter (joinAnd (executionConditions f)) (batch_job_execution db)))))"

text \<open>\<open>ORDER BY start_time DESC\<close> without \<open>NULLS LAST\<close>: PostgreSQL puts null first.\<close>

definition nullsFirst :: "date option \<Rightarrow> bool \<times> date" where
  "nullsFirst d = (case d of None \<Rightarrow> (True, 0) | Some t \<Rightarrow> (False, t))"

definition pgGetRunningJobExecution :: "sqlDriver \<Rightarrow> string \<Rightarrow> (sqlDatabase, jobExecution option) M" where
  "pgGetRunningJobExecution drv jobInstanceId =
     (if jobInstanceId = [] then returnM None
      else getM (\<lambda>db. map_option (mapJobExecution drv) (firstRow
        (orderDescending (\<lambda>r. nullsFirst (er_start_time r))
          (filter (runningRow jobInstanceId) (batch_job_execution db))))))"

definition pgCreateStepExecution :: "sqlDriver \<Rightarrow> string \<Rightarrow> string \<Rightarrow> (sqlDatabase, stepExecution) M" where
  "pgCreateStepExecution drv jobExecutionId stepName =
     bindM (randomUUID drv) (\<lambda>i. bindM (getM sql_now) (\<lambda>now.
     thenM (insertStepRow drv (newStepRow i jobExecutionId stepName now))
     (bindM (selectStep i) (\<lambda>row. case row of
        None \<Rightarrow> throwM (notAfterInsert ''StepExecution'' i)
      | Some r \<Rightarrow> returnM (mapStepExecution r)))))"

definition pgUpdateStepExecution :: "string \<Rightarrow> stepExecutionPatch \<Rightarrow> (sqlDatabase, unit) M" where
  "pgUpdateStepExecution i patch = (let sets = stepSets patch in
     case sets of [] \<Rightarrow> returnM () | _ \<Rightarrow> updateStepRow i (fold (\<lambda>f. f) sets))"

definition pgGetStepExecution :: "string \<Rightarrow> (sqlDatabase, stepExecution option) M" where
  "pgGetStepExecution i = bindM (selectStep i) (\<lambda>row. returnM (map_option mapStepExecution row))"

definition pgFindStepExecutions :: "string \<Rightarrow> (sqlDatabase, stepExecution list) M" where
  "pgFindStepExecutions jobExecutionId = getM (\<lambda>db. map mapStepExecution
     (sort_key (\<lambda>r. (sr_created_at r, sr_id r))
       (filter (\<lambda>r. sr_job_execution_id r = jobExecutionId) (batch_step_execution db))))"

definition pgFindLatestStepExecution :: "string \<Rightarrow> string \<Rightarrow> (sqlDatabase, stepExecution option) M" where
  "pgFindLatestStepExecution jobExecutionId stepName = getM (\<lambda>db. map_option mapStepExecution (firstRow
     (orderDescending (\<lambda>r. (sr_created_at r, sr_id r))
       (filter (\<lambda>r. sr_job_execution_id r = jobExecutionId \<and> sr_step_name r = stepName)
         (batch_step_execution db)))))"

definition pgGetExecutionContext :: "sqlDriver \<Rightarrow> executionScope \<Rightarrow> (sqlDatabase, executionContext) M" where
  "pgGetExecutionContext drv scope = bindM (selectContext scope) (\<lambda>row. case row of
       Some r \<Rightarrow> contextOfRow drv r
     | None \<Rightarrow> returnM \<lparr>ctx_data = JNull, ctx_version = 0\<rparr>)"

definition pgSaveExecutionContext :: "sqlDriver \<Rightarrow> executionScope \<Rightarrow> executionContext \<Rightarrow> int option \<Rightarrow>
    (sqlDatabase, unit) M" where
  "pgSaveExecutionContext drv scope ctx version =
     bindM (liftE (assertJsonTree ''$'' 0 (ctx_data ctx))) (\<lambda>_.
     bindM (selectContext scope) (\<lambda>existing.
       let nextVersion = (case version of
           Some v \<Rightarrow> v
         | None \<Rightarrow> (case existing of Some r \<Rightarrow> cr_version r | None \<Rightarrow> 0) + 1)
       in modifyM (putContextRow scope
            \<lparr>cr_data = drv_stringify drv (ctx_data ctx), cr_version = nextVersion\<rparr>)))"

definition postgresTypeOrmJobRepository :: "sqlDriver \<Rightarrow> sqlDatabase jobRepository" where
  "postgresTypeOrmJobRepository drv = \<lparr>
     repo_getOrCreateJobInstance = pgGetOrCreateJobInstance drv,
     repo_createJobExecution = pgCreateJobExecution drv,
     repo_createExecutionAtomic = pgCreateExecutionAtomic drv,
     repo_updateJobExecution = pgUpdateJobExecution,
     repo_getJobExecution = pgGetJobExecution drv,
     repo_getJobInstance = pgGetJobInstance,
     repo_findJobInstances = pgFindJobInstances,
     repo_findJobExecutions = pgFindJobExecutions drv,
     repo_getRunningJobExecution = pgGetRunningJobExecution drv,
     repo_createStepExecution = pgCreateStepExecution drv,
     repo_updateStepExecution = pgUpdateStepExecution,
     repo_getStepExecution = pgGetStepExecution,
     repo_findStepExecutions = pgFindStepExecutions,
     repo_getExecutionContext = pgGetExecutionContext drv,
     repo_saveExecutionContext = pgSaveExecutionContext drv,
     repo_findLatestStepExecution = pgFindLatestStepExecution\<rparr>"

section \<open>PrismaJobRepository\<close>

definition prismaGetOrCreateJobInstance :: "sqlDriver \<Rightarrow> string \<Rightarrow> string \<Rightarrow> (sqlDatabase, jobInstance) M" where
  "prismaGetOrCreateJobInstance drv name jobKey =
     bindM (selectInstance name jobKey) (\<lambda>existing. case existing of
       Some r \<Rightarrow> returnM (mapJobInstance r)
     | None \<Rightarrow> bindM (randomUUID drv) (\<lambda>i.
         bindM (catchM (insertInstanceOnConflict drv i name jobKey) (\<lambda>_. returnM [])) (\<lambda>inserted.
           case firstRow inserted of
             Some r \<Rightarrow> returnM (mapJobInstance r)
           | None \<Rightarrow> bindM (selectInstance name jobKey) (\<lambda>winner. case winner of
               None \<Rightarrow> throwM (notReadBack name jobKey)
             | Some r \<Rightarrow> returnM (mapJobInstance r)))))"

definition prismaCreateJobExecution :: "sqlDriver \<Rightarrow> string \<Rightarrow> jobParameters \<Rightarrow> (sqlDatabase, jobExecution) M" where
  "prismaCreateJobExecution drv jobInstanceId params =
     bindM (randomUUID drv) (\<lambda>execId.
     bindM (insertExecutionRow drv (newExecutionRow drv execId jobInstanceId params)) (\<lambda>row.
       returnM (mapJobExecution drv row)))"

definition prismaCreateExecutionAtomic :: "sqlDriver \<Rightarrow> string \<Rightarrow> string \<Rightarrow> jobParameters \<Rightarrow>
    (sqlDatabase, jobExecution) M" where
  "prismaCreateExecutionAtomic drv name jobKey params = transactionM (
     bindM (randomUUID drv) (\<lambda>instId.
     thenM (insertInstanceOnConflict drv instId name jobKey)
     (bindM (selectForUpdateSkipLocked name jobKey) (\<lambda>locked. case locked of
        None \<Rightarrow> throwM (jobExecutionAlreadyRunningError name)
      | Some inst \<Rightarrow> bindM (selectRunning (ir_id inst)) (\<lambda>running. case running of
          Some r \<Rightarrow> throwM (jobExecutionAlreadyRunningError (er_id r))
        | None \<Rightarrow> bindM (randomUUID drv) (\<lambda>execId.
            bindM (insertExecutionRow drv (newExecutionRow drv execId (ir_id inst) params)) (\<lambda>row.
              returnM (mapJobExecution drv row))))))))"

text \<open>One statement for each column that is patched, in the order of the code.\<close>

definition prismaSetColumn :: "'a option \<Rightarrow> ('a \<Rightarrow> (sqlDatabase, unit) M) \<Rightarrow> (sqlDatabase, unit) M" where
  "prismaSetColumn x execute = (case x of None \<Rightarrow> returnM () | Some v \<Rightarrow> execute v)"

definition prismaUpdateJobExecution :: "string \<Rightarrow> jobExecutionPatch \<Rightarrow> (sqlDatabase, unit) M" where
  "prismaUpdateJobExecution i patch =
     thenM (prismaSetColumn (jp_status patch) (\<lambda>v. updateExecutionRow i (\<lambda>r. r\<lparr>er_status := v\<rparr>)))
    (thenM (prismaSetColumn (jp_startTime patch) (\<lambda>v. updateExecutionRow i (\<lambda>r. r\<lparr>er_start_time := v\<rparr>)))
    (thenM (prismaSetColumn (jp_endTime patch) (\<lambda>v. updateExecutionRow i (\<lambda>r. r\<lparr>er_end_time := v\<rparr>)))
    (thenM (prismaSetColumn (jp_exitCode patch) (\<lambda>v. updateExecutionRow i (\<lambda>r. r\<lparr>er_exit_code := v\<rparr>)))
           (prismaSetColumn (jp_exitMessage patch) (\<lambda>v. updateExecutionRow i (\<lambda>r. r\<lparr>er_exit_message := v\<rparr>))))))"

definition prismaGetJobExecution :: "sqlDriver \<Rightarrow> string \<Rightarrow> (sqlDatabase, jobExecution option) M" where
  "prismaGetJobExecution drv i = bindM (selectExecution i) (\<lambda>row. returnM (map_option (mapJobExecution drv) row))"

definition prismaGetJobInstance :: "string \<Rightarrow> (sqlDatabase, jobInstance option) M" where
  "prismaGetJobInstance i = bindM (selectInstanceById i) (\<lambda>row. returnM (map_option mapJobInstance row))"

text \<open>Four statements, by the fields the filter has.\<close>

definition prismaFindJobInstances :: "jobInstanceFilter \<Rightarrow> (sqlDatabase, jobInstance list) M" where
  "prismaFindJobInstances f = getM (\<lambda>db. map mapJobInstance (sort_key (\<lambda>r. (ir_created_at r, ir_id r))
     (case (if_jobName f, if_jobKey f) of
        (Some n, Some k) \<Rightarrow> filter (\<lambda>r. ir_job_name r = n \<and> ir_job_key r = k) (batch_job_instance db)
      | (Some n, None) \<Rightarrow> filter (\<lambda>r. ir_job_name r = n) (batch_job_instance db)
      | (None, Some k) \<Rightarrow> filter (\<lambda>r. ir_job_key r = k) (batch_job_instance db)
      | (None, None) \<Rightarrow> batch_job_instance db)))"

text \<open>All rows in order, filtered three times in the process.\<close>

definition prismaStartedWithin :: "jobExecutionFilter \<Rightarrow> jobExecutionRow \<Rightarrow> bool" where
  "prismaStartedWithin f row = (let startTime = er_start_time row in
     if (case ef_startedAfter f of None \<Rightarrow> False
         | Some d \<Rightarrow> (case startTime of None \<Rightarrow> True | Some t \<Rightarrow> t < d)) then False
     else if (case ef_startedBefore f of None \<Rightarrow> False
         | Some d \<Rightarrow> (case startTime of None \<Rightarrow> True | Some t \<Rightarrow> d < t)) then False
     else True)"

definition prismaFindJobExecutions :: "sqlDriver \<Rightarrow> jobExecutionFilter \<Rightarrow> (sqlDatabase, jobExecution list) M" where
  "prismaFindJobExecutions drv f =
     bindM (getM (\<lambda>db. orderDescending (\<lambda>r. (nullsLast (er_start_time r), er_id r)) (batch_job_execution db)))
     (\<lambda>allRows. returnM (map (mapJobExecution drv)
       (filter (prismaStartedWithin f)
       (filter (\<lambda>row. case ef_status f of None \<Rightarrow> True | Some statuses \<Rightarrow> er_status row \<in> set statuses)
       (filter (\<lambda>row. case ef_jobInstanceId f of None \<Rightarrow> True | Some i \<Rightarrow> er_job_instance_id row = i) allRows)))))"

definition prismaGetRunningJobExecution :: "sqlDriver \<Rightarrow> string \<Rightarrow> (sqlDatabase, jobExecution option) M" where
  "prismaGetRunningJobExecution drv jobInstanceId =
     (if jobInstanceId = [] then returnM None
      else getM (\<lambda>db. map_option (mapJobExecution drv) (firstRow
        (orderDescending (\<lambda>r. nullsLast (er_start_time r))
          (filter (runningRow jobInstanceId) (batch_job_execution db))))))"

definition prismaCreateStepExecution :: "sqlDriver \<Rightarrow> string \<Rightarrow> string \<Rightarrow> (sqlDatabase, stepExecution) M" where
  "prismaCreateStepExecution drv jobExecutionId stepName =
     bindM (randomUUID drv) (\<lambda>stepId. bindM (getM sql_now) (\<lambda>now.
     bindM (insertStepRow drv (newStepRow stepId jobExecutionId stepName now)) (\<lambda>row.
       returnM (mapStepExecution row))))"

definition prismaUpdateStepExecution :: "string \<Rightarrow> stepExecutionPatch \<Rightarrow> (sqlDatabase, unit) M" where
  "prismaUpdateStepExecution i patch =
     thenM (prismaSetColumn (sp_status patch) (\<lambda>v. updateStepRow i (\<lambda>r. r\<lparr>sr_row_status := v\<rparr>)))
    (thenM (prismaSetColumn (sp_readCount patch) (\<lambda>v. updateStepRow i (\<lambda>r. r\<lparr>sr_read_count := v\<rparr>)))
    (thenM (prismaSetColumn (sp_writeCount patch) (\<lambda>v. updateStepRow i (\<lambda>r. r\<lparr>sr_write_count := v\<rparr>)))
    (thenM (prismaSetColumn (sp_skipCount patch) (\<lambda>v. updateStepRow i (\<lambda>r. r\<lparr>sr_skip_count := v\<rparr>)))
    (thenM (prismaSetColumn (sp_rollbackCount patch) (\<lambda>v. updateStepRow i (\<lambda>r. r\<lparr>sr_rollback_count := v\<rparr>)))
    (thenM (prismaSetColumn (sp_commitCount patch) (\<lambda>v. updateStepRow i (\<lambda>r. r\<lparr>sr_commit_count := v\<rparr>)))
    (thenM (prismaSetColumn (sp_exitCode patch) (\<lambda>v. updateStepRow i (\<lambda>r. r\<lparr>sr_exit_code := v\<rparr>)))
           (prismaSetColumn (sp_exitMessage patch) (\<lambda>v. updateStepRow i (\<lambda>r. r\<lparr>sr_exit_message := v\<rparr>)))))))))"

definition prismaGetStepExecution :: "string \<Rightarrow> (sqlDatabase, stepExecution option) M" where
  "prismaGetStepExecution i = bindM (selectStep i) (\<lambda>row. returnM (map_option mapStepExecution row))"

definition prismaFindStepExecutions :: "string \<Rightarrow> (sqlDatabase, stepExecution list) M" where
  "prismaFindStepExecutions jobExecutionId = getM (\<lambda>db. map mapStepExecution
     (sort_key (\<lambda>r. (sr_created_at r, sr_id r))
       (filter (\<lambda>r. sr_job_execution_id r = jobExecutionId) (batch_step_execution db))))"

definition prismaFindLatestStepExecution :: "string \<Rightarrow> string \<Rightarrow> (sqlDatabase, stepExecution option) M" where
  "prismaFindLatestStepExecution jobExecutionId stepName = getM (\<lambda>db. map_option mapStepExecution (firstRow
     (orderDescending (\<lambda>r. (sr_created_at r, sr_id r))
       (filter (\<lambda>r. sr_job_execution_id r = jobExecutionId \<and> sr_step_name r = stepName)
         (batch_step_execution db)))))"

definition prismaGetExecutionContext :: "sqlDriver \<Rightarrow> executionScope \<Rightarrow> (sqlDatabase, executionContext) M" where
  "prismaGetExecutionContext drv scope = bindM (selectContext scope) (\<lambda>row. case row of
       Some r \<Rightarrow> contextOfRow drv r
     | None \<Rightarrow> returnM \<lparr>ctx_data = JNull, ctx_version = 0\<rparr>)"

definition prismaSaveExecutionContext :: "sqlDriver \<Rightarrow> executionScope \<Rightarrow> executionContext \<Rightarrow> int option \<Rightarrow>
    (sqlDatabase, unit) M" where
  "prismaSaveExecutionContext drv scope ctx version =
     bindM (liftE (assertJsonTree ''$'' 0 (ctx_data ctx))) (\<lambda>_.
     bindM (selectContext scope) (\<lambda>existing.
       let nextVersion = (case version of
           Some v \<Rightarrow> v
         | None \<Rightarrow> (case existing of Some r \<Rightarrow> cr_version r + 1 | None \<Rightarrow> 0))
       in modifyM (putContextRow scope
            \<lparr>cr_data = drv_stringify drv (ctx_data ctx), cr_version = nextVersion\<rparr>)))"

definition prismaJobRepository :: "sqlDriver \<Rightarrow> sqlDatabase jobRepository" where
  "prismaJobRepository drv = \<lparr>
     repo_getOrCreateJobInstance = prismaGetOrCreateJobInstance drv,
     repo_createJobExecution = prismaCreateJobExecution drv,
     repo_createExecutionAtomic = prismaCreateExecutionAtomic drv,
     repo_updateJobExecution = prismaUpdateJobExecution,
     repo_getJobExecution = prismaGetJobExecution drv,
     repo_getJobInstance = prismaGetJobInstance,
     repo_findJobInstances = prismaFindJobInstances,
     repo_findJobExecutions = prismaFindJobExecutions drv,
     repo_getRunningJobExecution = prismaGetRunningJobExecution drv,
     repo_createStepExecution = prismaCreateStepExecution drv,
     repo_updateStepExecution = prismaUpdateStepExecution,
     repo_getStepExecution = prismaGetStepExecution,
     repo_findStepExecutions = prismaFindStepExecutions,
     repo_getExecutionContext = prismaGetExecutionContext drv,
     repo_saveExecutionContext = prismaSaveExecutionContext drv,
     repo_findLatestStepExecution = prismaFindLatestStepExecution\<rparr>"

section \<open>DrizzleJobRepository\<close>

text \<open>What \<open>db.execute\<close> returns differs by driver; \<open>rowsOf\<close> accepts an array or an object with rows.\<close>

datatype 'r queryResult = ResultArray "'r list" | ResultObject "'r list option" | ResultNull

fun rowsOf :: "'r queryResult \<Rightarrow> 'r list" where
  "rowsOf ResultNull = []"
| "rowsOf (ResultArray rows) = rows"
| "rowsOf (ResultObject (Some rows)) = rows"
| "rowsOf (ResultObject None) = []"

text \<open>The two shapes in which drivers return the rows of a query.\<close>

datatype drizzleDriver = NodePostgres | ArrayDriver

fun executeResult :: "drizzleDriver \<Rightarrow> 'r list \<Rightarrow> 'r queryResult" where
  "executeResult NodePostgres rows = ResultObject (Some rows)"
| "executeResult ArrayDriver rows = ResultArray rows"

definition executeRows :: "drizzleDriver \<Rightarrow> (sqlDatabase, 'r list) M \<Rightarrow> (sqlDatabase, 'r list) M" where
  "executeRows dd query = bindM query (\<lambda>rows. returnM (rowsOf (executeResult dd rows)))"

definition optionRows :: "'r option \<Rightarrow> 'r list" where
  "optionRows r = (case r of None \<Rightarrow> [] | Some x \<Rightarrow> [x])"

text \<open>A statement with \<open>LIMIT 1\<close>.\<close>

definition executeRow :: "drizzleDriver \<Rightarrow> (sqlDatabase, 'r option) M \<Rightarrow> (sqlDatabase, 'r option) M" where
  "executeRow dd query = bindM (executeRows dd (bindM query (\<lambda>r. returnM (optionRows r))))
     (\<lambda>rows. returnM (firstRow rows))"

definition drizzleGetOrCreateJobInstance :: "drizzleDriver \<Rightarrow> sqlDriver \<Rightarrow> string \<Rightarrow> string \<Rightarrow>
    (sqlDatabase, jobInstance) M" where
  "drizzleGetOrCreateJobInstance dd drv name jobKey =
     bindM (executeRow dd (selectInstance name jobKey)) (\<lambda>existing. case existing of
       Some r \<Rightarrow> returnM (mapJobInstance r)
     | None \<Rightarrow> bindM (randomUUID drv) (\<lambda>i.
         bindM (catchM (executeRows dd (insertInstanceOnConflict drv i name jobKey)) (\<lambda>_. returnM [])) (\<lambda>inserted.
           case firstRow inserted of
             Some r \<Rightarrow> returnM (mapJobInstance r)
           | None \<Rightarrow> bindM (executeRow dd (selectInstance name jobKey)) (\<lambda>winner. case winner of
               None \<Rightarrow> throwM (notReadBack name jobKey)
             | Some r \<Rightarrow> returnM (mapJobInstance r)))))"

text \<open>\<open>mapJobExecution(rows[0]!)\<close>, a \<open>TypeError\<close> without a row.\<close>

definition drizzleInserted :: "('r \<Rightarrow> 'a) \<Rightarrow> 'r option \<Rightarrow> (sqlDatabase, 'a) M" where
  "drizzleInserted mapRow rows0 = (case rows0 of
      Some r \<Rightarrow> returnM (mapRow r)
    | None \<Rightarrow> throwM (typeError ''Cannot read properties of undefined''))"

definition drizzleCreateJobExecution :: "drizzleDriver \<Rightarrow> sqlDriver \<Rightarrow> string \<Rightarrow> jobParameters \<Rightarrow>
    (sqlDatabase, jobExecution) M" where
  "drizzleCreateJobExecution dd drv jobInstanceId params =
     bindM (randomUUID drv) (\<lambda>execId.
     bindM (executeRow dd (bindM (insertExecutionRow drv (newExecutionRow drv execId jobInstanceId params))
       (\<lambda>row. returnM (Some row)))) (drizzleInserted (mapJobExecution drv)))"

definition drizzleCreateExecutionAtomic :: "drizzleDriver \<Rightarrow> sqlDriver \<Rightarrow> string \<Rightarrow> string \<Rightarrow> jobParameters \<Rightarrow>
    (sqlDatabase, jobExecution) M" where
  "drizzleCreateExecutionAtomic dd drv name jobKey params = transactionM (
     bindM (randomUUID drv) (\<lambda>instId.
     thenM (insertInstanceOnConflict drv instId name jobKey)
     (bindM (executeRow dd (selectForUpdateSkipLocked name jobKey)) (\<lambda>locked. case locked of
        None \<Rightarrow> throwM (jobExecutionAlreadyRunningError name)
      | Some inst \<Rightarrow> bindM (executeRow dd (selectRunning (ir_id inst))) (\<lambda>running. case running of
          Some r \<Rightarrow> throwM (jobExecutionAlreadyRunningError (er_id r))
        | None \<Rightarrow> bindM (randomUUID drv) (\<lambda>execId.
            bindM (executeRow dd (bindM (insertExecutionRow drv (newExecutionRow drv execId (ir_id inst) params))
              (\<lambda>row. returnM (Some row)))) (drizzleInserted (mapJobExecution drv))))))))"

text \<open>The assignments joined by commas into one statement, as in \<open>PostgresTypeOrmJobRepository\<close>.\<close>

definition drizzleUpdateJobExecution :: "string \<Rightarrow> jobExecutionPatch \<Rightarrow> (sqlDatabase, unit) M" where
  "drizzleUpdateJobExecution i patch = (let sets = executionSets patch in
     case sets of [] \<Rightarrow> returnM () | _ \<Rightarrow> updateExecutionRow i (fold (\<lambda>f. f) sets))"

definition drizzleGetJobExecution :: "drizzleDriver \<Rightarrow> sqlDriver \<Rightarrow> string \<Rightarrow> (sqlDatabase, jobExecution option) M" where
  "drizzleGetJobExecution dd drv i = bindM (executeRow dd (selectExecution i)) (\<lambda>row.
     returnM (map_option (mapJobExecution drv) row))"

definition drizzleGetJobInstance :: "drizzleDriver \<Rightarrow> string \<Rightarrow> (sqlDatabase, jobInstance option) M" where
  "drizzleGetJobInstance dd i = bindM (executeRow dd (selectInstanceById i)) (\<lambda>row.
     returnM (map_option mapJobInstance row))"

definition drizzleFindJobInstances :: "drizzleDriver \<Rightarrow> jobInstanceFilter \<Rightarrow> (sqlDatabase, jobInstance list) M" where
  "drizzleFindJobInstances dd f = (let conditions = instanceConditions f in
     bindM (executeRows dd (getM (\<lambda>db. sort_key (\<lambda>r. (ir_created_at r, ir_id r))
       (case conditions of [] \<Rightarrow> batch_job_instance db
        | _ \<Rightarrow> filter (joinAnd conditions) (batch_job_instance db)))))
     (\<lambda>rows. returnM (map mapJobInstance rows)))"

definition drizzleFindJobExecutions :: "drizzleDriver \<Rightarrow> sqlDriver \<Rightarrow> jobExecutionFilter \<Rightarrow>
    (sqlDatabase, jobExecution list) M" where
  "drizzleFindJobExecutions dd drv f = (let conditions = executionConditions f in
     if ef_status f = Some [] then throwM (drv_syntaxError drv)
     else bindM (executeRows dd (getM (\<lambda>db. orderDescending (\<lambda>r. (nullsLast (er_start_time r), er_id r))
       (case conditions of [] \<Rightarrow> batch_job_execution db
        | _ \<Rightarrow> filter (joinAnd conditions) (batch_job_execution db)))))
     (\<lambda>rows. returnM (map (mapJobExecution drv) rows)))"

definition drizzleGetRunningJobExecution :: "drizzleDriver \<Rightarrow> sqlDriver \<Rightarrow> string \<Rightarrow>
    (sqlDatabase, jobExecution option) M" where
  "drizzleGetRunningJobExecution dd drv jobInstanceId =
     (if jobInstanceId = [] then returnM None
      else bindM (executeRow dd (getM (\<lambda>db. firstRow (orderDescending (\<lambda>r. nullsLast (er_start_time r))
          (filter (runningRow jobInstanceId) (batch_job_execution db))))))
        (\<lambda>row. returnM (map_option (mapJobExecution drv) row)))"

definition drizzleCreateStepExecution :: "drizzleDriver \<Rightarrow> sqlDriver \<Rightarrow> string \<Rightarrow> string \<Rightarrow>
    (sqlDatabase, stepExecution) M" where
  "drizzleCreateStepExecution dd drv jobExecutionId stepName =
     bindM (randomUUID drv) (\<lambda>stepId. bindM (getM sql_now) (\<lambda>now.
     bindM (executeRow dd (bindM (insertStepRow drv (newStepRow stepId jobExecutionId stepName now))
       (\<lambda>row. returnM (Some row)))) (drizzleInserted mapStepExecution)))"

definition drizzleUpdateStepExecution :: "string \<Rightarrow> stepExecutionPatch \<Rightarrow> (sqlDatabase, unit) M" where
  "drizzleUpdateStepExecution i patch = (let sets = stepSets patch in
     case sets of [] \<Rightarrow> returnM () | _ \<Rightarrow> updateStepRow i (fold (\<lambda>f. f) sets))"

definition drizzleGetStepExecution :: "drizzleDriver \<Rightarrow> string \<Rightarrow> (sqlDatabase, stepExecution option) M" where
  "drizzleGetStepExecution dd i = bindM (executeRow dd (selectStep i)) (\<lambda>row.
     returnM (map_option mapStepExecution row))"

definition drizzleFindStepExecutions :: "drizzleDriver \<Rightarrow> string \<Rightarrow> (sqlDatabase, stepExecution list) M" where
  "drizzleFindStepExecutions dd jobExecutionId =
     bindM (executeRows dd (getM (\<lambda>db. sort_key (\<lambda>r. (sr_created_at r, sr_id r))
       (filter (\<lambda>r. sr_job_execution_id r = jobExecutionId) (batch_step_execution db)))))
     (\<lambda>rows. returnM (map mapStepExecution rows))"

definition drizzleFindLatestStepExecution :: "drizzleDriver \<Rightarrow> string \<Rightarrow> string \<Rightarrow>
    (sqlDatabase, stepExecution option) M" where
  "drizzleFindLatestStepExecution dd jobExecutionId stepName =
     bindM (executeRow dd (getM (\<lambda>db. firstRow (orderDescending (\<lambda>r. (sr_created_at r, sr_id r))
       (filter (\<lambda>r. sr_job_execution_id r = jobExecutionId \<and> sr_step_name r = stepName)
         (batch_step_execution db))))))
     (\<lambda>row. returnM (map_option mapStepExecution row))"

definition drizzleGetExecutionContext :: "drizzleDriver \<Rightarrow> sqlDriver \<Rightarrow> executionScope \<Rightarrow>
    (sqlDatabase, executionContext) M" where
  "drizzleGetExecutionContext dd drv scope = bindM (executeRow dd (selectContext scope)) (\<lambda>row. case row of
       Some r \<Rightarrow> contextOfRow drv r
     | None \<Rightarrow> returnM \<lparr>ctx_data = JNull, ctx_version = 0\<rparr>)"

definition drizzleSaveExecutionContext :: "drizzleDriver \<Rightarrow> sqlDriver \<Rightarrow> executionScope \<Rightarrow> executionContext \<Rightarrow>
    int option \<Rightarrow> (sqlDatabase, unit) M" where
  "drizzleSaveExecutionContext dd drv scope ctx version =
     bindM (liftE (assertJsonTree ''$'' 0 (ctx_data ctx))) (\<lambda>_.
     bindM (executeRow dd (selectContext scope)) (\<lambda>existing.
       let nextVersion = (case version of
           Some v \<Rightarrow> v
         | None \<Rightarrow> (case existing of Some r \<Rightarrow> cr_version r + 1 | None \<Rightarrow> 1))
       in modifyM (putContextRow scope
            \<lparr>cr_data = drv_stringify drv (ctx_data ctx), cr_version = nextVersion\<rparr>)))"

definition drizzleJobRepository :: "drizzleDriver \<Rightarrow> sqlDriver \<Rightarrow> sqlDatabase jobRepository" where
  "drizzleJobRepository dd drv = \<lparr>
     repo_getOrCreateJobInstance = drizzleGetOrCreateJobInstance dd drv,
     repo_createJobExecution = drizzleCreateJobExecution dd drv,
     repo_createExecutionAtomic = drizzleCreateExecutionAtomic dd drv,
     repo_updateJobExecution = drizzleUpdateJobExecution,
     repo_getJobExecution = drizzleGetJobExecution dd drv,
     repo_getJobInstance = drizzleGetJobInstance dd,
     repo_findJobInstances = drizzleFindJobInstances dd,
     repo_findJobExecutions = drizzleFindJobExecutions dd drv,
     repo_getRunningJobExecution = drizzleGetRunningJobExecution dd drv,
     repo_createStepExecution = drizzleCreateStepExecution dd drv,
     repo_updateStepExecution = drizzleUpdateStepExecution,
     repo_getStepExecution = drizzleGetStepExecution dd,
     repo_findStepExecutions = drizzleFindStepExecutions dd,
     repo_getExecutionContext = drizzleGetExecutionContext dd drv,
     repo_saveExecutionContext = drizzleSaveExecutionContext dd drv,
     repo_findLatestStepExecution = drizzleFindLatestStepExecution dd\<rparr>"

end
