(* ===== verification/SqlAgreement.thy ===== *)
theory SqlAgreement
  imports SqlVariants
begin

text \<open>
  The repositories of \<open>SqlVariants\<close> against the TypeORM one: operation by operation they are the
  same function on the tables, up to the first version of a context, the empty list of
  statuses, and what only SQLite does. A repository that agrees with one that keeps the
  contract of the port keeps it too (\<open>repository_like\<close>).
\<close>

section \<open>Agreement carries the contract over\<close>

locale repository_like = repository_contract +
  fixes other :: "'a jobRepository"
  assumes like_getJobExecution: "repo_getJobExecution other i w = repo_getJobExecution repo i w"
    and like_updateJobExecution: "ok w \<Longrightarrow> repo_updateJobExecution other i p w = repo_updateJobExecution repo i p w"
    and like_createStepExecution: "ok w \<Longrightarrow> repo_createStepExecution other j name w = repo_createStepExecution repo j name w"
    and like_updateStepExecution: "ok w \<Longrightarrow> repo_updateStepExecution other i q w = repo_updateStepExecution repo i q w"
    and like_getExecutionContext: "ok w \<Longrightarrow> repo_getExecutionContext other sc w = repo_getExecutionContext repo sc w"
    and like_saveExecutionContext:
      "\<exists>n. repo_saveExecutionContext other sc c v w = repo_saveExecutionContext repo sc c (Some (orKeep v n)) w"
    and like_findLatestStepExecution:
      "ok w \<Longrightarrow> repo_findLatestStepExecution other j name w = repo_findLatestStepExecution repo j name w"
begin

lemma other_contract: "repository_contract other ok jobRow stepRow context_of"
proof (unfold_locales, goal_cases)
  case (1 w i e)
  then show ?case by (rule jobRow_id)
next
  case (2 i w)
  show ?case by (simp add: like_getJobExecution getJobExecution)
next
  case (3 w i e p)
  then show ?case using updateJobExecution [of w i e p] by (simp add: like_updateJobExecution)
next
  case (4 w i p)
  then show ?case using updateJobExecution_missing [of w i p] by (simp add: like_updateJobExecution)
next
  case (5 w j name)
  then show ?case using createStepExecution [of w j name] by (simp add: like_createStepExecution)
next
  case (6 w i s q)
  then show ?case using updateStepExecution [of w i s q] by (simp add: like_updateStepExecution)
next
  case (7 w sc)
  then show ?case using getExecutionContext [of w sc] by (simp add: like_getExecutionContext)
next
  case (8 w c sc v)
  obtain n where n: "repo_saveExecutionContext other sc c v w = repo_saveExecutionContext repo sc c (Some (orKeep v n)) w"
    using like_saveExecutionContext by blast
  have "orKeep (Some (orKeep v n)) m = orKeep v n" for m by simp
  with saveExecutionContext [OF 8, of sc "Some (orKeep v n)"] show ?case
    unfolding n by metis
next
  case (9 c err sc v w)
  then show ?case using like_saveExecutionContext [of sc c v w] saveExecutionContext_rejected by metis
next
  case (10 w j name)
  then show ?case using findLatestStepExecution [of w j name] by (simp add: like_findLatestStepExecution)
qed

end

sublocale repository_like \<subseteq> other: repository_contract other ok jobRow stepRow context_of
  by (rule other_contract)

section \<open>Statements\<close>

lemma bindM_return: "(\<And>x. f x = x) \<Longrightarrow> bindM m (\<lambda>x. returnM (f x)) = m"
  by (rule ext) (simp add: bindM_def split: prod.splits outcome.splits)

lemma executeRows_any [simp]: "executeRows dd query = query"
proof -
  have "rowsOf (executeResult dd rows) = rows" for rows :: "'r list" by (cases dd) simp_all
  then show ?thesis unfolding executeRows_def by (rule bindM_return)
qed

lemma executeRow_any [simp]: "executeRow dd query = query"
proof -
  have "firstRow (optionRows r) = r" for r :: "'r option" by (cases r) (simp_all add: optionRows_def)
  then show ?thesis
    unfolding executeRow_def executeRows_any bindM_assoc bindM_returnM by (rule bindM_return)
qed

lemma joinAnd_conditions:
  "joinAnd (instanceConditions f) = instanceWhere f"
  "joinAnd (executionConditions g) = executionWhere g"
  by (rule ext, simp add: joinAnd_def instanceConditions_def instanceWhere_def pushIf_def split: option.splits)
    (rule ext, simp add: joinAnd_def executionConditions_def executionWhere_def pushIf_def split: option.splits)

text \<open>Without a condition there is no \<open>WHERE\<close>, which is every row.\<close>

lemma filter_conditions: "(case cs of [] \<Rightarrow> rows | _ \<Rightarrow> filter (joinAnd cs) rows) = filter (joinAnd cs) rows"
  by (cases cs) (simp_all add: joinAnd_def)

lemma update_nothing:
  "updateExecutionRow i (\<lambda>r. r) = returnM ()" "updateStepRow i (\<lambda>r. r) = returnM ()"
  "updateExecutionRow i id = returnM ()" "updateStepRow i id = returnM ()"
  by (simp_all add: updateExecutionRow_def updateStepRow_def fun_eq_iff id_def)

lemma fold_sets:
  "fold (\<lambda>f. f) (executionSets p) = setExecution p" "fold (\<lambda>f. f) (stepSets q) = setStep q"
  by (rule ext, simp add: executionSets_def setExecution_def pushIf_def split: option.splits)
    (rule ext, simp add: stepSets_def setStep_def pushIf_def split: option.splits)

lemma sqlUpdate_statements:
  "sqlUpdateJobExecution i p = updateExecutionRow i (setExecution p)"
  "sqlUpdateStepExecution i q = updateStepRow i (setStep q)"
proof -
  have "setExecution emptyJobPatch = (\<lambda>r. r)" by (simp add: setExecution_def emptyJobPatch_def fun_eq_iff)
  then show "sqlUpdateJobExecution i p = updateExecutionRow i (setExecution p)"
    using update_nothing(1) by (simp add: sqlUpdateJobExecution_def) (simp add: updateExecutionRow_def)
  have "setStep (q\<lparr>sp_startTime := None, sp_endTime := None\<rparr>) = setStep q" by (simp add: setStep_def fun_eq_iff)
  moreover have "setStep emptyStepPatch = (\<lambda>r. r)" by (simp add: setStep_def emptyStepPatch_def fun_eq_iff)
  ultimately show "sqlUpdateStepExecution i q = updateStepRow i (setStep q)"
    using update_nothing(2) by (simp add: sqlUpdateStepExecution_def) (metis updateStepRow_def)
qed

lemma joined_sets:
  "(case executionSets p of [] \<Rightarrow> returnM () | _ \<Rightarrow> updateExecutionRow i (fold (\<lambda>f. f) (executionSets p)))
    = sqlUpdateJobExecution i p"
  "(case stepSets q of [] \<Rightarrow> returnM () | _ \<Rightarrow> updateStepRow i (fold (\<lambda>f. f) (stepSets q)))
    = sqlUpdateStepExecution i q"
  using fold_sets(1) [of p] fold_sets(2) [of q]
  by (auto simp: sqlUpdate_statements update_nothing split: list.split)

text \<open>Statements for one column each, one after the other, are one statement for all of them.\<close>

lemma setColumn_execution:
  "prismaSetColumn x (\<lambda>v. updateExecutionRow i (f v)) = updateExecutionRow i (\<lambda>r. case x of None \<Rightarrow> r | Some v \<Rightarrow> f v r)"
  by (cases x) (simp_all add: prismaSetColumn_def update_nothing)

lemma setColumn_step:
  "prismaSetColumn x (\<lambda>v. updateStepRow i (f v)) = updateStepRow i (\<lambda>r. case x of None \<Rightarrow> r | Some v \<Rightarrow> f v r)"
  by (cases x) (simp_all add: prismaSetColumn_def update_nothing)

lemma updateExecutionRow_twice:
  "(\<And>r. er_id (f r) = er_id r) \<Longrightarrow>
   thenM (updateExecutionRow i f) (updateExecutionRow i g) = updateExecutionRow i (\<lambda>r. g (f r))"
  by (simp add: fun_eq_iff updateExecutionRow_def thenM_def bindM_def)

lemma updateStepRow_twice:
  "(\<And>r. sr_id (f r) = sr_id r) \<Longrightarrow>
   thenM (updateStepRow i f) (updateStepRow i g) = updateStepRow i (\<lambda>r. g (f r))"
  by (simp add: fun_eq_iff updateStepRow_def thenM_def bindM_def)

lemma prismaUpdate_one_statement:
  "prismaUpdateJobExecution i p = sqlUpdateJobExecution i p"
  "prismaUpdateStepExecution i q = sqlUpdateStepExecution i q"
proof -
  have "(\<lambda>r. case jp_exitMessage p of None \<Rightarrow> r | Some v \<Rightarrow> r\<lparr>er_exit_message := v\<rparr>)
      \<circ> (\<lambda>r. case jp_exitCode p of None \<Rightarrow> r | Some v \<Rightarrow> r\<lparr>er_exit_code := v\<rparr>)
      \<circ> (\<lambda>r. case jp_endTime p of None \<Rightarrow> r | Some v \<Rightarrow> r\<lparr>er_end_time := v\<rparr>)
      \<circ> (\<lambda>r. case jp_startTime p of None \<Rightarrow> r | Some v \<Rightarrow> r\<lparr>er_start_time := v\<rparr>)
      \<circ> (\<lambda>r. case jp_status p of None \<Rightarrow> r | Some v \<Rightarrow> r\<lparr>er_status := v\<rparr>) = setExecution p"
    by (rule ext) (simp add: setExecution_def split: option.splits)
  then show "prismaUpdateJobExecution i p = sqlUpdateJobExecution i p"
    unfolding prismaUpdateJobExecution_def setColumn_execution sqlUpdate_statements
    by (subst updateExecutionRow_twice, simp split: option.splits)+ (simp add: comp_def)
  have "(\<lambda>r. case sp_exitMessage q of None \<Rightarrow> r | Some v \<Rightarrow> r\<lparr>sr_exit_message := v\<rparr>)
      \<circ> (\<lambda>r. case sp_exitCode q of None \<Rightarrow> r | Some v \<Rightarrow> r\<lparr>sr_exit_code := v\<rparr>)
      \<circ> (\<lambda>r. case sp_commitCount q of None \<Rightarrow> r | Some v \<Rightarrow> r\<lparr>sr_commit_count := v\<rparr>)
      \<circ> (\<lambda>r. case sp_rollbackCount q of None \<Rightarrow> r | Some v \<Rightarrow> r\<lparr>sr_rollback_count := v\<rparr>)
      \<circ> (\<lambda>r. case sp_skipCount q of None \<Rightarrow> r | Some v \<Rightarrow> r\<lparr>sr_skip_count := v\<rparr>)
      \<circ> (\<lambda>r. case sp_writeCount q of None \<Rightarrow> r | Some v \<Rightarrow> r\<lparr>sr_write_count := v\<rparr>)
      \<circ> (\<lambda>r. case sp_readCount q of None \<Rightarrow> r | Some v \<Rightarrow> r\<lparr>sr_read_count := v\<rparr>)
      \<circ> (\<lambda>r. case sp_status q of None \<Rightarrow> r | Some v \<Rightarrow> r\<lparr>sr_row_status := v\<rparr>) = setStep q"
    by (rule ext) (simp add: setStep_def split: option.splits)
  then show "prismaUpdateStepExecution i q = sqlUpdateStepExecution i q"
    unfolding prismaUpdateStepExecution_def setColumn_step sqlUpdate_statements
    by (subst updateStepRow_twice, simp split: option.splits)+ (simp add: comp_def)
qed

section \<open>Job instances\<close>

lemma prismaGetOrCreate_same: "prismaGetOrCreateJobInstance drv name jobKey = sqlGetOrCreateJobInstance drv name jobKey"
  unfolding prismaGetOrCreateJobInstance_def sqlGetOrCreateJobInstance_def notReadBack_def ..

lemma drizzleGetOrCreate_same: "drizzleGetOrCreateJobInstance dd drv name jobKey = sqlGetOrCreateJobInstance drv name jobKey"
  unfolding drizzleGetOrCreateJobInstance_def sqlGetOrCreateJobInstance_def notReadBack_def executeRows_any executeRow_any ..

lemma pgGetOrCreate_same: "pgGetOrCreateJobInstance drv name jobKey db = sqlGetOrCreateJobInstance drv name jobKey db"
proof (cases "filter (hasKey name jobKey) (batch_job_instance db)")
  case (Cons r rs)
  then show ?thesis
    by (simp add: pgGetOrCreateJobInstance_def sqlGetOrCreateJobInstance_def selectInstance_def bindM_def)
next
  case Nil
  let ?db = "db\<lparr>sql_uuids := sql_uuids db + 1\<rparr>" and ?i = "drv_uuid drv (sql_uuids db)"
  let ?row = "\<lparr>ir_id = ?i, ir_job_name = name, ir_job_key = jobKey, ir_created_at = sql_now db\<rparr>"
  from Nil have none: "\<not> (\<exists>r \<in> set (batch_job_instance db). hasKey name jobKey r)"
    by (auto simp: filter_empty_conv)
  show ?thesis
  proof (cases "?i \<in> set (map ir_id (batch_job_instance db))")
    case True
    then have "insertInstanceOnConflict drv ?i name jobKey ?db = (Throw (drv_primaryKeyViolation drv), ?db)"
      using none by (simp add: insertInstanceOnConflict_def)
    then show ?thesis using Nil
      by (simp add: pgGetOrCreateJobInstance_def sqlGetOrCreateJobInstance_def selectInstance_def randomUUID_def
          bindM_def thenM_def catchM_def notReadBack_def)
  next
    case False
    then have "insertInstanceOnConflict drv ?i name jobKey ?db
        = (Value [?row], ?db\<lparr>batch_job_instance := batch_job_instance db @ [?row]\<rparr>)"
      using none by (simp add: insertInstanceOnConflict_def Let_def)
    then show ?thesis using Nil
      by (simp add: pgGetOrCreateJobInstance_def sqlGetOrCreateJobInstance_def selectInstance_def randomUUID_def
          bindM_def thenM_def catchM_def hasKey_def)
  qed
qed

lemma getJobInstance_same:
  "pgGetJobInstance = sqlGetJobInstance" "prismaGetJobInstance = sqlGetJobInstance" "drizzleGetJobInstance dd = sqlGetJobInstance"
  by (simp_all add: fun_eq_iff pgGetJobInstance_def prismaGetJobInstance_def drizzleGetJobInstance_def sqlGetJobInstance_def
      selectInstanceById_def bindM_def)

lemma findJobInstances_same:
  "pgFindJobInstances = sqlFindJobInstances" "prismaFindJobInstances = sqlFindJobInstances"
  "drizzleFindJobInstances dd = sqlFindJobInstances"
proof -
  show "pgFindJobInstances = sqlFindJobInstances"
    by (simp add: fun_eq_iff pgFindJobInstances_def sqlFindJobInstances_def joinAnd_conditions)
  show "drizzleFindJobInstances dd = sqlFindJobInstances"
    by (simp add: fun_eq_iff drizzleFindJobInstances_def sqlFindJobInstances_def filter_conditions joinAnd_conditions Let_def bindM_def)
  show "prismaFindJobInstances = sqlFindJobInstances"
  proof (rule ext)
    fix f
    have "instanceWhere f = (\<lambda>r. (case if_jobName f of None \<Rightarrow> True | Some n \<Rightarrow> ir_job_name r = n)
       \<and> (case if_jobKey f of None \<Rightarrow> True | Some k \<Rightarrow> ir_job_key r = k))"
      by (rule ext) (rule instanceWhere_def)
    then show "prismaFindJobInstances f = sqlFindJobInstances f"
      by (cases "if_jobName f"; cases "if_jobKey f") (simp_all add: prismaFindJobInstances_def sqlFindJobInstances_def)
  qed
qed

section \<open>Job executions\<close>

lemma pgInsertExecution_same: "pgInsertExecution drv instanceId params = sqlCreateJobExecution drv instanceId params"
proof (rule ext)
  fix db :: sqlDatabase
  let ?i = "drv_uuid drv (sql_uuids db)"
  let ?row = "newExecutionRow drv ?i instanceId params"
  have ident: "er_id ?row = ?i" by (simp add: newExecutionRow_def)
  show "pgInsertExecution drv instanceId params db = sqlCreateJobExecution drv instanceId params db"
  proof (cases "?i \<in> set (map er_id (batch_job_execution db))")
    case True
    then show ?thesis
      by (simp add: pgInsertExecution_def sqlCreateJobExecution_def randomUUID_def bindM_def thenM_def insertExecutionRow_def ident)
  next
    case False
    then have "filter (\<lambda>r. er_id r = ?i) (batch_job_execution db) = []"
      unfolding filter_empty_conv by (metis image_eqI set_map)
    with False show ?thesis
      by (simp add: pgInsertExecution_def sqlCreateJobExecution_def randomUUID_def bindM_def thenM_def insertExecutionRow_def
          selectExecution_def ident)
  qed
qed

lemma createJobExecution_same:
  "pgCreateJobExecution = sqlCreateJobExecution" "prismaCreateJobExecution = sqlCreateJobExecution"
  "drizzleCreateJobExecution dd = sqlCreateJobExecution"
proof -
  show "pgCreateJobExecution = sqlCreateJobExecution"
    by (intro ext) (simp add: pgCreateJobExecution_def pgInsertExecution_same)
  show "prismaCreateJobExecution = sqlCreateJobExecution"
    by (intro ext) (simp add: prismaCreateJobExecution_def sqlCreateJobExecution_def)
  show "drizzleCreateJobExecution dd = sqlCreateJobExecution"
    by (intro ext) (simp only: drizzleCreateJobExecution_def sqlCreateJobExecution_def executeRow_any bindM_assoc
        bindM_returnM drizzleInserted_def option.case)
qed

text \<open>The two reads under the lock, and what follows them.\<close>

lemma lock_same:
  "\<not> sql_isSqlite db \<Longrightarrow> bindM (selectForUpdateSkipLocked name jobKey) (\<lambda>locked. case locked of
      None \<Rightarrow> throwM (jobExecutionAlreadyRunningError name) | Some inst \<Rightarrow> k (ir_id inst)) db
    = bindM (lockInstance name jobKey) k db"
  by (simp add: selectForUpdateSkipLocked_def lockInstance_def bindM_def split: option.splits)

lemma running_same:
  "bindM (selectRunning i) (\<lambda>running. case running of
      Some r \<Rightarrow> throwM (jobExecutionAlreadyRunningError (er_id r)) | None \<Rightarrow> k)
    = thenM (checkNotRunning i) k"
  by (simp add: fun_eq_iff selectRunning_def checkNotRunning_def thenM_def bindM_def split: option.splits)

lemma insertInstance_sqlite:
  "insertInstanceOnConflict drv i name jobKey db = (r, db') \<Longrightarrow> sql_isSqlite db' = sql_isSqlite db"
  by (auto simp: insertInstanceOnConflict_def Let_def split: if_splits)

lemma createExecutionAtomic_same:
  assumes "\<not> sql_isSqlite db"
  shows "pgCreateExecutionAtomic drv name jobKey params db = sqlCreateExecutionAtomic drv name jobKey params db"
    and "prismaCreateExecutionAtomic drv name jobKey params db = sqlCreateExecutionAtomic drv name jobKey params db"
    and "drizzleCreateExecutionAtomic dd drv name jobKey params db = sqlCreateExecutionAtomic drv name jobKey params db"
proof -
  let ?insert = "\<lambda>i. bindM (randomUUID drv) (\<lambda>execId.
      bindM (insertExecutionRow drv (newExecutionRow drv execId i params)) (\<lambda>row. returnM (mapJobExecution drv row)))"
  let ?locked = "\<lambda>i. thenM (checkNotRunning i) (?insert i)"
  have "bindM (randomUUID drv) (\<lambda>u. thenM (insertInstanceOnConflict drv u name jobKey)
      (bindM (selectForUpdateSkipLocked name jobKey) (\<lambda>locked. case locked of
          None \<Rightarrow> throwM (jobExecutionAlreadyRunningError name) | Some inst \<Rightarrow> ?locked (ir_id inst)))) db
    = bindM (randomUUID drv) (\<lambda>u. thenM (insertInstanceOnConflict drv u name jobKey)
      (bindM (lockInstance name jobKey) ?locked)) db"
    (is "?m db = ?m' db")
  proof -
    let ?db = "db\<lparr>sql_uuids := sql_uuids db + 1\<rparr>"
    obtain r db' where ins: "insertInstanceOnConflict drv (drv_uuid drv (sql_uuids db)) name jobKey ?db = (r, db')"
      by (metis surj_pair)
    then have "\<not> sql_isSqlite db'" using insertInstance_sqlite assms by fastforce
    from lock_same [OF this, of name jobKey ?locked] ins show ?thesis
      by (cases r) (simp_all add: randomUUID_def bindM_def thenM_def)
  qed
  then have eq: "transactionM ?m db = sqlCreateExecutionAtomic drv name jobKey params db"
    unfolding sqlCreateExecutionAtomic_def by (simp only: transactionM_def)
  show "pgCreateExecutionAtomic drv name jobKey params db = sqlCreateExecutionAtomic drv name jobKey params db"
    unfolding eq [symmetric] pgCreateExecutionAtomic_def running_same pgInsertExecution_same sqlCreateJobExecution_def ..
  show "prismaCreateExecutionAtomic drv name jobKey params db = sqlCreateExecutionAtomic drv name jobKey params db"
    unfolding eq [symmetric] prismaCreateExecutionAtomic_def running_same ..
  show "drizzleCreateExecutionAtomic dd drv name jobKey params db = sqlCreateExecutionAtomic drv name jobKey params db"
    unfolding eq [symmetric] drizzleCreateExecutionAtomic_def running_same executeRow_any bindM_assoc bindM_returnM
      drizzleInserted_def option.case ..
qed

lemma updateJobExecution_same:
  "pgUpdateJobExecution = sqlUpdateJobExecution" "prismaUpdateJobExecution = sqlUpdateJobExecution"
  "drizzleUpdateJobExecution = sqlUpdateJobExecution"
  by (intro ext, simp only: pgUpdateJobExecution_def drizzleUpdateJobExecution_def prismaUpdate_one_statement joined_sets Let_def)+

lemma getJobExecution_same:
  "pgGetJobExecution = sqlGetJobExecution" "prismaGetJobExecution = sqlGetJobExecution"
  "drizzleGetJobExecution dd = sqlGetJobExecution"
  by (simp_all add: fun_eq_iff pgGetJobExecution_def prismaGetJobExecution_def drizzleGetJobExecution_def sqlGetJobExecution_def
      selectExecution_def bindM_def)

lemma filter_orderDescending: "filter P (orderDescending key xs) = orderDescending key (filter P xs)"
  by (simp add: orderDescending_def filter_sort rev_filter [symmetric])

lemma prismaStartedWithin_where:
  "prismaStartedWithin f r \<longleftrightarrow> executionWhere (f\<lparr>ef_jobInstanceId := None, ef_status := None\<rparr>) r"
  by (auto simp: prismaStartedWithin_def executionWhere_def Let_def split: option.splits)

lemma findJobExecutions_same:
  assumes "\<not> sql_isSqlite db"
  shows "pgFindJobExecutions drv f db = sqlFindJobExecutions drv f db"
    and "drizzleFindJobExecutions dd drv f db = sqlFindJobExecutions drv f db"
    and "ef_status f \<noteq> Some [] \<Longrightarrow> prismaFindJobExecutions drv f db = sqlFindJobExecutions drv f db"
proof -
  show "pgFindJobExecutions drv f db = sqlFindJobExecutions drv f db"
    using assms by (simp add: pgFindJobExecutions_def sqlFindJobExecutions_def joinAnd_conditions bindM_def)
  show "drizzleFindJobExecutions dd drv f db = sqlFindJobExecutions drv f db"
    using assms by (simp add: drizzleFindJobExecutions_def sqlFindJobExecutions_def filter_conditions joinAnd_conditions Let_def bindM_def)
  have "executionWhere f = (\<lambda>r. (case ef_jobInstanceId f of None \<Rightarrow> True | Some i \<Rightarrow> er_job_instance_id r = i)
      \<and> (case ef_status f of None \<Rightarrow> True | Some ss \<Rightarrow> er_status r \<in> set ss) \<and> prismaStartedWithin f r)"
    by (rule ext) (auto simp: prismaStartedWithin_where executionWhere_def)
  then have "prismaFindJobExecutions drv f db = (Value (map (mapJobExecution drv)
      (orderDescending (\<lambda>r. (nullsLast (er_start_time r), er_id r)) (filter (executionWhere f) (batch_job_execution db)))), db)"
    by (simp add: prismaFindJobExecutions_def filter_orderDescending bindM_def)
  then show "ef_status f \<noteq> Some [] \<Longrightarrow> prismaFindJobExecutions drv f db = sqlFindJobExecutions drv f db"
    by (simp add: sqlFindJobExecutions_def bindM_def)
qed

lemma orderDescending_single: "length xs \<le> 1 \<Longrightarrow> orderDescending key xs = xs"
  by (cases xs) (simp_all add: orderDescending_def)

lemma getRunningJobExecution_same:
  "length (filter (runningRow i) (batch_job_execution db)) \<le> 1 \<Longrightarrow>
    pgGetRunningJobExecution drv i db = sqlGetRunningJobExecution drv i db"
  "prismaGetRunningJobExecution drv i db = sqlGetRunningJobExecution drv i db"
  "drizzleGetRunningJobExecution dd drv i db = sqlGetRunningJobExecution drv i db"
  by (simp_all add: pgGetRunningJobExecution_def sqlGetRunningJobExecution_def prismaGetRunningJobExecution_def
      drizzleGetRunningJobExecution_def orderDescending_single bindM_def)

section \<open>Step executions\<close>

lemma sqlCreateStepExecution_row:
  "sqlCreateStepExecution drv j name = bindM (randomUUID drv) (\<lambda>i. bindM (getM sql_now) (\<lambda>now.
     bindM (insertStepRow drv (newStepRow i j name now)) (\<lambda>row. returnM (mapStepExecution row))))"
  by (simp add: fun_eq_iff sqlCreateStepExecution_def randomUUID_def insertStepRow_def newStepRow_def bindM_def Let_def)

lemma pgCreateStep_same: "pgCreateStepExecution drv j name = sqlCreateStepExecution drv j name"
proof (rule ext)
  fix db :: sqlDatabase
  let ?i = "drv_uuid drv (sql_uuids db)"
  have ident: "sr_id (newStepRow ?i j name now) = ?i" for now by (simp add: newStepRow_def)
  show "pgCreateStepExecution drv j name db = sqlCreateStepExecution drv j name db"
  proof (cases "?i \<in> set (map sr_id (batch_step_execution db))")
    case True
    then show ?thesis
      by (simp add: pgCreateStepExecution_def sqlCreateStepExecution_row randomUUID_def bindM_def thenM_def insertStepRow_def ident)
  next
    case False
    then have "filter (\<lambda>r. sr_id r = ?i) (batch_step_execution db) = []"
      unfolding filter_empty_conv by (metis image_eqI set_map)
    with False show ?thesis
      by (simp add: pgCreateStepExecution_def sqlCreateStepExecution_row randomUUID_def bindM_def thenM_def insertStepRow_def
          selectStep_def ident)
  qed
qed

lemma createStepExecution_same:
  "pgCreateStepExecution = sqlCreateStepExecution" "prismaCreateStepExecution = sqlCreateStepExecution"
  "drizzleCreateStepExecution dd = sqlCreateStepExecution"
proof -
  show "pgCreateStepExecution = sqlCreateStepExecution"
    by (intro ext) (simp add: pgCreateStep_same)
  show "prismaCreateStepExecution = sqlCreateStepExecution"
    by (intro ext) (simp add: prismaCreateStepExecution_def sqlCreateStepExecution_row)
  show "drizzleCreateStepExecution dd = sqlCreateStepExecution"
    by (intro ext) (simp only: drizzleCreateStepExecution_def sqlCreateStepExecution_row executeRow_any bindM_assoc
        bindM_returnM drizzleInserted_def option.case)
qed

lemma updateStepExecution_same:
  "pgUpdateStepExecution = sqlUpdateStepExecution" "prismaUpdateStepExecution = sqlUpdateStepExecution"
  "drizzleUpdateStepExecution = sqlUpdateStepExecution"
  by (intro ext, simp only: pgUpdateStepExecution_def drizzleUpdateStepExecution_def prismaUpdate_one_statement joined_sets Let_def)+

lemma stepReads_same:
  "pgGetStepExecution = sqlGetStepExecution" "prismaGetStepExecution = sqlGetStepExecution"
  "drizzleGetStepExecution dd = sqlGetStepExecution"
  "pgFindStepExecutions = sqlFindStepExecutions" "prismaFindStepExecutions = sqlFindStepExecutions"
  "drizzleFindStepExecutions dd = sqlFindStepExecutions"
  "pgFindLatestStepExecution = sqlFindLatestStepExecution" "prismaFindLatestStepExecution = sqlFindLatestStepExecution"
  "drizzleFindLatestStepExecution dd = sqlFindLatestStepExecution"
  by (simp_all add: fun_eq_iff pgGetStepExecution_def prismaGetStepExecution_def drizzleGetStepExecution_def sqlGetStepExecution_def
      pgFindStepExecutions_def prismaFindStepExecutions_def drizzleFindStepExecutions_def sqlFindStepExecutions_def
      pgFindLatestStepExecution_def prismaFindLatestStepExecution_def drizzleFindLatestStepExecution_def
      sqlFindLatestStepExecution_def selectStep_def bindM_def)

section \<open>Contexts\<close>

lemma getExecutionContext_same:
  "pgGetExecutionContext = sqlGetExecutionContext" "prismaGetExecutionContext = sqlGetExecutionContext"
  "drizzleGetExecutionContext dd = sqlGetExecutionContext"
  by (simp_all add: fun_eq_iff pgGetExecutionContext_def prismaGetExecutionContext_def drizzleGetExecutionContext_def
      sqlGetExecutionContext_def selectContext_def contextOfRow_def bindM_def split: option.splits)

text \<open>The first version is 1 in two of the repositories and 0 in the others.\<close>

lemma saveExecutionContext_same:
  "prismaSaveExecutionContext drv scope c v db = sqlSaveExecutionContext drv scope c v db"
  "drizzleSaveExecutionContext dd drv scope c v db = pgSaveExecutionContext drv scope c v db"
  "pgSaveExecutionContext drv scope c v db = sqlSaveExecutionContext drv scope c
     (if v = None \<and> mapGet (contextTable scope db) (scopeId scope) = None then Some 1 else v) db"
  by (cases "assertJsonTree ''$'' 0 (ctx_data c)"; cases "mapGet (contextTable scope db) (scopeId scope)"; cases v;
      simp add: prismaSaveExecutionContext_def pgSaveExecutionContext_def drizzleSaveExecutionContext_def
        sqlSaveExecutionContext_def selectContext_def Let_def)+

section \<open>The repository of a mapper\<close>

datatype sqlMapper = TypeOrm | PostgresTypeOrm | Prisma | Drizzle drizzleDriver

fun sqlRepositoryOf :: "sqlMapper \<Rightarrow> sqlDriver \<Rightarrow> sqlDatabase jobRepository" where
  "sqlRepositoryOf TypeOrm drv = typeOrmJobRepository drv"
| "sqlRepositoryOf PostgresTypeOrm drv = postgresTypeOrmJobRepository drv"
| "sqlRepositoryOf Prisma drv = prismaJobRepository drv"
| "sqlRepositoryOf (Drizzle dd) drv = drizzleJobRepository dd drv"

lemmas repository_records =
  typeOrmJobRepository_def postgresTypeOrmJobRepository_def prismaJobRepository_def drizzleJobRepository_def

lemmas repositories_same =
  getJobInstance_same findJobInstances_same createJobExecution_same updateJobExecution_same getJobExecution_same
  createStepExecution_same updateStepExecution_same stepReads_same getExecutionContext_same

lemma sqlRepositoryOf_save:
  "repo_saveExecutionContext (sqlRepositoryOf m drv) scope c v db = sqlSaveExecutionContext drv scope c
     (if m \<in> {TypeOrm, Prisma} \<or> v \<noteq> None \<or> mapGet (contextTable scope db) (scopeId scope) \<noteq> None then v else Some 1) db"
  by (cases m) (simp_all add: repository_records saveExecutionContext_same)

text \<open>A save without a version is a save with the version it computes.\<close>

lemma sqlSave_versioned:
  "\<exists>n. sqlSaveExecutionContext drv scope c v db = sqlSaveExecutionContext drv scope c (Some (orKeep v n)) db"
proof -
  let ?n = "case mapGet (contextTable scope db) (scopeId scope) of Some r \<Rightarrow> cr_version r + 1 | None \<Rightarrow> 0"
  have "sqlSaveExecutionContext drv scope c v db = sqlSaveExecutionContext drv scope c (Some (orKeep v ?n)) db"
    by (cases "assertJsonTree ''$'' 0 (ctx_data c)"; cases v) (simp_all add: sqlSaveExecutionContext_def Let_def)
  then show ?thesis by blast
qed

lemma sqlRepository_like:
  assumes "driverOk drv"
  shows "repository_like (typeOrmJobRepository drv) (sqlInv drv) (sqlJobRow drv) sqlStepRow (sqlContext drv) (sqlRepositoryOf m drv)"
proof (intro repository_like.intro repository_like_axioms.intro, goal_cases)
  case 1
  show ?case by (rule typeOrm_contract [OF assms])
next
  case (7 sc c v w)
  show ?case
  proof (cases "m \<in> {TypeOrm, Prisma} \<or> v \<noteq> None \<or> mapGet (contextTable sc w) (scopeId sc) \<noteq> None")
    case True
    then show ?thesis using sqlSave_versioned [of drv sc c v w] by (simp add: sqlRepositoryOf_save typeOrmJobRepository_def)
  next
    case False
    then show ?thesis by (intro exI [of _ 1]) (simp add: sqlRepositoryOf_save typeOrmJobRepository_def)
  qed
qed (cases m; simp add: repository_records repositories_same)+

lemma sqlRepository_contract:
  "driverOk drv \<Longrightarrow> repository_contract (sqlRepositoryOf m drv) (sqlInv drv) (sqlJobRow drv) sqlStepRow (sqlContext drv)"
  by (rule repository_like.other_contract [OF sqlRepository_like])

lemma sqlRepositoryOf_createExecutionAtomic:
  "m = TypeOrm \<or> \<not> sql_isSqlite db \<Longrightarrow>
   repo_createExecutionAtomic (sqlRepositoryOf m drv) name jobKey params db = sqlCreateExecutionAtomic drv name jobKey params db"
  by (cases m) (simp_all add: repository_records createExecutionAtomic_same)

end
