(* ===== verification/SqlProperties.thy ===== *)
theory SqlProperties
  imports SqlConcurrency SqlAgreement JobProperties "HOL-Library.Countable"
begin

text \<open>
  The properties of the repositories over a relational database: they keep the contract of the
  port, so that the job executor over them implements the same flow machine as over the
  in-memory repository; they can be exchanged for one another; concurrent launches start at
  most one execution of an instance; and the points where the repositories are not alike.
\<close>

section \<open>A driver\<close>

text \<open>A text for every JSON value, standing for \<open>JSON.stringify\<close> in the examples.\<close>

instance number :: countable
  by countable_datatype

instance json :: countable
  by countable_datatype

definition exampleDriver :: sqlDriver where
  "exampleDriver = \<lparr>drv_uuid = deterministicIdGenerator ''uuid'', drv_stringify = (\<lambda>d. showNat (to_nat d)),
     drv_parse = (\<lambda>s. Inr (from_nat (readNat s))), drv_primaryKeyViolation = plainError ''duplicate key'',
     drv_syntaxError = plainError ''syntax error''\<rparr>"

lemma showNat_nonempty: "showNat n \<noteq> []"
  by (subst showNat.simps) simp

lemma exampleDriver_ok: "driverOk exampleDriver"
  by (simp add: driverOk_def exampleDriver_def deterministicIdGenerator_inj readNat_showNat showNat_nonempty
      del: readNat.simps)

interpretation sql: repository_contract "typeOrmJobRepository exampleDriver" "sqlInv exampleDriver"
    "sqlJobRow exampleDriver" sqlStepRow "sqlContext exampleDriver"
  by (rule typeOrm_contract [OF exampleDriver_ok])

interpretation mapped: repository_like "typeOrmJobRepository exampleDriver" "sqlInv exampleDriver"
    "sqlJobRow exampleDriver" sqlStepRow "sqlContext exampleDriver" "sqlRepositoryOf m exampleDriver" for m
  by (rule sqlRepository_like [OF exampleDriver_ok])

section \<open>The executor over the database\<close>

text \<open>
  The transaction managers open a transaction of their own. The repositories write through
  the data source or client they were given, not through the transaction's manager, so that
  nothing they write is rolled back; what is left of \<open>withTransaction\<close> on these tables is the
  identifier it draws.
\<close>

definition typeOrmWithTransaction :: "sqlDriver \<Rightarrow> (sqlDatabase, 'a) M \<Rightarrow> (sqlDatabase, 'a) M" where
  "typeOrmWithTransaction drv fn = bindM (randomUUID drv) (\<lambda>_. fn)"

definition pgWithTransaction :: "sqlDriver \<Rightarrow> (sqlDatabase, 'a) M \<Rightarrow> (sqlDatabase, 'a) M" where
  "pgWithTransaction drv fn = bindM (randomUUID drv) (\<lambda>_. fn)"

definition prismaWithTransaction :: "sqlDriver \<Rightarrow> (sqlDatabase, 'a) M \<Rightarrow> (sqlDatabase, 'a) M" where
  "prismaWithTransaction drv fn = bindM (randomUUID drv) (\<lambda>_. fn)"

definition drizzleWithTransaction :: "sqlDriver \<Rightarrow> (sqlDatabase, 'a) M \<Rightarrow> (sqlDatabase, 'a) M" where
  "drizzleWithTransaction drv fn = bindM (randomUUID drv) (\<lambda>_. fn)"

fun sqlTransactionOf :: "sqlMapper \<Rightarrow> sqlDriver \<Rightarrow> (sqlDatabase, 'a) M \<Rightarrow> (sqlDatabase, 'a) M" where
  "sqlTransactionOf TypeOrm drv fn = typeOrmWithTransaction drv fn"
| "sqlTransactionOf PostgresTypeOrm drv fn = pgWithTransaction drv fn"
| "sqlTransactionOf Prisma drv fn = prismaWithTransaction drv fn"
| "sqlTransactionOf (Drizzle dd) drv fn = drizzleWithTransaction drv fn"

definition sqlExecutor :: "sqlMapper \<Rightarrow> sqlDriver \<Rightarrow> sqlDatabase jobExecutor" where
  "sqlExecutor m drv = \<lparr>jx_repository = sqlRepositoryOf m drv,
     jx_writeTransaction = sqlTransactionOf m drv, jx_taskletTransaction = sqlTransactionOf m drv,
     jx_observer = noopObserver, jx_clock = sql_now\<rparr>"

lemma sqlTransactionOf_any: "sqlTransactionOf m drv fn = bindM (randomUUID drv) (\<lambda>_. fn)"
  by (cases m) (simp_all add: typeOrmWithTransaction_def pgWithTransaction_def prismaWithTransaction_def drizzleWithTransaction_def)

lemma sqlInv_uuids: "sqlInv drv db \<Longrightarrow> sqlInv drv (db\<lparr>sql_uuids := sql_uuids db + 1\<rparr>)"
  by (auto simp: sqlInv_def intro: idsOk_mono)

lemma runStepBody_sqlScript:
  "runStepBody fuel (sqlExecutor m drv) execution [] part (scriptTasklet i r) sid resume db
    = (Value (scriptResult r), db\<lparr>sql_uuids := sql_uuids db + 1\<rparr>)"
  by (cases r) (simp_all add: runStepBody_def scriptTasklet_def taskletContextFor_def sqlExecutor_def
      sqlTransactionOf_any randomUUID_def
      buildLegacyStepResolvers_def executeTasklet_no_listeners runTasklet_def resolveTasklet_def objectRef_def bindM_def)

lemma sqlScript_run:
  assumes "driverOk drv"
  shows "job_run (sqlExecutor m drv) (sqlInv drv) (sqlJobRow drv) sqlStepRow (sqlContext drv)
    execution (scriptJob script start ts b) part fuel"
proof (intro job_run.intro job_run_axioms.intro, goal_cases)
  case 1
  show ?case using sqlRepository_contract [OF assms] by (simp add: sqlExecutor_def)
next
  case (2 i step sid resume)
  then obtain r where "step = scriptTasklet i r" using script_step by fastforce
  moreover have "sqlJobRow drv (db\<lparr>sql_uuids := n\<rparr>) = sqlJobRow drv db" "sqlStepRow (db\<lparr>sql_uuids := n\<rparr>) = sqlStepRow db"
    for db n by (simp_all add: fun_eq_iff sqlJobRow_def sqlStepRow_def)
  ultimately show ?case using sqlInv_uuids by (simp add: runStepBody_sqlScript rowSafe_def)
qed (simp_all add: sqlExecutor_def noopObserver_def invoke_quiet)

section \<open>Launching\<close>

lemma sqlCreateExecutionAtomic_Value:
  assumes "sqlCreateExecutionAtomic drv name jobKey params db = (Value e, db')"
  shows "\<exists>rows i. fst (insertInstanceOnConflict drv (drv_uuid drv (sql_uuids db)) name jobKey db) = Value rows
    \<and> filter (runningRow i) (batch_job_execution db) = []
    \<and> e = mapJobExecution drv (newExecutionRow drv (drv_uuid drv (sql_uuids db + 1)) i params)
    \<and> drv_uuid drv (sql_uuids db + 1) \<notin> set (map er_id (batch_job_execution db))
    \<and> db' = db\<lparr>sql_uuids := sql_uuids db + 2, batch_job_instance := batch_job_instance db @ rows,
        batch_job_execution := batch_job_execution db
          @ [newExecutionRow drv (drv_uuid drv (sql_uuids db + 1)) i params]\<rparr>"
proof -
  let ?u = "drv_uuid drv (sql_uuids db)" and ?db = "db\<lparr>sql_uuids := sql_uuids db + 1\<rparr>"
  obtain r db2 where ins: "insertInstanceOnConflict drv ?u name jobKey ?db = (r, db2)" by (metis surj_pair)
  have r: "r = fst (insertInstanceOnConflict drv ?u name jobKey db)"
    using ins insertInstance_uuids [where n = "sql_uuids db + 1" and db = db and i = ?u and drv = drv] by (metis fst_conv)
  obtain rows where rows: "r = Value rows"
    using assms ins by (cases r) (auto simp: sqlCreateExecutionAtomic_def transactionM_def randomUUID_def thenM_def bindM_def)
  have db2: "db2 = ?db\<lparr>batch_job_instance := batch_job_instance db @ rows\<rparr>"
    using insertInstance_effect [OF ins] rows by simp
  let ?create = "\<lambda>i. bindM (randomUUID drv) (\<lambda>execId.
      bindM (insertExecutionRow drv (newExecutionRow drv execId i params)) (\<lambda>row. returnM (mapJobExecution drv row)))"
  have "transactionM (\<lambda>_. bindM (lockInstance name jobKey) (\<lambda>i. thenM (checkNotRunning i) (?create i)) db2) db = (Value e, db')"
    using assms ins rows by (simp add: sqlCreateExecutionAtomic_def transactionM_def randomUUID_def thenM_def bindM_def)
  then have "bindM (lockInstance name jobKey) (\<lambda>i. thenM (checkNotRunning i) (?create i)) db2 = (Value e, db')"
    by (simp add: transactionM_def split: prod.splits outcome.splits)
  then obtain i db3 where i: "lockInstance name jobKey db2 = (Value i, db3)" "thenM (checkNotRunning i) (?create i) db3 = (Value e, db')"
    by (rule bindM_Value_elim)
  then have db3: "db3 = db2" by (simp add: lockInstance_reads)
  have "bindM (checkNotRunning i) (\<lambda>_. ?create i) db2 = (Value e, db')" using i(2) db3 by (simp add: thenM_def)
  then obtain u db4 where "checkNotRunning i db2 = (Value u, db4)" "?create i db4 = (Value e, db')"
    by (rule bindM_Value_elim)
  then have check: "checkNotRunning i db2 = (Value (), db2)" and create: "?create i db2 = (Value e, db')"
    by (auto simp: checkNotRunning_reads split: option.splits)
  have "filter (runningRow i) (batch_job_execution db) = []"
    using check db2 by (simp add: checkNotRunning_reads split: option.splits)
  moreover have "er_id (newExecutionRow drv x i params) = x" for x by (simp add: newExecutionRow_def)
  ultimately show ?thesis
    using create rows r db2
    by (intro exI [of _ rows] exI [of _ i]) (auto simp: randomUUID_def bindM_def insertExecutionRow_def split: if_splits)
qed

lemma sqlCreateExecutionAtomic_inv:
  assumes "driverOk drv" "sqlInv drv db" "sqlCreateExecutionAtomic drv name jobKey params db = (Value e, db')"
  shows "sqlInv drv db' \<and> sqlJobRow drv db' (je_id e) = Some e \<and> je_status e = JobStarting \<and> sqlStepRow db' = sqlStepRow db"
proof -
  let ?u = "drv_uuid drv (sql_uuids db)" and ?u' = "drv_uuid drv (sql_uuids db + 1)"
  obtain rows i where v: "fst (insertInstanceOnConflict drv ?u name jobKey db) = Value rows"
    "e = mapJobExecution drv (newExecutionRow drv ?u' i params)" "?u' \<notin> set (map er_id (batch_job_execution db))"
    "db' = db\<lparr>sql_uuids := sql_uuids db + 2, batch_job_instance := batch_job_instance db @ rows,
        batch_job_execution := batch_job_execution db @ [newExecutionRow drv ?u' i params]\<rparr>"
    using sqlCreateExecutionAtomic_Value [OF assms(3)] by blast
  note mono = idsOk_mono [of drv "sql_uuids db" _ "sql_uuids db + 2"]
  have inj: "inj (drv_uuid drv)" using assms(1) by (simp add: driverOk_def)
  have rows: "rows = [] \<or> (\<exists>row. rows = [row] \<and> ir_id row = ?u
      \<and> (ir_job_name row, ir_job_key row) \<notin> set (keysOf (batch_job_instance db)))"
  proof (cases "\<exists>r \<in> set (batch_job_instance db). hasKey name jobKey r")
    case True
    then show ?thesis using v(1) by (simp add: insertInstanceOnConflict_def)
  next
    case False
    then show ?thesis using v(1)
      by (auto simp: insertInstanceOnConflict_def Let_def hasKey_keysOf split: if_splits)
  qed
  have ids: "idsOk drv (sql_uuids db) (map ir_id (batch_job_instance db))" "distinct (keysOf (batch_job_instance db))"
    using assms(2) by (simp_all add: sqlInv_def keysOf_def)
  have "idsOk drv (sql_uuids db + 1) (map er_id (batch_job_execution db))"
    using assms(2) idsOk_mono [of drv "sql_uuids db" _ "sql_uuids db + 1"] by (simp add: sqlInv_def)
  from idsOk_snoc [OF inj this]
  have "idsOk drv (sql_uuids db + 2) (map er_id (batch_job_execution db) @ [?u'])" by simp
  moreover have "idsOk drv (sql_uuids db + 2) (map ir_id (batch_job_instance db @ rows))
      \<and> distinct (keysOf (batch_job_instance db @ rows))"
    using rows
  proof (elim disjE exE conjE)
    assume "rows = []"
    then show ?thesis using ids mono by simp
  next
    fix row
    assume row: "rows = [row]" "ir_id row = ?u"
      "(ir_job_name row, ir_job_key row) \<notin> set (keysOf (batch_job_instance db))"
    then have "idsOk drv (sql_uuids db + 2) (map ir_id (batch_job_instance db @ rows))"
      using idsOk_mono [OF idsOk_snoc [OF inj ids(1)], of "sql_uuids db + 2"] by simp
    then show ?thesis using row ids(2) by (simp add: keysOf_append) (simp add: keysOf_def)
  qed
  ultimately have "sqlInv drv db'"
    using assms(2) mono by (simp add: v(4) sqlInv_def newExecutionRow_def keysOf_def)
  moreover have "filter (\<lambda>r. er_id r = ?u') (batch_job_execution db) = []"
    unfolding filter_empty_conv using v(3) by (metis image_eqI set_map)
  ultimately show ?thesis
    by (simp add: v(2,4) sqlJobRow_def sqlStepRow_def mapJobExecution_def newExecutionRow_def fun_eq_iff)
qed


text \<open>The repair job of \<open>JobProperties\<close>, launched on an empty database.\<close>

definition sqlRepairJob :: "(sqlDatabase, unit) jobDefinition" where
  "sqlRepairJob = scriptJob [(''load'', Inl (plainError ''no input'')), (''repair'', Inr (Some ''fixed'')), (''store'', Inr None)]
     ''load'' [\<lparr>fromStepId = ''load'', onStatus = ''FAILED'', toStepId = Some ''repair''\<rparr>,
       \<lparr>fromStepId = ''repair'', onStatus = ''*'', toStepId = None\<rparr>] False"

lemma sqlRepairJob_acyclic: "acyclic (flowsTo sqlRepairJob)"
  by (rule forward_acyclic) (simp_all add: sqlRepairJob_def wfMap_def)

definition firstLaunch :: "jobExecution outcome \<times> sqlDatabase" where
  "firstLaunch = sqlCreateExecutionAtomic exampleDriver ''job'' ''key'' [] emptyDatabase"

lemma firstLaunch_Value: "\<exists>e db. firstLaunch = (Value e, db) \<and> length (batch_job_execution db) = 1"
proof -
  let ?u = "drv_uuid exampleDriver"
  let ?inst = "\<lparr>ir_id = ?u 0, ir_job_name = ''job'', ir_job_key = ''key'', ir_created_at = 0\<rparr>"
  let ?db0 = "emptyDatabase\<lparr>sql_uuids := 1\<rparr>" and ?db1 = "emptyDatabase\<lparr>sql_uuids := 1, batch_job_instance := [?inst]\<rparr>"
  let ?row = "newExecutionRow exampleDriver (?u 1) (?u 0) []"
  let ?db2 = "emptyDatabase\<lparr>sql_uuids := 2, batch_job_instance := [?inst], batch_job_execution := [?row]\<rparr>"
  have "randomUUID exampleDriver emptyDatabase = (Value (?u 0), ?db0)"
    by (simp add: randomUUID_def emptyDatabase_def)
  moreover have "insertInstanceOnConflict exampleDriver (?u 0) ''job'' ''key'' ?db0 = (Value [?inst], ?db1)"
    by (simp add: insertInstanceOnConflict_def emptyDatabase_def Let_def)
  moreover have "lockInstance ''job'' ''key'' ?db1 = (Value (?u 0), ?db1)"
    by (simp add: lockInstance_reads hasKey_def emptyDatabase_def)
  moreover have "checkNotRunning (?u 0) ?db1 = (Value (), ?db1)"
    by (simp add: checkNotRunning_reads emptyDatabase_def)
  moreover have "bindM (randomUUID exampleDriver) (\<lambda>execId. bindM (insertExecutionRow exampleDriver
      (newExecutionRow exampleDriver execId (?u 0) [])) (\<lambda>row. returnM (mapJobExecution exampleDriver row))) ?db1
      = (Value (mapJobExecution exampleDriver ?row), ?db2)"
    by (simp add: randomUUID_def bindM_def insertExecutionRow_def emptyDatabase_def)
  ultimately have "firstLaunch = (Value (mapJobExecution exampleDriver ?row), ?db2)"
    unfolding firstLaunch_def sqlCreateExecutionAtomic_def transactionM_def thenM_def by (simp add: bindM_def)
  moreover have "length (batch_job_execution ?db2) = 1" by simp
  ultimately show ?thesis by blast
qed


section \<open>Concurrent launches\<close>

text \<open>
  C8: however the transactions of concurrent launches interleave on the database, with aborted
  ones, status updates and the passing of time between them, an instance never has two
  committed executions that are starting or started, no name and key has two instances, and
  no two open transactions hold the lock of one instance. The status updates are those that
  do not take a finished execution back to a running status.
\<close>
theorem sql_single_running:
  assumes "serverReachable drv srv"
  shows "(\<forall>i. length (filter (runningRow i) (batch_job_execution (srv_db srv))) \<le> 1)
    \<and> distinct (map (\<lambda>r. (ir_job_name r, ir_job_key r)) (batch_job_instance (srv_db srv)))
    \<and> (\<forall>t u tx tx'. t \<noteq> u \<and> srv_txs srv t = Some tx \<and> srv_txs srv u = Some tx' \<and> tx_lock tx \<noteq> None
        \<longrightarrow> tx_lock tx \<noteq> tx_lock tx')"
proof -
  note inv = serverReachable_inv [OF assms]
  have "tx_lock tx \<noteq> tx_lock tx'"
    if "t \<noteq> u" "srv_txs srv t = Some tx" "srv_txs srv u = Some tx'" "tx_lock tx \<noteq> None" for t u tx tx'
    using serverInv_locks [OF inv that(2,3)] that(1,4) by (metis not_None_eq)
  then show ?thesis using serverInv_db [OF inv, unfolded keysOf_def] by blast
qed

text \<open>A launch on an empty database, and a second transaction that begins behind it.\<close>

theorem sql_single_running_witness:
  "\<exists>srv tx. serverReachable exampleDriver srv \<and> srv_txs srv 1 = Some tx \<and> batch_job_execution (srv_db srv) \<noteq> []
    \<and> (\<forall>i. length (filter (runningRow i) (batch_job_execution (srv_db srv))) \<le> 1)"
proof -
  obtain e db where run: "firstLaunch = (Value e, db)" "length (batch_job_execution db) = 1" using firstLaunch_Value by blast
  let ?tx = "beginTx ''job'' ''key'' []"
  have first: "serverReachable exampleDriver (freshServer\<lparr>srv_db := db\<rparr>)"
    by (rule launch_reachable [OF server_start, where name = "''job''" and jobKey = "''key''" and params = "[]" and e = e])
      (use run(1) in \<open>simp_all add: freshServer_def firstLaunch_def emptyDatabase_def\<close>)
  let ?srv = "freshServer\<lparr>srv_db := db, srv_txs := [1 \<mapsto> ?tx]\<rparr>"
  have "serverStep exampleDriver (freshServer\<lparr>srv_db := db\<rparr>) ?srv"
    using step_begin [of "freshServer\<lparr>srv_db := db\<rparr>" 1 exampleDriver "''job''" "''key''" "[]"] by (simp add: freshServer_def)
  from sql_single_running [OF server_step [OF first this]] server_step [OF first this] run(2)
  show ?thesis by (intro exI [of _ ?srv] exI [of _ ?tx]) auto
qed

section \<open>One repository for another\<close>

text \<open>Two repositories whose operations return the same and leave the same tables behind.\<close>

definition sameOperations :: "sqlDatabase jobRepository \<Rightarrow> sqlDatabase jobRepository \<Rightarrow> sqlDatabase \<Rightarrow> bool" where
  "sameOperations r r' db \<longleftrightarrow>
     (\<forall>name jobKey. repo_getOrCreateJobInstance r name jobKey db = repo_getOrCreateJobInstance r' name jobKey db)
   \<and> (\<forall>i. repo_getJobInstance r i db = repo_getJobInstance r' i db)
   \<and> (\<forall>f. repo_findJobInstances r f db = repo_findJobInstances r' f db)
   \<and> (\<forall>i params. repo_createJobExecution r i params db = repo_createJobExecution r' i params db)
   \<and> (\<forall>name jobKey params. repo_createExecutionAtomic r name jobKey params db = repo_createExecutionAtomic r' name jobKey params db)
   \<and> (\<forall>i p. repo_updateJobExecution r i p db = repo_updateJobExecution r' i p db)
   \<and> (\<forall>i. repo_getJobExecution r i db = repo_getJobExecution r' i db)
   \<and> (\<forall>i. repo_getRunningJobExecution r i db = repo_getRunningJobExecution r' i db)
   \<and> (\<forall>i name. repo_createStepExecution r i name db = repo_createStepExecution r' i name db)
   \<and> (\<forall>i q. repo_updateStepExecution r i q db = repo_updateStepExecution r' i q db)
   \<and> (\<forall>i. repo_getStepExecution r i db = repo_getStepExecution r' i db)
   \<and> (\<forall>i. repo_findStepExecutions r i db = repo_findStepExecutions r' i db)
   \<and> (\<forall>i name. repo_findLatestStepExecution r i name db = repo_findLatestStepExecution r' i name db)
   \<and> (\<forall>scope. repo_getExecutionContext r scope db = repo_getExecutionContext r' scope db)"



section \<open>Where the repositories differ\<close>


text \<open>One instance, locked by another transaction, and one step execution.\<close>

definition lockedDatabase :: sqlDatabase where
  "lockedDatabase = emptyDatabase\<lparr>
     batch_job_instance := [\<lparr>ir_id = drv_uuid exampleDriver 0, ir_job_name = ''job'', ir_job_key = ''key'', ir_created_at = 0\<rparr>],
     batch_step_execution := [\<lparr>sr_id = drv_uuid exampleDriver 1, sr_job_execution_id = ''gone'', sr_step_name = ''load'',
       sr_row_status = StepStarting, sr_read_count = 0, sr_write_count = 0, sr_skip_count = 0, sr_rollback_count = 0,
       sr_commit_count = 0, sr_exit_code = [], sr_exit_message = [], sr_created_at = 0\<rparr>],
     sql_uuids := 2, sql_lockedByOthers := [drv_uuid exampleDriver 0]\<rparr>"


end
