(* ===== verification/MikroOrm.thy ===== *)
theory MikroOrm
  imports SqlProperties
begin

text \<open>
  \<open>MikroORMJobRepository\<close> (\<open>packages/mikro-orm/src/mikroorm-job-repository.ts\<close>) on PostgreSQL,
  over the tables and statements of the other repositories.

  Every operation runs in a request context of its own, so that the identity map is empty:
  \<open>findOne\<close> reads a row, \<open>flush\<close> writes the properties that were assigned, \<open>persistAndFlush\<close>
  inserts the entity and reads back the columns left to their default. An entity's
  properties are in camel case; \<open>em.execute\<close> returns rows under the column names.
\<close>

section \<open>Instances and executions\<close>

definition mikroGetOrCreateJobInstance :: "sqlDriver \<Rightarrow> string \<Rightarrow> string \<Rightarrow> (sqlDatabase, jobInstance) M" where
  "mikroGetOrCreateJobInstance drv name jobKey =
     bindM (selectInstance name jobKey) (\<lambda>existing. case existing of
       Some r \<Rightarrow> returnM (mapJobInstance r)
     | None \<Rightarrow> bindM (randomUUID drv) (\<lambda>i.
         bindM (insertInstanceOnConflict drv i name jobKey) (\<lambda>rows. case firstRow rows of
           Some r \<Rightarrow> returnM (mapJobInstance r)
         | None \<Rightarrow> bindM (selectInstance name jobKey) (\<lambda>winner. case winner of
             None \<Rightarrow> throwM (plainError (''JobInstance race lost but no row found for ('' @ name @ '', '' @ jobKey @ '')''))
           | Some r \<Rightarrow> returnM (mapJobInstance r)))))"

text \<open>The parameters of a new execution are those passed in, not the serialized ones.\<close>

definition mikroCreateJobExecution :: "sqlDriver \<Rightarrow> string \<Rightarrow> jobParameters \<Rightarrow> (sqlDatabase, jobExecution) M" where
  "mikroCreateJobExecution drv jobInstanceId params =
     bindM (randomUUID drv) (\<lambda>i.
     bindM (insertExecutionRow drv (newExecutionRow drv i jobInstanceId params)) (\<lambda>row.
       returnM ((mapJobExecution drv row)\<lparr>je_params := params\<rparr>)))"

definition mikroCreateExecutionAtomic :: "sqlDriver \<Rightarrow> string \<Rightarrow> string \<Rightarrow> jobParameters \<Rightarrow>
    (sqlDatabase, jobExecution) M" where
  "mikroCreateExecutionAtomic drv name jobKey params = transactionM (
     bindM (randomUUID drv) (\<lambda>instId.
     thenM (insertInstanceOnConflict drv instId name jobKey)
     (bindM (selectForUpdateSkipLocked name jobKey) (\<lambda>rows. case rows of
        None \<Rightarrow> throwM (jobExecutionAlreadyRunningError name)
      | Some inst \<Rightarrow> bindM (selectRunning (ir_id inst)) (\<lambda>running. case running of
          Some r \<Rightarrow> throwM (jobExecutionAlreadyRunningError (er_id r))
        | None \<Rightarrow> bindM (randomUUID drv) (\<lambda>i.
            bindM (insertExecutionRow drv (newExecutionRow drv i (ir_id inst) params)) (\<lambda>row.
              returnM ((mapJobExecution drv row)\<lparr>je_params := params\<rparr>))))))))"

definition mikroUpdateJobExecution :: "string \<Rightarrow> jobExecutionPatch \<Rightarrow> (sqlDatabase, unit) M" where
  "mikroUpdateJobExecution i patch = bindM (selectExecution i) (\<lambda>e. case e of
       None \<Rightarrow> throwM (plainError (''JobExecution not found: '' @ i))
     | Some _ \<Rightarrow> updateExecutionRow i (setExecution patch))"

definition mikroGetJobExecution :: "sqlDriver \<Rightarrow> string \<Rightarrow> (sqlDatabase, jobExecution option) M" where
  "mikroGetJobExecution drv i = bindM (selectExecution i) (\<lambda>e. returnM (map_option (mapJobExecution drv) e))"

definition mikroGetJobInstance :: "string \<Rightarrow> (sqlDatabase, jobInstance option) M" where
  "mikroGetJobInstance i = bindM (selectInstanceById i) (\<lambda>e. returnM (map_option mapJobInstance e))"

definition mikroFindJobInstances :: "jobInstanceFilter \<Rightarrow> (sqlDatabase, jobInstance list) M" where
  "mikroFindJobInstances f = getM (\<lambda>db. map mapJobInstance (sort_key (\<lambda>r. (ir_created_at r, ir_id r))
     (filter (joinAnd (instanceConditions f)) (batch_job_instance db))))"

text \<open>\<open>orderBy startTime DESC\<close>: PostgreSQL puts the executions without a start first.\<close>

definition mikroFindJobExecutions :: "sqlDriver \<Rightarrow> jobExecutionFilter \<Rightarrow> (sqlDatabase, jobExecution list) M" where
  "mikroFindJobExecutions drv f = getM (\<lambda>db. map (mapJobExecution drv)
     (orderDescending (\<lambda>r. (nullsFirst (er_start_time r), er_id r))
       (filter (joinAnd (executionConditions f)) (batch_job_execution db))))"

definition mikroGetRunningJobExecution :: "sqlDriver \<Rightarrow> string \<Rightarrow> (sqlDatabase, jobExecution option) M" where
  "mikroGetRunningJobExecution drv jobInstanceId = bindM (selectRunning jobInstanceId) (\<lambda>e.
     returnM (map_option (mapJobExecution drv) e))"

section \<open>Step executions\<close>

definition mikroCreateStepExecution :: "sqlDriver \<Rightarrow> string \<Rightarrow> string \<Rightarrow> (sqlDatabase, stepExecution) M" where
  "mikroCreateStepExecution drv jobExecutionId stepName = bindM (getM sql_now) (\<lambda>createdAt.
     bindM (randomUUID drv) (\<lambda>i.
     bindM (insertStepRow drv (newStepRow i jobExecutionId stepName createdAt)) (\<lambda>row.
       returnM (mapStepExecution row))))"

definition mikroUpdateStepExecution :: "string \<Rightarrow> stepExecutionPatch \<Rightarrow> (sqlDatabase, unit) M" where
  "mikroUpdateStepExecution i patch = bindM (selectStep i) (\<lambda>s. case s of
       None \<Rightarrow> throwM (plainError (''StepExecution not found: '' @ i))
     | Some _ \<Rightarrow> updateStepRow i (setStep patch))"

definition mikroGetStepExecution :: "string \<Rightarrow> (sqlDatabase, stepExecution option) M" where
  "mikroGetStepExecution i = bindM (selectStep i) (\<lambda>s. returnM (map_option mapStepExecution s))"

definition mikroFindStepExecutions :: "string \<Rightarrow> (sqlDatabase, stepExecution list) M" where
  "mikroFindStepExecutions jobExecutionId = getM (\<lambda>db. map mapStepExecution
     (sort_key sr_id (filter (\<lambda>r. sr_job_execution_id r = jobExecutionId) (batch_step_execution db))))"

text \<open>
  \<open>findLatestStepExecution\<close> reads rows with \<open>em.execute\<close> and maps them as entities. A property is
  \<open>undefined\<close>, here \<open>None\<close>, where the column has another name.
\<close>

record rawStepExecution =
  raw_id :: "string option"
  raw_jobExecutionId :: "string option"
  raw_stepName :: "string option"
  raw_status :: "StepStatus option"
  raw_readCount :: "int option"
  raw_writeCount :: "int option"
  raw_skipCount :: "int option"
  raw_rollbackCount :: "int option"
  raw_commitCount :: "int option"
  raw_exitCode :: "string option"
  raw_exitMessage :: "string option"

datatype column = TextColumn string | StatusColumn StepStatus | NumberColumn int

text \<open>The object \<open>SELECT *\<close> yields for a row.\<close>

definition rawColumns :: "stepExecutionRow \<Rightarrow> string \<Rightarrow> column option" where
  "rawColumns r = [''id'' \<mapsto> TextColumn (sr_id r), ''job_execution_id'' \<mapsto> TextColumn (sr_job_execution_id r),
     ''step_name'' \<mapsto> TextColumn (sr_step_name r), ''status'' \<mapsto> StatusColumn (sr_row_status r),
     ''read_count'' \<mapsto> NumberColumn (sr_read_count r), ''write_count'' \<mapsto> NumberColumn (sr_write_count r),
     ''skip_count'' \<mapsto> NumberColumn (sr_skip_count r), ''rollback_count'' \<mapsto> NumberColumn (sr_rollback_count r),
     ''commit_count'' \<mapsto> NumberColumn (sr_commit_count r), ''exit_code'' \<mapsto> TextColumn (sr_exit_code r),
     ''exit_message'' \<mapsto> TextColumn (sr_exit_message r)]"

fun asText :: "column option \<Rightarrow> string option" where
  "asText (Some (TextColumn s)) = Some s"
| "asText _ = None"

fun asStatus :: "column option \<Rightarrow> StepStatus option" where
  "asStatus (Some (StatusColumn s)) = Some s"
| "asStatus _ = None"

fun asNumber :: "column option \<Rightarrow> int option" where
  "asNumber (Some (NumberColumn n)) = Some n"
| "asNumber _ = None"

definition mikroMapStepExecution :: "(string \<Rightarrow> column option) \<Rightarrow> rawStepExecution" where
  "mikroMapStepExecution e = \<lparr>raw_id = asText (e ''id''), raw_jobExecutionId = asText (e ''jobExecutionId''),
     raw_stepName = asText (e ''stepName''), raw_status = asStatus (e ''status''),
     raw_readCount = asNumber (e ''readCount''), raw_writeCount = asNumber (e ''writeCount''),
     raw_skipCount = asNumber (e ''skipCount''), raw_rollbackCount = asNumber (e ''rollbackCount''),
     raw_commitCount = asNumber (e ''commitCount''), raw_exitCode = asText (e ''exitCode''),
     raw_exitMessage = asText (e ''exitMessage'')\<rparr>"

text \<open>\<open>ORDER BY ctid DESC\<close>: where PostgreSQL keeps a row is a parameter.\<close>

definition mikroFindLatestStepExecution :: "(sqlDatabase \<Rightarrow> stepExecutionRow \<Rightarrow> nat) \<Rightarrow> string \<Rightarrow> string \<Rightarrow>
    (sqlDatabase, rawStepExecution option) M" where
  "mikroFindLatestStepExecution ctid jobExecutionId stepName = getM (\<lambda>db.
     map_option (\<lambda>r. mikroMapStepExecution (rawColumns r)) (firstRow (orderDescending (ctid db)
       (filter (\<lambda>r. sr_job_execution_id r = jobExecutionId \<and> sr_step_name r = stepName) (batch_step_execution db)))))"

section \<open>Contexts\<close>

definition mikroGetExecutionContext :: "sqlDriver \<Rightarrow> executionScope \<Rightarrow> (sqlDatabase, executionContext) M" where
  "mikroGetExecutionContext drv scope = bindM (selectContext scope) (\<lambda>e. case e of
       Some r \<Rightarrow> bindM (liftE (drv_parse drv (cr_data r))) (\<lambda>d. returnM \<lparr>ctx_data = d, ctx_version = cr_version r\<rparr>)
     | None \<Rightarrow> returnM \<lparr>ctx_data = JNull, ctx_version = 0\<rparr>)"

definition mikroSaveExecutionContext :: "sqlDriver \<Rightarrow> executionScope \<Rightarrow> executionContext \<Rightarrow> int option \<Rightarrow>
    (sqlDatabase, unit) M" where
  "mikroSaveExecutionContext drv scope ctx version =
     bindM (liftE (assertJsonTree ''$'' 0 (ctx_data ctx))) (\<lambda>_.
     bindM (selectContext scope) (\<lambda>existing.
       let nextVersion = (case version of
           Some v \<Rightarrow> v
         | None \<Rightarrow> (case existing of Some r \<Rightarrow> cr_version r | None \<Rightarrow> 0) + 1)
       in modifyM (putContextRow scope
            \<lparr>cr_data = drv_stringify drv (ctx_data ctx), cr_version = nextVersion\<rparr>)))"

section \<open>Agreement with the TypeORM repository\<close>

lemma newExecution_params:
  "parseParams drv (drv_stringify drv (JObj params)) = params \<Longrightarrow>
   (mapJobExecution drv (newExecutionRow drv i inst params))\<lparr>je_params := params\<rparr>
     = mapJobExecution drv (newExecutionRow drv i inst params)"
  by (simp add: mapJobExecution_def newExecutionRow_def)

lemma insertExecutionRow_returns:
  "bindM (insertExecutionRow drv row) k = bindM (insertExecutionRow drv row) (\<lambda>_. k row)"
  by (rule ext) (simp add: insertExecutionRow_def bindM_def)

lemma mikroCreateJobExecution_same:
  assumes "parseParams drv (drv_stringify drv (JObj params)) = params"
  shows "mikroCreateJobExecution drv i params = sqlCreateJobExecution drv i params"
  unfolding mikroCreateJobExecution_def sqlCreateJobExecution_def
  by (subst (1 2) insertExecutionRow_returns) (simp only: newExecution_params [OF assms])

lemma mikroCreateExecutionAtomic_same:
  assumes "parseParams drv (drv_stringify drv (JObj params)) = params" "\<not> sql_isSqlite db"
  shows "mikroCreateExecutionAtomic drv name jobKey params db = sqlCreateExecutionAtomic drv name jobKey params db"
proof -
  have "bindM (randomUUID drv) (\<lambda>i. bindM (insertExecutionRow drv (newExecutionRow drv i inst params)) (\<lambda>row.
        returnM ((mapJobExecution drv row)\<lparr>je_params := params\<rparr>)))
      = bindM (randomUUID drv) (\<lambda>i. bindM (insertExecutionRow drv (newExecutionRow drv i inst params)) (\<lambda>row.
        returnM (mapJobExecution drv row)))" for inst
    by (subst (1 2) insertExecutionRow_returns) (simp only: newExecution_params [OF assms(1)])
  then have "mikroCreateExecutionAtomic drv name jobKey params = prismaCreateExecutionAtomic drv name jobKey params"
    unfolding mikroCreateExecutionAtomic_def prismaCreateExecutionAtomic_def by (simp only:)
  then show ?thesis using createExecutionAtomic_same(2) [OF assms(2)] by simp
qed

lemma mikroGetOrCreate_same:
  assumes "sqlInv drv db" "driverOk drv"
  shows "mikroGetOrCreateJobInstance drv name jobKey db = sqlGetOrCreateJobInstance drv name jobKey db"
proof (cases "filter (hasKey name jobKey) (batch_job_instance db)")
  case (Cons r rs)
  then show ?thesis
    by (simp add: mikroGetOrCreateJobInstance_def sqlGetOrCreateJobInstance_def selectInstance_def bindM_def)
next
  case Nil
  then have none: "\<not> (\<exists>r \<in> set (batch_job_instance db). hasKey name jobKey r)"
    by (auto simp: filter_empty_conv)
  have "drv_uuid drv (sql_uuids db) \<notin> set (map ir_id (batch_job_instance db))"
    using assms by (intro idsOk_fresh) (simp_all add: sqlInv_def driverOk_def)
  with none Nil show ?thesis
    by (simp add: mikroGetOrCreateJobInstance_def sqlGetOrCreateJobInstance_def selectInstance_def randomUUID_def
        insertInstanceOnConflict_def bindM_def catchM_def Let_def)
qed

lemma mikroUpdate_same:
  "mikroUpdateJobExecution i p db = (if sqlJobRow drv db i = None
     then (Throw (plainError (''JobExecution not found: '' @ i)), db) else sqlUpdateJobExecution i p db)"
  "mikroUpdateStepExecution i q db = (if sqlStepRow db i = None
     then (Throw (plainError (''StepExecution not found: '' @ i)), db) else sqlUpdateStepExecution i q db)"
  by (simp_all add: mikroUpdateJobExecution_def mikroUpdateStepExecution_def selectExecution_def selectStep_def
      sqlJobRow_def sqlStepRow_def sqlUpdate_statements bindM_def split: option.splits)

lemma mikroRunning_same:
  "length (filter (runningRow i) (batch_job_execution db)) \<le> 1 \<Longrightarrow> i \<noteq> [] \<Longrightarrow>
   mikroGetRunningJobExecution drv i db = sqlGetRunningJobExecution drv i db"
  by (simp add: mikroGetRunningJobExecution_def sqlGetRunningJobExecution_def selectRunning_def orderDescending_single bindM_def)

lemma mikroSave_same: "mikroSaveExecutionContext = pgSaveExecutionContext"
  unfolding mikroSaveExecutionContext_def pgSaveExecutionContext_def ..

lemma mikroLatest:
  assumes "mikroFindLatestStepExecution ctid j name db = (Value (Some s), db')"
  shows "\<exists>r \<in> set (batch_step_execution db). sr_job_execution_id r = j \<and> sr_step_name r = name
    \<and> s = \<lparr>raw_id = Some (sr_id r), raw_jobExecutionId = None, raw_stepName = None, raw_status = Some (sr_row_status r),
        raw_readCount = None, raw_writeCount = None, raw_skipCount = None, raw_rollbackCount = None,
        raw_commitCount = None, raw_exitCode = None, raw_exitMessage = None\<rparr>"
proof -
  obtain r where r: "firstRow (orderDescending (ctid db) (filter (\<lambda>r. sr_job_execution_id r = j \<and> sr_step_name r = name)
      (batch_step_execution db))) = Some r" "s = mikroMapStepExecution (rawColumns r)"
    using assms by (auto simp: mikroFindLatestStepExecution_def)
  from firstRow_set [OF r(1)] have "r \<in> set (batch_step_execution db)" "sr_job_execution_id r = j" "sr_step_name r = name"
    by simp_all
  then show ?thesis unfolding r(2) by (intro bexI [of _ r]) (simp_all add: mikroMapStepExecution_def rawColumns_def)
qed

lemma orderDescending_sorted: "sorted_wrt (\<lambda>a b. key b \<le> key a) (orderDescending key xs)"
  using sorted_sort_key [of key "rev xs"] by (simp add: orderDescending_def sorted_wrt_rev sorted_map)

lemma mikroFind_unstarted_first:
  "\<exists>es. mikroFindJobExecutions drv f db = (Value es, db)
    \<and> sorted_wrt (\<lambda>e e'. je_startTime e' = None \<longrightarrow> je_startTime e = None) es"
proof -
  let ?key = "\<lambda>r. (nullsFirst (er_start_time r), er_id r)"
  let ?rows = "orderDescending ?key (filter (joinAnd (executionConditions f)) (batch_job_execution db))"
  have "je_startTime (mapJobExecution drv a) = None"
    if "?key b \<le> ?key a" "je_startTime (mapJobExecution drv b) = None" for a b
    using that by (auto simp: mapJobExecution_def nullsFirst_def less_eq_prod_def less_prod_def split: option.splits)
  then have "sorted_wrt (\<lambda>a b. je_startTime (mapJobExecution drv b) = None \<longrightarrow> je_startTime (mapJobExecution drv a) = None) ?rows"
    by (intro sorted_wrt_mono_rel [OF _ orderDescending_sorted]) blast
  then show ?thesis by (simp add: mikroFindJobExecutions_def sorted_wrt_map)
qed



end
