(* ===== verification/QueueTransport.thy ===== *)
theory QueueTransport
  imports JobLauncher PartitionHelpers
begin

text \<open>
  The execution strategies over a message queue: \<open>BullmqRuntime\<close> with
  \<open>BullMqExecutionStrategy\<close> (\<open>packages/bullmq\<close>) and \<open>KafkaRuntime\<close> with
  \<open>KafkaExecutionStrategy\<close> (\<open>packages/kafka\<close>). A launch puts messages into the queue; a worker
  finds the execution of a message and runs it. The clients of the two libraries are records
  of actions, parameters of the model; which of them a runtime has open are its fields.
  The long dash of two messages is a hyphen here.
\<close>

section \<open>Messages\<close>

record queuePayload =
  qp_executionId :: string
  qp_jobExecutionId :: string
  qp_jobId :: string
  qp_stepId :: string
  qp_partitionIndex :: "number option"

text \<open>\<open>startStep?.kind === 'chunk' ? startStep.partitions : undefined\<close>.\<close>

definition startPartitions :: "('w, 'i) jobDefinition \<Rightarrow> chunkPartitionConfig option" where
  "startPartitions job = (case mapGet (job_steps job) (job_startStepId job) of
      Some (ChunkStep c) \<Rightarrow> cs_partitions c
    | _ \<Rightarrow> None)"

definition partitionCount :: "('w, 'i) jobDefinition \<Rightarrow> number" where
  "partitionCount job = (case startPartitions job of None \<Rightarrow> Fin 1 | Some p \<Rightarrow> pc_count p)"

definition partitionOrdinals :: "number \<Rightarrow> number option list" where
  "partitionOrdinals n =
     (if numLessEq (Fin 2) n then map (\<lambda>i. Some (Fin (of_nat i))) [0..<nat \<lfloor>finiteValue n\<rfloor>] else [None])"

definition payloadFor :: "('w, 'i) jobDefinition \<Rightarrow> executionStrategyContext \<Rightarrow> number option \<Rightarrow> queuePayload" where
  "payloadFor job ctx i = \<lparr>qp_executionId = sx_executionId ctx, qp_jobExecutionId = sx_jobExecutionId ctx,
     qp_jobId = job_id job, qp_stepId = job_startStepId job, qp_partitionIndex = i\<rparr>"

text \<open>The loop over the ordinals; the answer of the last message is the result.\<close>

fun sendAll :: "('a \<Rightarrow> ('w, string) M) \<Rightarrow> 'a list \<Rightarrow> string option \<Rightarrow> ('w, string option) M" where
  "sendAll send [] lastId = returnM lastId"
| "sendAll send (p # ps) lastId = bindM (send p) (\<lambda>i. sendAll send ps (Some i))"

section \<open>BullmqRuntime (bullmq-runtime.ts)\<close>

definition BULLMQ_QUEUE_NAME :: string where
  "BULLMQ_QUEUE_NAME = ''nest-batch-work''"

definition BULLMQ_STRATEGY_NAME :: string where
  "BULLMQ_STRATEGY_NAME = ''bullmq''"

record backoffOptions =
  bo_type :: string
  bo_delay :: int
  bo_jitter :: rat

record jobsOptions =
  jo_attempts :: nat
  jo_backoff :: backoffOptions
  jo_removeOnComplete :: "nat \<times> nat"
  jo_removeOnFail :: nat

definition workJobOptions :: jobsOptions where
  "workJobOptions = \<lparr>jo_attempts = 3, jo_backoff = \<lparr>bo_type = ''exponential'', bo_delay = 100, bo_jitter = 1 / 2\<rparr>,
     jo_removeOnComplete = (100, 3600), jo_removeOnFail = 1000\<rparr>"

record runtimeHandles =
  rh_queue :: bool
  rh_worker :: bool
  rh_events :: bool
  rh_closing :: bool

definition newRuntime :: runtimeHandles where
  "newRuntime = \<lparr>rh_queue = False, rh_worker = False, rh_events = False, rh_closing = False\<rparr>"

text \<open>The clients the runtime holds, and where in the world its own fields are.\<close>

record 'w bullmqClient =
  mq_handles :: "'w \<Rightarrow> runtimeHandles"
  mq_setHandles :: "runtimeHandles \<Rightarrow> 'w \<Rightarrow> 'w"
  mq_add :: "string \<Rightarrow> queuePayload \<Rightarrow> jobsOptions \<Rightarrow> ('w, string option) M"
  mq_closeWorker :: "('w, unit) M"
  mq_closeEvents :: "('w, unit) M"
  mq_closeQueue :: "('w, unit) M"

definition updateHandles :: "'w bullmqClient \<Rightarrow> (runtimeHandles \<Rightarrow> runtimeHandles) \<Rightarrow> ('w, unit) M" where
  "updateHandles client f = modifyM (\<lambda>w. mq_setHandles client (f (mq_handles client w)) w)"

definition bullmqBootstrap :: "'w bullmqClient \<Rightarrow> bool \<Rightarrow> ('w, unit) M" where
  "bullmqBootstrap client autoStartWorker =
     updateHandles client (\<lambda>h. h\<lparr>rh_queue := True, rh_events := True, rh_worker := rh_worker h \<or> autoStartWorker\<rparr>)"

definition bullmqAdd :: "'w bullmqClient \<Rightarrow> queuePayload \<Rightarrow> ('w, string) M" where
  "bullmqAdd client payload =
     bindM (mq_add client (qp_stepId payload) payload workJobOptions) (\<lambda>i. case i of
       None \<Rightarrow> throwM (plainError ''[BullmqRuntime] enqueue returned undefined job id (Redis down?)'')
     | Some i \<Rightarrow> returnM i)"

definition bullmqLaunch :: "'w bullmqClient \<Rightarrow> ('w, 'i) jobDefinition \<Rightarrow> jobParameters \<Rightarrow>
    executionStrategyContext \<Rightarrow> ('w, launchResult) M" where
  "bullmqLaunch client job params ctx =
     bindM (getM (\<lambda>w. rh_queue (mq_handles client w))) (\<lambda>ready.
       if \<not> ready
       then throwM (plainError (''[BullmqRuntime] launch() called before onApplicationBootstrap - ''
              @ ''module is not initialized. Did you forget to import BullmqBatchModule?''))
       else bindM (liftE (validatePartitions (startPartitions job))) (\<lambda>_.
         bindM (sendAll (bullmqAdd client)
             (map (payloadFor job ctx) (partitionOrdinals (partitionCount job))) None) (\<lambda>lastId.
           case lastId of
             None \<Rightarrow> throwM (plainError (''[BullmqRuntime] enqueued zero jobs for execution '' @ sx_executionId ctx))
           | Some i \<Rightarrow> returnM (LaunchEnqueued i))))"

definition bullmqStrategy :: "'w bullmqClient \<Rightarrow> ('w, 'i) executionStrategy" where
  "bullmqStrategy client = \<lparr>es_name = BULLMQ_STRATEGY_NAME, es_launch = bullmqLaunch client\<rparr>"

text \<open>The worker: the row of the execution, the definition of the job, the executor.\<close>

definition executionNotFound :: "string \<Rightarrow> string \<Rightarrow> exn" where
  "executionNotFound runtimeName i =
     plainError (''['' @ runtimeName @ ''] JobExecution '' @ i @ '' not found in repository'')"

definition bullmqProcessJob :: "('w, 'i) jobRuntime \<Rightarrow> queuePayload \<Rightarrow> ('w, unit) M" where
  "bullmqProcessJob rt payload =
     bindM (repo_getJobExecution (rt_repository rt) (qp_executionId payload)) (\<lambda>found. case found of
         None \<Rightarrow> throwM (executionNotFound ''BullmqRuntime'' (qp_executionId payload))
       | Some execution \<Rightarrow>
           bindM (liftE (registryGet (rt_registry rt) (qp_jobId payload))) (\<lambda>jobDef.
             bindM (runExecutor rt execution jobDef noPartition) (\<lambda>_. returnM ())))"

text \<open>The bridge from the queue's events to the observer.\<close>

datatype queueEvent = QueueCompleted string | QueueFailed string string | QueueStalled string

fun bridgedType :: "queueEvent \<Rightarrow> batchEventType" where
  "bridgedType (QueueCompleted i) = EvJobCompleted"
| "bridgedType (QueueFailed i reason) = EvJobFailed"
| "bridgedType (QueueStalled i) = EvJobFailed"

fun queueJobIdOf :: "queueEvent \<Rightarrow> string" where
  "queueJobIdOf (QueueCompleted i) = i"
| "queueJobIdOf (QueueFailed i reason) = i"
| "queueJobIdOf (QueueStalled i) = i"

fun bridgedData :: "queueEvent \<Rightarrow> json" where
  "bridgedData (QueueCompleted i) = JObj [(''queueJobId'', JStr i), (''kind'', JStr ''completed'')]"
| "bridgedData (QueueFailed i reason) =
     JObj [(''queueJobId'', JStr i), (''kind'', JStr ''failed''), (''reason'', JStr reason)]"
| "bridgedData (QueueStalled i) = JObj [(''queueJobId'', JStr i), (''kind'', JStr ''stalled'')]"

definition bridgeEvent :: "'w jobExecutor \<Rightarrow> queueEvent \<Rightarrow> ('w, unit) M" where
  "bridgeEvent jx event = emit jx (bridgedType event) (queueJobIdOf event) None (bridgedData event)"

text \<open>Closing: the worker, the events, the queue; an error of one is logged and the next is closed.\<close>

definition closeResource :: "'w bullmqClient \<Rightarrow> (runtimeHandles \<Rightarrow> bool) \<Rightarrow> ('w, unit) M \<Rightarrow>
    (runtimeHandles \<Rightarrow> runtimeHandles) \<Rightarrow> ('w, unit) M" where
  "closeResource client isOpen closeIt clear =
     bindM (getM (\<lambda>w. isOpen (mq_handles client w))) (\<lambda>opened.
       if opened then thenM (catchM closeIt (\<lambda>_. returnM ())) (updateHandles client clear) else returnM ())"

definition bullmqClose :: "'w bullmqClient \<Rightarrow> ('w, unit) M" where
  "bullmqClose client =
     thenM (closeResource client rh_worker (mq_closeWorker client) (\<lambda>h. h\<lparr>rh_worker := False\<rparr>))
     (thenM (closeResource client rh_events (mq_closeEvents client) (\<lambda>h. h\<lparr>rh_events := False\<rparr>))
       (closeResource client rh_queue (mq_closeQueue client) (\<lambda>h. h\<lparr>rh_queue := False\<rparr>)))"

text \<open>The second call returns the promise of the first.\<close>

definition bullmqShutdown :: "'w bullmqClient \<Rightarrow> ('w, unit) M" where
  "bullmqShutdown client =
     bindM (getM (\<lambda>w. rh_closing (mq_handles client w))) (\<lambda>closing.
       if closing then returnM ()
       else thenM (updateHandles client (\<lambda>h. h\<lparr>rh_closing := True\<rparr>)) (bullmqClose client))"

section \<open>Connections (connection.ts)\<close>

record redisOptions =
  ro_host :: "string option"
  ro_port :: "int option"
  ro_password :: "string option"
  ro_username :: "string option"
  ro_db :: "int option"
  ro_keyPrefix :: "string option"
  ro_tls :: "bool option"

record redisConnection =
  rc_host :: string
  rc_port :: int
  rc_password :: "string option"
  rc_username :: "string option"
  rc_db :: int
  rc_keyPrefix :: string
  rc_tls :: bool

definition resolveBullMqConnection :: "redisOptions option \<Rightarrow> redisConnection" where
  "resolveBullMqConnection options = \<lparr>
     rc_host = orKeep (Option.bind options ro_host) ''127.0.0.1'',
     rc_port = orKeep (Option.bind options ro_port) 6379,
     rc_password = Option.bind options ro_password, rc_username = Option.bind options ro_username,
     rc_db = orKeep (Option.bind options ro_db) 0,
     rc_keyPrefix = orKeep (Option.bind options ro_keyPrefix) ''nest-batch:'',
     rc_tls = orKeep (Option.bind options ro_tls) False\<rparr>"

text \<open>What a client is opened with; \<open>maxRetriesPerRequest\<close> is \<open>null\<close> for a worker.\<close>

record clientOptions =
  co_host :: string
  co_port :: int
  co_password :: "string option"
  co_username :: "string option"
  co_db :: int
  co_tls :: "bool option"
  co_enableOfflineQueue :: "bool option"
  co_enableReadyCheck :: "bool option"
  co_maxRetriesPerRequest :: "nat option"

definition producerConnectionOptions :: "redisConnection \<Rightarrow> clientOptions" where
  "producerConnectionOptions c = \<lparr>co_host = rc_host c, co_port = rc_port c, co_password = rc_password c,
     co_username = rc_username c, co_db = rc_db c, co_tls = (if rc_tls c then Some True else None),
     co_enableOfflineQueue = Some False, co_enableReadyCheck = None, co_maxRetriesPerRequest = Some 1\<rparr>"

definition workerConnectionOptions :: "redisConnection \<Rightarrow> clientOptions" where
  "workerConnectionOptions c = \<lparr>co_host = rc_host c, co_port = rc_port c, co_password = rc_password c,
     co_username = rc_username c, co_db = rc_db c, co_tls = (if rc_tls c then Some True else None),
     co_enableOfflineQueue = None, co_enableReadyCheck = Some False, co_maxRetriesPerRequest = None\<rparr>"

section \<open>KafkaRuntime (kafka-runtime.ts)\<close>

definition KAFKA_STRATEGY_NAME :: string where
  "KAFKA_STRATEGY_NAME = ''kafka''"

record recordMetadata =
  rm_offset :: "string option"
  rm_baseOffset :: "string option"

text \<open>
  \<open>JSON\<close> of a payload is a parameter: \<open>kf_stringify\<close> for the producer, \<open>kf_parse\<close> with the
  cast to \<open>KafkaJobPayload\<close> for the consumer.
\<close>

record 'w kafkaClient =
  kf_producerOpen :: "'w \<Rightarrow> bool"
  kf_consumerOpen :: "'w \<Rightarrow> bool"
  kf_setOpen :: "bool \<Rightarrow> bool \<Rightarrow> 'w \<Rightarrow> 'w"
  kf_closing :: "'w \<Rightarrow> bool"
  kf_setClosing :: "'w \<Rightarrow> 'w"
  kf_send :: "string \<Rightarrow> string \<Rightarrow> string \<Rightarrow> ('w, recordMetadata list) M"
  kf_stringify :: "queuePayload \<Rightarrow> string"
  kf_parse :: "string \<Rightarrow> exn + queuePayload"
  kf_topic :: string
  kf_connectConsumer :: "('w, unit) M"
  kf_subscribe :: "string \<Rightarrow> bool \<Rightarrow> ('w, unit) M"
  kf_disconnectConsumer :: "('w, unit) M"
  kf_disconnectProducer :: "('w, unit) M"
  kf_adminConnect :: "('w, unit) M"
  kf_listTopics :: "('w, string list) M"
  kf_createTopic :: "string \<Rightarrow> nat \<Rightarrow> nat \<Rightarrow> ('w, unit) M"
  kf_adminDisconnect :: "('w, unit) M"

definition messageKey :: "queuePayload \<Rightarrow> string" where
  "messageKey payload = (case qp_partitionIndex payload of
      None \<Rightarrow> qp_stepId payload
    | Some i \<Rightarrow> qp_stepId payload @ ''::'' @ showNumber i)"

definition kafkaSend :: "'w kafkaClient \<Rightarrow> queuePayload \<Rightarrow> ('w, string) M" where
  "kafkaSend client payload =
     bindM (kf_send client (kf_topic client) (messageKey payload) (kf_stringify client payload)) (\<lambda>result.
       case result of
         [] \<Rightarrow> throwM (plainError ''[KafkaRuntime] send returned empty result (broker down?)'')
       | first # _ \<Rightarrow>
           (case (if rm_offset first \<noteq> None then rm_offset first else rm_baseOffset first) of
              None \<Rightarrow> throwM (plainError ''[KafkaRuntime] send returned undefined offset (broker down?)'')
            | Some offset \<Rightarrow> returnM offset))"

definition kafkaLaunch :: "'w kafkaClient \<Rightarrow> ('w, 'i) jobDefinition \<Rightarrow> jobParameters \<Rightarrow>
    executionStrategyContext \<Rightarrow> ('w, launchResult) M" where
  "kafkaLaunch client job params ctx =
     bindM (getM (kf_producerOpen client)) (\<lambda>ready.
       if \<not> ready
       then throwM (plainError (''[KafkaRuntime] launch() called before onApplicationBootstrap - ''
              @ ''module is not initialized. Did you forget to import KafkaAdapter?''))
       else bindM (liftE (validatePartitions (startPartitions job))) (\<lambda>_.
         bindM (sendAll (kafkaSend client)
             (map (payloadFor job ctx) (partitionOrdinals (partitionCount job))) None) (\<lambda>lastId.
           case lastId of
             None \<Rightarrow> throwM (plainError (''[KafkaRuntime] produced zero messages for execution '' @ sx_executionId ctx))
           | Some i \<Rightarrow> returnM (LaunchEnqueued i))))"

definition kafkaStrategy :: "'w kafkaClient \<Rightarrow> ('w, 'i) executionStrategy" where
  "kafkaStrategy client = \<lparr>es_name = KAFKA_STRATEGY_NAME, es_launch = kafkaLaunch client\<rparr>"

definition kafkaPartitionArgs :: "('w, 'i) jobDefinition \<Rightarrow> queuePayload \<Rightarrow> exn + partitionArgs" where
  "kafkaPartitionArgs jobDef payload = (case qp_partitionIndex payload of
      None \<Rightarrow> Inr noPartition
    | Some i \<Rightarrow> (case enforcePartitionIndex (Some i) (partitionCount jobDef) of
          Inl e \<Rightarrow> Inl e
        | Inr _ \<Rightarrow> Inr \<lparr>pa_index = Some i, pa_count = Some (partitionCount jobDef)\<rparr>))"

definition kafkaProcessMessage :: "('w, 'i) jobRuntime \<Rightarrow> queuePayload \<Rightarrow> ('w, unit) M" where
  "kafkaProcessMessage rt payload =
     (if qp_jobId payload = ''probe'' \<and> qp_executionId payload = ''probe'' then returnM ()
      else bindM (repo_getJobExecution (rt_repository rt) (qp_executionId payload)) (\<lambda>found. case found of
         None \<Rightarrow> throwM (executionNotFound ''KafkaRuntime'' (qp_executionId payload))
       | Some execution \<Rightarrow>
           bindM (liftE (registryGet (rt_registry rt) (qp_jobId payload))) (\<lambda>jobDef.
           bindM (liftE (kafkaPartitionArgs jobDef payload)) (\<lambda>part.
             bindM (runExecutor rt execution jobDef part) (\<lambda>_. returnM ())))))"

text \<open>\<open>eachMessage\<close>: an empty value is skipped, an error is logged and thrown again.\<close>

definition kafkaEachMessage :: "'w kafkaClient \<Rightarrow> ('w, 'i) jobRuntime \<Rightarrow> string \<Rightarrow> ('w, unit) M" where
  "kafkaEachMessage client rt v =
     (if v = [] then returnM ()
      else bindM (liftE (kf_parse client v)) (\<lambda>payload. kafkaProcessMessage rt payload))"

definition kafkaStartConsumer :: "'w kafkaClient \<Rightarrow> ('w, unit) M" where
  "kafkaStartConsumer client =
     bindM (getM (kf_consumerOpen client)) (\<lambda>opened.
       if \<not> opened then returnM ()
       else thenM (kf_connectConsumer client) (kf_subscribe client (kf_topic client) True))"

text \<open>The cleanup runs on every way out; its own errors are ignored.\<close>

definition finallyM :: "('w, 'a) M \<Rightarrow> ('w, unit) M \<Rightarrow> ('w, 'a) M" where
  "finallyM m cleanup = (\<lambda>w. case m w of
      (OutOfFuel, w') \<Rightarrow> (OutOfFuel, w')
    | (r, w') \<Rightarrow> (case catchM cleanup (\<lambda>_. returnM ()) w' of
          (Value (), w'') \<Rightarrow> (r, w'')
        | (Throw e, w'') \<Rightarrow> (Throw e, w'')
        | (OutOfFuel, w'') \<Rightarrow> (OutOfFuel, w'')))"

definition kafkaEnsureTopic :: "'w kafkaClient \<Rightarrow> string \<Rightarrow> ('w, unit) M" where
  "kafkaEnsureTopic client topic = finallyM
     (thenM (kf_adminConnect client)
       (bindM (kf_listTopics client) (\<lambda>existing.
         if topic \<in> set existing then returnM () else kf_createTopic client topic 1 1)))
     (kf_adminDisconnect client)"

text \<open>The background tasks the bootstrap starts, in order; their errors are logged.\<close>

datatype bootTask = EnsureTopic string | ConnectProducer | StartConsumer

definition kafkaBootstrap :: "'w kafkaClient \<Rightarrow> bool \<Rightarrow> ('w, bootTask list) M" where
  "kafkaBootstrap client autoStartConsumer = (\<lambda>w.
     let opened = kf_consumerOpen client w \<or> autoStartConsumer
     in (Value ([EnsureTopic (kf_topic client), ConnectProducer] @ (if opened then [StartConsumer] else [])),
         kf_setOpen client True opened w))"

definition kafkaClose :: "'w kafkaClient \<Rightarrow> ('w, unit) M" where
  "kafkaClose client =
     thenM (bindM (getM (kf_consumerOpen client)) (\<lambda>opened.
         if opened then thenM (catchM (kf_disconnectConsumer client) (\<lambda>_. returnM ()))
             (modifyM (\<lambda>w. kf_setOpen client (kf_producerOpen client w) False w))
         else returnM ()))
       (bindM (getM (kf_producerOpen client)) (\<lambda>opened.
         if opened then thenM (catchM (kf_disconnectProducer client) (\<lambda>_. returnM ()))
             (modifyM (\<lambda>w. kf_setOpen client False (kf_consumerOpen client w) w))
         else returnM ()))"

definition kafkaShutdown :: "'w kafkaClient \<Rightarrow> ('w, unit) M" where
  "kafkaShutdown client =
     bindM (getM (kf_closing client)) (\<lambda>closing.
       if closing then returnM () else thenM (modifyM (kf_setClosing client)) (kafkaClose client))"

record kafkaOptions =
  ko_brokers :: "string list option"
  ko_clientId :: "string option"
  ko_connectionTimeout :: "int option"
  ko_requestTimeout :: "int option"

record kafkaConnection =
  kn_brokers :: "string list"
  kn_clientId :: string
  kn_connectionTimeout :: int
  kn_requestTimeout :: int

text \<open>\<open>ssl\<close> and \<open>sasl\<close> are handed through to the client.\<close>

definition resolveKafkaConnection :: "kafkaOptions option \<Rightarrow> kafkaConnection" where
  "resolveKafkaConnection options = \<lparr>
     kn_brokers = orKeep (Option.bind options ko_brokers) [''127.0.0.1:9092''],
     kn_clientId = orKeep (Option.bind options ko_clientId) ''nest-batch'',
     kn_connectionTimeout = orKeep (Option.bind options ko_connectionTimeout) 3000,
     kn_requestTimeout = orKeep (Option.bind options ko_requestTimeout) 30000\<rparr>"

end
