(* ===== verification/QueueSchedule.thy ===== *)
theory QueueSchedule
  imports QueueTransport InProcessSchedule
begin

text \<open>
  Schedules over a message queue: \<open>BullmqSchedule\<close>
  (\<open>packages/bullmq/src/bullmq-schedule.ts\<close>), which leaves the clock to the queue and launches
  in a worker, and \<open>KafkaSchedule\<close> (\<open>packages/kafka/src/kafka-schedule.ts\<close>), which turns a cron
  expression into an interval. The clients are records of actions; \<open>toISOString\<close> and the JSON
  of a message are parameters.
\<close>

section \<open>BullmqSchedule\<close>

definition BULLMQ_SCHEDULE_QUEUE_NAME :: string where
  "BULLMQ_SCHEDULE_QUEUE_NAME = ''nest-batch-schedule''"

text \<open>The data of a fired job come from the queue: each may be missing.\<close>

record schedulePayload =
  sp_jobId :: "string option"
  sp_scheduleName :: "string option"
  sp_methodName :: "string option"

record firedJob =
  fj_id :: "string option"
  fj_timestamp :: "date option"
  fj_data :: schedulePayload

record schedulerTemplate =
  st_name :: string
  st_data :: schedulePayload
  st_opts :: jobsOptions

record bullmqSchedule =
  bs_queue :: bool
  bs_worker :: bool
  bs_installed :: "string list"
  bs_closing :: bool

definition newBullmqSchedule :: bullmqSchedule where
  "newBullmqSchedule = \<lparr>bs_queue = False, bs_worker = False, bs_installed = [], bs_closing = False\<rparr>"

record 'w scheduleClient =
  sc_state :: "'w \<Rightarrow> bullmqSchedule"
  sc_setState :: "bullmqSchedule \<Rightarrow> 'w \<Rightarrow> 'w"
  sc_waitUntilReady :: "('w, unit) M"
  sc_upsertJobScheduler :: "string \<Rightarrow> string \<Rightarrow> string \<Rightarrow> schedulerTemplate \<Rightarrow> ('w, unit) M"
  sc_closeWorker :: "('w, unit) M"
  sc_closeQueue :: "('w, unit) M"

definition updateSchedule :: "'w scheduleClient \<Rightarrow> (bullmqSchedule \<Rightarrow> bullmqSchedule) \<Rightarrow> ('w, unit) M" where
  "updateSchedule client f = modifyM (\<lambda>w. sc_setState client (f (sc_state client w)) w)"

text \<open>\<open>Set.add\<close>.\<close>

definition addKey :: "string \<Rightarrow> string list \<Rightarrow> string list" where
  "addKey k ks = (if k \<in> set ks then ks else ks @ [k])"

definition templateOf :: "batchScheduleEntry \<Rightarrow> schedulerTemplate" where
  "templateOf entry = \<lparr>st_name = be_scheduleName entry,
     st_data = \<lparr>sp_jobId = Some (be_jobId entry), sp_scheduleName = Some (be_scheduleName entry),
       sp_methodName = Some (be_methodName entry)\<rparr>, st_opts = workJobOptions\<rparr>"

definition bullmqInstallSchedule :: "'w scheduleClient \<Rightarrow> batchScheduleEntry \<Rightarrow> ('w, unit) M" where
  "bullmqInstallSchedule client entry =
     (if be_inert entry then returnM ()
      else bindM (getM (\<lambda>w. bs_queue (sc_state client w))) (\<lambda>opened.
        if \<not> opened then throwM (plainError ''[BullmqSchedule] scheduleQueue is null'')
        else thenM (sc_upsertJobScheduler client (scheduleKey entry) (be_cron entry) (be_timezone entry)
               (templateOf entry))
             (updateSchedule client (\<lambda>s. s\<lparr>bs_installed := addKey (scheduleKey entry) (bs_installed s)\<rparr>))))"

text \<open>An entry that cannot be installed is logged, the others are installed all the same.\<close>

definition bullmqScheduleBootstrap :: "'w scheduleClient \<Rightarrow> bool \<Rightarrow> scheduleRegistry \<Rightarrow> ('w, unit) M" where
  "bullmqScheduleBootstrap client autoStartWorker registry =
     thenM (updateSchedule client (\<lambda>s. s\<lparr>bs_queue := True, bs_worker := bs_worker s \<or> autoStartWorker\<rparr>))
     (thenM (if scheduleGetAll registry = [] then returnM () else sc_waitUntilReady client)
       (forEachM (scheduleGetAll registry) (\<lambda>entry.
         catchM (bullmqInstallSchedule client entry) (\<lambda>_. returnM ()))))"

definition missing :: "string option \<Rightarrow> bool" where
  "missing v \<longleftrightarrow> v = None \<or> v = Some []"

definition payloadMissing :: "string \<Rightarrow> exn" where
  "payloadMissing what = plainError (''[BullmqSchedule] schedule payload is missing '' @ what)"

definition fireParameters :: "(date \<Rightarrow> string) \<Rightarrow> firedJob \<Rightarrow> date \<Rightarrow> jobParameters" where
  "fireParameters toISOString job now =
     [(''scheduled'', JBool True), (''scheduleName'', JStr (the (sp_scheduleName (fj_data job)))),
      (''scheduledAt'', JStr (toISOString (orKeep (fj_timestamp job) now))),
      (''scheduleQueueJobId'', JStr (orKeep (fj_id job) []))]"

text \<open>What identifies the instance under \<open>skip\<close>: neither the time nor the job of the queue.\<close>

definition skipIdentity :: "string \<Rightarrow> jobParameters" where
  "skipIdentity scheduleName = [(''scheduled'', JBool True), (''scheduleName'', JStr scheduleName)]"

definition registryOverlap :: "scheduleRegistry \<Rightarrow> string \<Rightarrow> string \<Rightarrow> batchOverlapPolicy" where
  "registryOverlap registry jobId scheduleName =
     orKeep (Option.bind (scheduleGet registry jobId scheduleName) be_overlap) OverlapSkip"

fun isAlreadyRunning :: "exn \<Rightarrow> bool" where
  "isAlreadyRunning (ErrorObj classes code msg) \<longleftrightarrow> ''JobExecutionAlreadyRunningError'' \<in> set classes"
| "isAlreadyRunning (ThrownValue s) \<longleftrightarrow> False"

definition processScheduleFire :: "('w, 'i) jobRuntime \<Rightarrow> scheduleRegistry \<Rightarrow> (date \<Rightarrow> string) \<Rightarrow> firedJob \<Rightarrow>
    ('w, unit) M" where
  "processScheduleFire rt registry toISOString job =
     (let payload = fj_data job; jobId = the (sp_jobId payload); scheduleName = the (sp_scheduleName payload);
          overlap = registryOverlap registry jobId scheduleName
      in if missing (sp_jobId payload) then throwM (payloadMissing ''jobId'')
      else if missing (sp_scheduleName payload) then throwM (payloadMissing ''scheduleName'')
      else if missing (sp_methodName payload) then throwM (payloadMissing ''methodName'')
      else bindM (getM (jx_clock (rt_executor rt))) (\<lambda>now.
        catchM
          (bindM (launch rt jobId (fireParameters toISOString job now)
              (if overlap = OverlapSkip then Some (skipIdentity scheduleName) else None)) (\<lambda>execution.
            case execution of
              None \<Rightarrow> throwM (typeError ''Cannot read properties of null (reading 'id')'')
            | Some _ \<Rightarrow> returnM ()))
          (\<lambda>err. if overlap = OverlapSkip \<and> isAlreadyRunning err then returnM () else throwM err)))"

definition bullmqScheduleClose :: "'w scheduleClient \<Rightarrow> ('w, unit) M" where
  "bullmqScheduleClose client =
     thenM (bindM (getM (\<lambda>w. bs_worker (sc_state client w))) (\<lambda>opened.
         if opened then thenM (catchM (sc_closeWorker client) (\<lambda>_. returnM ()))
             (updateSchedule client (\<lambda>s. s\<lparr>bs_worker := False\<rparr>))
         else returnM ()))
       (bindM (getM (\<lambda>w. bs_queue (sc_state client w))) (\<lambda>opened.
         if opened then thenM (catchM (sc_closeQueue client) (\<lambda>_. returnM ()))
             (updateSchedule client (\<lambda>s. s\<lparr>bs_queue := False\<rparr>))
         else returnM ()))"

definition bullmqScheduleShutdown :: "'w scheduleClient \<Rightarrow> ('w, unit) M" where
  "bullmqScheduleShutdown client =
     bindM (getM (\<lambda>w. bs_closing (sc_state client w))) (\<lambda>closing.
       if closing then returnM ()
       else thenM (updateSchedule client (\<lambda>s. s\<lparr>bs_closing := True\<rparr>)) (bullmqScheduleClose client))"

section \<open>KafkaSchedule\<close>

definition KAFKA_SCHEDULE_TOPIC :: string where
  "KAFKA_SCHEDULE_TOPIC = ''nest-batch-schedule''"

definition isDigitChar :: "char \<Rightarrow> bool" where
  "isDigitChar c \<longleftrightarrow> (48 :: nat) \<le> of_char c \<and> of_char c \<le> (57 :: nat)"

text \<open>\<open>/^\*\/(\d+)$/\<close> and the number of the group.\<close>

definition stepOfMinutes :: "string \<Rightarrow> nat option" where
  "stepOfMinutes s =
     (if startsWith ''*/'' s \<and> drop 2 s \<noteq> [] \<and> list_all isDigitChar (drop 2 s) then Some (readNat (drop 2 s)) else None)"

definition parseCronToIntervalMs :: "string \<Rightarrow> nat option" where
  "parseCronToIntervalMs cron = (case splitSpaces (trimString cron) of
      [minutePart, hourPart, domPart, monthPart, dowPart] \<Rightarrow>
        (if \<not> list_all (\<lambda>f. f = ''*'') [hourPart, domPart, monthPart, dowPart] then None
         else (case stepOfMinutes minutePart of
             None \<Rightarrow> None
           | Some n \<Rightarrow> (if n = 0 \<or> n > 60 then None else Some (n * 60 * 1000))))
    | _ \<Rightarrow> None)"

record kafkaSchedule =
  ks_producer :: bool
  ks_intervals :: "(batchScheduleEntry \<times> nat) list"
  ks_closing :: bool

definition newKafkaSchedule :: kafkaSchedule where
  "newKafkaSchedule = \<lparr>ks_producer = False, ks_intervals = [], ks_closing = False\<rparr>"

definition kafkaInstallSchedule :: "batchScheduleEntry \<Rightarrow> kafkaSchedule \<Rightarrow> exn + kafkaSchedule" where
  "kafkaInstallSchedule entry s =
     (if be_inert entry then Inr s
      else if \<not> ks_producer s then Inl (plainError ''[KafkaSchedule] scheduleProducer is null'')
      else (case parseCronToIntervalMs (be_cron entry) of
          None \<Rightarrow> Inr s
        | Some ms \<Rightarrow> Inr (s\<lparr>ks_intervals := ks_intervals s @ [(entry, ms)]\<rparr>)))"

definition kafkaScheduleBootstrap :: "scheduleRegistry \<Rightarrow> kafkaSchedule \<Rightarrow> kafkaSchedule" where
  "kafkaScheduleBootstrap registry s =
     foldl (\<lambda>s entry. case kafkaInstallSchedule entry s of Inl _ \<Rightarrow> s | Inr s' \<Rightarrow> s')
       (s\<lparr>ks_producer := True\<rparr>) (scheduleGetAll registry)"

text \<open>One tick of an interval: a message on the topic of the schedules; a failure is logged.\<close>

definition kafkaFireSchedule :: "(string \<Rightarrow> string \<Rightarrow> string \<Rightarrow> ('w, unit) M) \<Rightarrow> (json \<Rightarrow> string) \<Rightarrow> bool \<Rightarrow>
    batchScheduleEntry \<Rightarrow> date \<Rightarrow> ('w, unit) M" where
  "kafkaFireSchedule send stringify producerOpen entry now =
     (if \<not> producerOpen then returnM ()
      else catchM (send KAFKA_SCHEDULE_TOPIC (scheduleKey entry)
          (stringify (JObj [(''jobId'', JStr (be_jobId entry)), (''scheduleName'', JStr (be_scheduleName entry)),
            (''methodName'', JStr (be_methodName entry)), (''timestamp'', JNum (Fin (of_int now)))])))
        (\<lambda>_. returnM ()))"

definition kafkaScheduleClose :: "kafkaSchedule \<Rightarrow> kafkaSchedule" where
  "kafkaScheduleClose s = s\<lparr>ks_intervals := [], ks_producer := False\<rparr>"

definition kafkaScheduleShutdown :: "kafkaSchedule \<Rightarrow> kafkaSchedule" where
  "kafkaScheduleShutdown s = (if ks_closing s then s else kafkaScheduleClose (s\<lparr>ks_closing := True\<rparr>))"

end
