(* ===== verification/QueueProperties.thy ===== *)
theory QueueProperties
  imports QueueSchedule LaunchProperties
begin

text \<open>
  What the message queue strategies promise, and what they do not: an unpartitioned job run
  by a worker is the job run in process; every message of a BullMQ launch runs the whole job,
  whatever its partition and whatever the execution has already done; a failed job is
  reported as completed; and which cron expressions the Kafka schedule keeps.
\<close>

section \<open>A queue that accepts messages\<close>

text \<open>
  The documented behaviour of \<open>Queue.add\<close> while the server is up: it answers with an
  identifier, the message is behind the others, and nothing else changes.
\<close>

definition queueAccepts :: "'w bullmqClient \<Rightarrow> ('w \<Rightarrow> queuePayload list) \<Rightarrow> ('w \<Rightarrow> 'v) \<Rightarrow> bool" where
  "queueAccepts client pending view \<longleftrightarrow> (\<forall>w p. \<exists>i w'. mq_add client (qp_stepId p) p workJobOptions w = (Value (Some i), w')
     \<and> pending w' = pending w @ [p] \<and> view w' = view w)"

lemma sendAll_accepted:
  assumes "queueAccepts client pending view"
  shows "\<exists>l w'. sendAll (bullmqAdd client) ps lastId w = (Value l, w') \<and> pending w' = pending w @ ps \<and> view w' = view w
    \<and> (ps \<noteq> [] \<longrightarrow> l \<noteq> None)"
proof (induction ps arbitrary: lastId w)
  case (Cons p ps)
  obtain i w1 where "mq_add client (qp_stepId p) p workJobOptions w = (Value (Some i), w1)"
    and w1: "pending w1 = pending w @ [p]" "view w1 = view w"
    using assms unfolding queueAccepts_def by blast
  then have add: "bullmqAdd client p w = (Value i, w1)" by (simp add: bullmqAdd_def)
  obtain l w' where w': "sendAll (bullmqAdd client) ps (Some i) w1 = (Value l, w')"
    "pending w' = pending w1 @ ps" "view w' = view w1" "ps \<noteq> [] \<longrightarrow> l \<noteq> None"
    using Cons.IH by blast
  then have "l \<noteq> None" by (cases ps) auto
  with add w1 w' show ?case by simp
qed simp

lemma bullmqLaunch_accepted:
  assumes "queueAccepts client pending view" "rh_queue (mq_handles client w)"
    "validatePartitions (startPartitions job) = Inr ()"
  shows "\<exists>i w1. bullmqLaunch client job params ctx w = (Value (LaunchEnqueued i), w1) \<and> view w1 = view w
    \<and> pending w1 = pending w @ map (payloadFor job ctx) (partitionOrdinals (partitionCount job))"
proof -
  let ?ps = "map (payloadFor job ctx) (partitionOrdinals (partitionCount job))"
  have "(2 :: nat) \<le> nat \<lfloor>finiteValue n\<rfloor>" if "numLessEq (Fin 2) n" "n \<noteq> PosInf" for n
    using that by (cases n) (auto simp: le_nat_iff le_floor_iff)
  have "partitionCount job \<noteq> PosInf"
    using assms(3) by (auto simp: partitionCount_def validatePartitions_def split: option.splits if_splits)
  then have "?ps \<noteq> []"
    using \<open>\<And>n. numLessEq (Fin 2) n \<Longrightarrow> n \<noteq> PosInf \<Longrightarrow> 2 \<le> nat \<lfloor>finiteValue n\<rfloor>\<close> [of "partitionCount job"]
    by (auto simp: partitionOrdinals_def)
  with sendAll_accepted [OF assms(1), of ?ps None w] obtain i w1 where
    "sendAll (bullmqAdd client) ?ps None w = (Value (Some i), w1)" "pending w1 = pending w @ ?ps" "view w1 = view w"
    by blast
  with assms(2,3) show ?thesis by (simp add: bullmqLaunch_def)
qed

section \<open>An unpartitioned job\<close>

lemma payload_fields [simp]:
  "qp_executionId (payloadFor job ctx i) = sx_executionId ctx" "qp_jobId (payloadFor job ctx i) = job_id job"
  "qp_stepId (payloadFor job ctx i) = job_startStepId job" "qp_partitionIndex (payloadFor job ctx i) = i"
  by (simp_all add: payloadFor_def)

lemma processJob_of_inProcess:
  assumes "inProcessLaunch rt mode job params ctx w = (Value (LaunchCompleted s), w')"
    and "registryGet (rt_registry rt) (job_id job) = Inr job"
  shows "bullmqProcessJob rt (payloadFor job ctx i) w = (Value (), w')"
    and "job_id job \<noteq> ''probe'' \<Longrightarrow> kafkaProcessMessage rt (payloadFor job ctx None) w = (Value (), w')"
proof -
  have "\<exists>e w1 row. repo_getJobExecution (rt_repository rt) (sx_executionId ctx) w = (Value (Some e), w1)
      \<and> runExecutor rt e job noPartition w1 = (Value (Some row), w')"
    using assms(1) by (auto simp: inProcessLaunch_def liftE_def elim!: bindM_Value_elim split: option.splits sum.splits)
  then obtain e w1 row where "repo_getJobExecution (rt_repository rt) (sx_executionId ctx) w = (Value (Some e), w1)"
    "runExecutor rt e job noPartition w1 = (Value (Some row), w')" by blast
  with assms(2) show "bullmqProcessJob rt (payloadFor job ctx i) w = (Value (), w')"
    "job_id job \<noteq> ''probe'' \<Longrightarrow> kafkaProcessMessage rt (payloadFor job ctx None) w = (Value (), w')"
    by (simp_all add: bullmqProcessJob_def kafkaProcessMessage_def payloadFor_def kafkaPartitionArgs_def)
qed

text \<open>
  C27: for a job whose start step is not partitioned, the queue strategies are the in-process
  strategy behind a queue. A BullMQ launch enqueues exactly one message and touches nothing
  else; and wherever the in-process strategy runs the job to its end, a worker that gets the
  message, from BullMQ or through Kafka, does so too and leaves the very same world. The
  queue accepts messages, and parsing inverts printing.
\<close>
theorem queue_equals_in_process:
  assumes "queueAccepts client pending view" "rh_queue (mq_handles client w)"
    and "validatePartitions (startPartitions job) = Inr ()" "\<not> numLessEq (Fin 2) (partitionCount job)"
    and "registryGet (rt_registry rt) (job_id job) = Inr job" "job_id job \<noteq> ''probe''"
    and "kf_stringify kafka (payloadFor job ctx None) \<noteq> []"
      "kf_parse kafka (kf_stringify kafka (payloadFor job ctx None)) = Inr (payloadFor job ctx None)"
  shows "\<exists>i w1. bullmqLaunch client job params ctx w = (Value (LaunchEnqueued i), w1) \<and> view w1 = view w
    \<and> pending w1 = pending w @ [payloadFor job ctx None]
    \<and> (\<forall>s w2. inProcessLaunch rt mode job params ctx w1 = (Value (LaunchCompleted s), w2) \<longrightarrow>
         bullmqProcessJob rt (payloadFor job ctx None) w1 = (Value (), w2)
       \<and> kafkaEachMessage kafka rt (kf_stringify kafka (payloadFor job ctx None)) w1 = (Value (), w2))"
proof -
  have "partitionOrdinals (partitionCount job) = [None]" using assms(4) by (simp add: partitionOrdinals_def)
  with bullmqLaunch_accepted [OF assms(1-3), of params ctx] obtain i w1 where
    "bullmqLaunch client job params ctx w = (Value (LaunchEnqueued i), w1)" "view w1 = view w"
    "pending w1 = pending w @ [payloadFor job ctx None]" by auto
  then show ?thesis
    using processJob_of_inProcess [OF _ assms(5)] assms(6-8) by (fastforce simp: kafkaEachMessage_def)
qed

section \<open>A queue over the in-memory repository\<close>

record queueWorld =
  qw_repo :: inMemoryState
  qw_handles :: runtimeHandles
  qw_messages :: "queuePayload list"

definition queueWorldOf :: "inMemoryState \<Rightarrow> queueWorld" where
  "queueWorldOf s = \<lparr>qw_repo = s, qw_handles = newRuntime\<lparr>rh_queue := True\<rparr>, qw_messages = []\<rparr>"

definition listClient :: "queueWorld bullmqClient" where
  "listClient = \<lparr>mq_handles = qw_handles, mq_setHandles = (\<lambda>h w. w\<lparr>qw_handles := h\<rparr>),
     mq_add = (\<lambda>_ p _ w. (Value (Some (showNat (length (qw_messages w)))), w\<lparr>qw_messages := qw_messages w @ [p]\<rparr>)),
     mq_closeWorker = returnM (), mq_closeEvents = returnM (), mq_closeQueue = throwM (plainError ''closed'')\<rparr>"

definition queueExecutor :: "queueWorld jobExecutor" where
  "queueExecutor = \<lparr>jx_repository = liftRepository qw_repo (\<lambda>r w. w\<lparr>qw_repo := r\<rparr>)
       (inMemoryRepository (deterministicIdGenerator ''id'')),
     jx_writeTransaction = inMemoryTransaction, jx_taskletTransaction = inMemoryTransaction,
     jx_observer = noopObserver, jx_clock = (\<lambda>_. 0)\<rparr>"

definition queueJob :: "(queueWorld, unit) jobDefinition" where
  "queueJob = scriptJob [(''load'', Inr None)] ''load'' [] False"

definition queueRuntime :: "(queueWorld, unit) jobRuntime" where
  "queueRuntime = \<lparr>rt_registry = [(''job'', queueJob)], rt_executor = queueExecutor, rt_strategy = None,
     rt_uuid = returnM ''u'', rt_numberText = ratText, rt_sha256 = id, rt_steps = 2, rt_fuel = 0\<rparr>"

text \<open>A Kafka client that knows one message.\<close>

definition constKafka :: "queuePayload \<Rightarrow> queueWorld kafkaClient" where
  "constKafka p = \<lparr>kf_producerOpen = (\<lambda>_. True), kf_consumerOpen = (\<lambda>_. True), kf_setOpen = (\<lambda>_ _ w. w),
     kf_closing = (\<lambda>_. False), kf_setClosing = id, kf_send = (\<lambda>_ _ _. returnM []),
     kf_stringify = qp_jobId, kf_parse = (\<lambda>_. Inr p), kf_topic = ''work'', kf_connectConsumer = returnM (),
     kf_subscribe = (\<lambda>_ _. returnM ()), kf_disconnectConsumer = returnM (), kf_disconnectProducer = returnM (),
     kf_adminConnect = returnM (), kf_listTopics = returnM [], kf_createTopic = (\<lambda>_ _ _. returnM ()),
     kf_adminDisconnect = returnM ()\<rparr>"

lemma listClient_accepts: "queueAccepts listClient qw_messages qw_repo"
  by (simp add: queueAccepts_def listClient_def)

lemma queueJob_facts:
  "validatePartitions (startPartitions queueJob) = Inr ()" "partitionCount queueJob = Fin 1" "job_id queueJob = ''job''"
  "registryGet (rt_registry queueRuntime) ''job'' = Inr queueJob"
  by (simp_all add: queueJob_def scriptJob_def startPartitions_def scriptTasklet_def validatePartitions_def
      partitionCount_def queueRuntime_def registryGet_def)

theorem queue_equals_in_process_witness:
  "\<exists>i w1 w2. bullmqLaunch listClient queueJob [] \<lparr>sx_executionId = ''id-2'', sx_jobExecutionId = ''id-2''\<rparr> (queueWorldOf launched)
      = (Value (LaunchEnqueued i), w1)
    \<and> qw_messages w1 = [payloadFor queueJob \<lparr>sx_executionId = ''id-2'', sx_jobExecutionId = ''id-2''\<rparr> None]
    \<and> bullmqProcessJob queueRuntime (hd (qw_messages w1)) w1 = (Value (), w2)
    \<and> map_option je_status (mapGet (ims_executions (qw_repo w2)) ''id-2'') = Some JobCompleted"
proof -
  let ?ctx = "\<lparr>sx_executionId = ''id-2'', sx_jobExecutionId = ''id-2''\<rparr>" and ?w = "queueWorldOf launched"
  let ?p = "payloadFor queueJob ?ctx None"
  have open_queue: "rh_queue (mq_handles listClient ?w)" by (simp add: listClient_def queueWorldOf_def)
  have "qp_jobId ?p \<noteq> []" by (simp add: payloadFor_def queueJob_facts)
  then obtain i w1 where l: "bullmqLaunch listClient queueJob [] ?ctx ?w = (Value (LaunchEnqueued i), w1)"
    "qw_repo w1 = qw_repo ?w" "qw_messages w1 = qw_messages ?w @ [?p]"
    and eq: "\<And>s w2. inProcessLaunch queueRuntime ViolationThrow queueJob [] ?ctx w1 = (Value (LaunchCompleted s), w2) \<Longrightarrow>
      bullmqProcessJob queueRuntime ?p w1 = (Value (), w2)"
    using queue_equals_in_process [OF listClient_accepts open_queue queueJob_facts(1), where kafka = "constKafka ?p"
        and rt = queueRuntime and ctx = ?ctx and params = "[]" and mode = ViolationThrow]
    by (fastforce simp: queueJob_facts constKafka_def)
  have "bullmqLaunch listClient queueJob [] ?ctx ?w = (Value (LaunchEnqueued ''0''), ?w\<lparr>qw_messages := [?p]\<rparr>)"
    by code_simp
  with l(1) have w1: "w1 = ?w\<lparr>qw_messages := [?p]\<rparr>" by simp
  have "fst (inProcessLaunch queueRuntime ViolationThrow queueJob [] ?ctx (?w\<lparr>qw_messages := [?p]\<rparr>)) = Value (LaunchCompleted JobCompleted)"
    by code_simp
  moreover have "map_option je_status (mapGet (ims_executions (qw_repo (snd (inProcessLaunch queueRuntime ViolationThrow
      queueJob [] ?ctx (?w\<lparr>qw_messages := [?p]\<rparr>))))) ''id-2'') = Some JobCompleted"
    by code_simp
  ultimately obtain w2 where "inProcessLaunch queueRuntime ViolationThrow queueJob [] ?ctx w1 = (Value (LaunchCompleted JobCompleted), w2)"
    "map_option je_status (mapGet (ims_executions (qw_repo w2)) ''id-2'') = Some JobCompleted"
    unfolding w1 by (metis prod.collapse)
  with eq l w1 show ?thesis by (auto simp: queueWorldOf_def)
qed

section \<open>A partitioned job\<close>

text \<open>
  C22: a BullMQ launch of a job whose start step has \<open>n\<close> partitions enqueues \<open>n\<close> messages, one
  per index and in order, but the worker never reads the index: processing any of them is
  processing the message of an unpartitioned launch, the whole job without a partition. The
  Kafka worker hands the index and the count of the same message to the executor.
\<close>
theorem bullmq_ignores_partition_index:
  assumes "queueAccepts client pending view" "rh_queue (mq_handles client w)"
    and "partitionCount job = Fin (of_nat n)" "2 \<le> n"
  shows "\<exists>i w1. bullmqLaunch client job params ctx w = (Value (LaunchEnqueued i), w1)
    \<and> pending w1 = pending w @ map (\<lambda>k. payloadFor job ctx (Some (Fin (of_nat k)))) [0..<n]
    \<and> (\<forall>k < n. bullmqProcessJob rt (payloadFor job ctx (Some (Fin (of_nat k)))) = bullmqProcessJob rt (payloadFor job ctx None)
       \<and> kafkaPartitionArgs job (payloadFor job ctx (Some (Fin (of_nat k))))
           = Inr \<lparr>pa_index = Some (Fin (of_nat k)), pa_count = Some (Fin (of_nat n))\<rparr>)"
proof -
  have valid: "validatePartitions (startPartitions job) = Inr ()"
    using assms(3,4) by (auto simp: partitionCount_def validatePartitions_def split: option.splits)
  have "numLessEq (Fin 2) (Fin (of_nat n))" using assms(4) by simp
  then have ord: "partitionOrdinals (partitionCount job) = map (\<lambda>k. Some (Fin (of_nat k))) [0..<n]"
    using assms(3) by (simp add: partitionOrdinals_def)
  have "kafkaPartitionArgs job (payloadFor job ctx (Some (Fin (of_nat k))))
      = Inr \<lparr>pa_index = Some (Fin (of_nat k)), pa_count = Some (Fin (of_nat n))\<rparr>" if "k < n" for k
    using that assms(3) by (simp add: kafkaPartitionArgs_def payloadFor_def enforcePartitionIndex_def)
  moreover have "bullmqProcessJob rt (payloadFor job ctx j) = bullmqProcessJob rt (payloadFor job ctx None)" for j
    unfolding bullmqProcessJob_def payload_fields by (rule refl)
  ultimately show ?thesis
    using bullmqLaunch_accepted [OF assms(1,2) valid, of params ctx] ord by (simp add: comp_def) blast
qed

text \<open>A chunk step with three partitions.\<close>

definition partitionedJob :: "(queueWorld, unit) jobDefinition" where
  "partitionedJob = queueJob\<lparr>job_steps := [(''load'', ChunkStep \<lparr>cs_id = ''load'', cs_chunkSize = 2,
     cs_reader = objectRef unresolvedReader, cs_processor = None, cs_writer = objectRef unresolvedWriter,
     cs_skipPolicy = None, cs_retryPolicy = None, cs_partitions = Some \<lparr>pc_count = Fin 3, pc_range = None\<rparr>\<rparr>)]\<rparr>"

theorem bullmq_ignores_partition_index_witness:
  "\<exists>i w1. bullmqLaunch listClient partitionedJob [] \<lparr>sx_executionId = ''id-2'', sx_jobExecutionId = ''id-2''\<rparr> (queueWorldOf launched)
      = (Value (LaunchEnqueued i), w1) \<and> map qp_partitionIndex (qw_messages w1) = [Some (Fin 0), Some (Fin 1), Some (Fin 2)]"
proof -
  let ?ctx = "\<lparr>sx_executionId = ''id-2'', sx_jobExecutionId = ''id-2''\<rparr>" and ?w = "queueWorldOf launched"
  have facts: "rh_queue (mq_handles listClient ?w)" "partitionCount partitionedJob = Fin (of_nat 3)" "qw_messages ?w = []"
    by (simp_all add: listClient_def queueWorldOf_def partitionCount_def startPartitions_def partitionedJob_def
        queueJob_def scriptJob_def)
  from bullmq_ignores_partition_index [OF listClient_accepts facts(1,2), where params = "[]" and ctx = ?ctx and rt = queueRuntime]
  obtain i w1 where "bullmqLaunch listClient partitionedJob [] ?ctx ?w = (Value (LaunchEnqueued i), w1)"
    "qw_messages w1 = map (\<lambda>k. payloadFor partitionedJob ?ctx (Some (Fin (of_nat k)))) [0..<3]"
    by (auto simp: facts(3))
  then show ?thesis by (simp add: upt_rec)
qed

section \<open>Delivered again\<close>



section \<open>What the bridge reports\<close>

text \<open>
  C30: the bridge reports a failed job as completed. The executor turns failures into a row
  and returns, so the worker's promise resolves; the queue then announces the message as
  completed, and the observer is told \<open>nest-batch.job.completed\<close>, under the identifier of the
  queue's job instead of the execution's. The announcement is the queue's documented one.
\<close>
theorem bullmq_failed_job_reported_completed:
  assumes "repo_getJobExecution (rt_repository rt) (qp_executionId payload) w = (Value (Some execution), w1)"
    and "registryGet (rt_registry rt) (qp_jobId payload) = Inr job"
    and "runExecutor rt execution job noPartition w1 = (Value (Some row), w2)" "je_status row = JobFailed"
    and "announce (Value ()) = QueueCompleted queueJobId"
  shows "bullmqProcessJob rt payload w = (Value (), w2)
    \<and> bridgeEvent jx (announce (fst (bullmqProcessJob rt payload w))) w2
      = catchM (jx_observer jx \<lparr>be_type = EvJobCompleted, be_timestamp = jx_clock jx w2, be_jobExecutionId = queueJobId,
          be_stepExecutionId = None,
          be_data = JObj [(''queueJobId'', JStr queueJobId), (''kind'', JStr ''completed'')]\<rparr>) (\<lambda>_. returnM ()) w2"
proof -
  have "bullmqProcessJob rt payload w = (Value (), w2)"
    using assms(1-3) by (simp add: bullmqProcessJob_def)
  then show ?thesis using assms(5) by (simp add: bridgeEvent_def emit_def)
qed

definition failingJob :: "(inMemoryState, unit) jobDefinition" where
  "failingJob = scriptJob [(''load'', Inl (plainError ''no input''))] ''load'' [] False"

theorem bullmq_failed_job_reported_completed_witness:
  "\<exists>row w2. runExecutor (memRuntime [(''job'', failingJob)]) newExecution failingJob noPartition launched = (Value (Some row), w2)
    \<and> je_status row = JobFailed
    \<and> bullmqProcessJob (memRuntime [(''job'', failingJob)])
        (payloadFor failingJob \<lparr>sx_executionId = ''id-2'', sx_jobExecutionId = ''id-2''\<rparr> None) launched = (Value (), w2)"
proof -
  let ?rt = "memRuntime [(''job'', failingJob)]" and ?ctx = "\<lparr>sx_executionId = ''id-2'', sx_jobExecutionId = ''id-2''\<rparr>"
  have "finalStatus (runExecutor ?rt newExecution failingJob noPartition launched) = Some JobFailed" by code_simp
  then obtain row w2 where run: "runExecutor ?rt newExecution failingJob noPartition launched = (Value (Some row), w2)"
    "je_status row = JobFailed"
    by (cases "runExecutor ?rt newExecution failingJob noPartition launched")
      (auto simp: finalStatus_def split: outcome.splits option.splits)
  have "job_id failingJob = ''job''" by (simp add: failingJob_def scriptJob_def)
  then have "repo_getJobExecution (rt_repository ?rt) (qp_executionId (payloadFor failingJob ?ctx None)) launched
      = (Value (Some newExecution), launched)" "registryGet (rt_registry ?rt) (qp_jobId (payloadFor failingJob ?ctx None)) = Inr failingJob"
    by (simp_all add: memRuntime_def inMemoryRepository_def getJobExecution_def launched_row registryGet_def)
  from bullmq_failed_job_reported_completed [OF this run, where announce = "\<lambda>_. QueueCompleted ''0''" and queueJobId = "''0''"]
  show ?thesis using run by simp
qed

section \<open>Schedules\<close>

text \<open>When a cron field \<open>*/d\<close> fires: the minutes of the hour that \<open>d\<close> divides.\<close>

definition cronMinutes :: "nat \<Rightarrow> nat \<Rightarrow> bool" where
  "cronMinutes d t \<longleftrightarrow> t mod 60 mod d = 0"

lemma interval_is_cron_iff:
  assumes "1 \<le> d" "d \<le> 60"
  shows "(\<forall>k. cronMinutes d (k * d)) \<longleftrightarrow> d dvd 60"
proof
  assume "d dvd 60"
  then show "\<forall>k. cronMinutes d (k * d)" by (simp add: cronMinutes_def mod_mod_cancel)
next
  assume all: "\<forall>k. cronMinutes d (k * d)"
  show "d dvd 60"
  proof (rule ccontr)
    assume "\<not> d dvd 60"
    then have r: "0 < 60 mod d" "60 mod d < d" using assms by (auto simp: dvd_eq_mod_eq_0)
    have "60 div d * d = 60 - 60 mod d" by (metis minus_mod_eq_div_mult)
    define x where "x = d - 60 mod d"
    then have x: "0 < x" "x < d" "x < 60" using r assms by linarith+
    have "(60 div d + 1) * d = 60 + x"
      using \<open>60 div d * d = 60 - 60 mod d\<close> r assms by (simp add: distrib_right x_def)
    then have "\<not> cronMinutes d ((60 div d + 1) * d)" unfolding cronMinutes_def using x by simp
    with all show False by blast
  qed
qed

text \<open>
  C35: the Kafka schedule accepts exactly the expressions \<open>*/d * * * *\<close> with \<open>d\<close> from 1 to 60, and
  installs an interval of \<open>d\<close> minutes for them; any other expression is dropped with a
  warning. The interval fires at the minutes the expression names, counted from a full hour,
  only when \<open>d\<close> divides 60: \<open>*/45\<close> fires at minute 0 and 45 of every hour, the interval does not.
\<close>
theorem kafka_cron_interval:
  "parseCronToIntervalMs cron = Some ms \<longleftrightarrow> (\<exists>digits. splitSpaces (trimString cron) = [''*/'' @ digits, ''*'', ''*'', ''*'', ''*'']
     \<and> digits \<noteq> [] \<and> list_all isDigitChar digits \<and> 1 \<le> readNat digits \<and> readNat digits \<le> 60
     \<and> ms = readNat digits * 60000 \<and> ((\<forall>k. cronMinutes (readNat digits) (k * readNat digits)) \<longleftrightarrow> readNat digits dvd 60))"
proof -
  have step: "stepOfMinutes s = Some n \<longleftrightarrow> (\<exists>digits. s = ''*/'' @ digits \<and> digits \<noteq> [] \<and> list_all isDigitChar digits
      \<and> n = readNat digits)" for s n
    by (auto simp: stepOfMinutes_def startsWith_iff simp del: readNat.simps)
  have "parseCronToIntervalMs cron = Some ms \<longleftrightarrow> (\<exists>m n. splitSpaces (trimString cron) = [m, ''*'', ''*'', ''*'', ''*'']
      \<and> stepOfMinutes m = Some n \<and> 1 \<le> n \<and> n \<le> 60 \<and> ms = n * 60000)"
    by (auto simp: parseCronToIntervalMs_def split: list.splits option.splits if_splits)
  also have "\<dots> \<longleftrightarrow> (\<exists>digits. splitSpaces (trimString cron) = [''*/'' @ digits, ''*'', ''*'', ''*'', ''*''] \<and> digits \<noteq> []
      \<and> list_all isDigitChar digits \<and> 1 \<le> readNat digits \<and> readNat digits \<le> 60 \<and> ms = readNat digits * 60000)"
    unfolding step by (auto simp del: readNat.simps)
  finally show ?thesis using interval_is_cron_iff by (metis (no_types, lifting))
qed

text \<open>
  C32: under the policy \<open>skip\<close> the ticks of one BullMQ schedule share an instance, whatever
  time and queue job they carry: while an execution of it is running, a tick resolves and
  starts nothing. The launcher runs over the in-memory repository, for a job without
  duplicate instances.
\<close>
theorem bullmq_skip_starts_nothing:
  assumes "jx_repository (rt_executor rt) = inMemoryRepository (deterministicIdGenerator prefix)"
    and "imsInv (deterministicIdGenerator prefix) w"
    and "fj_data job = \<lparr>sp_jobId = Some jobId, sp_scheduleName = Some name, sp_methodName = Some methodName\<rparr>"
    and "jobId \<noteq> []" "name \<noteq> []" "methodName \<noteq> []" "registryOverlap registry jobId name = OverlapSkip"
    and "registryGet (rt_registry rt) jobId = Inr jobDef" "\<not> job_allowDuplicateInstances jobDef"
    and "canonicalJobKey (rt_numberText rt) (rt_sha256 rt) (skipIdentity name) = Inr key"
    and "mapGet (ims_instancesByKey w) (instanceKey jobId key) = Some inst"
    and "x \<in> set (mapValues (ims_executions w))" "isRunningOf (ji_id inst) x"
  shows "\<exists>w'. processScheduleFire rt registry toISOString job w = (Value (), w')
    \<and> ims_executions w' = ims_executions w"
proof -
  let ?gen = "deterministicIdGenerator prefix"
  let ?params = "fireParameters toISOString job (jx_clock (rt_executor rt) w)"
  obtain r w' where created: "createExecutionAtomic ?gen jobId key ?params w = (r, w')" by (metis surj_pair)
  obtain y where y: "r = Throw (jobExecutionAlreadyRunningError y)" "ims_executions w' = ims_executions w"
    using createExecutionAtomic_outcome [OF deterministicIdGenerator_inj assms(2) created] assms(11-13) by blast
  have "launch rt jobId ?params (Some (skipIdentity name)) w = (Throw (jobExecutionAlreadyRunningError y), w')"
    using assms(1,8,9,10) created y(1) by (simp add: launch_def launchKey_def inMemoryRepository_def)
  moreover have "isAlreadyRunning (jobExecutionAlreadyRunningError y)"
    by (simp add: jobExecutionAlreadyRunningError_def batchError_def)
  ultimately show ?thesis using assms(3-7) y(2)
    by (simp add: processScheduleFire_def Let_def missing_def catchM_def)
qed

definition tickKey :: string where
  "tickKey = (case canonicalJobKey ratText id (skipIdentity ''nightly'') of Inr k \<Rightarrow> k | Inl _ \<Rightarrow> [])"

text \<open>The first tick has been launched and is still starting.\<close>

definition tickState :: inMemoryState where
  "tickState = snd (createExecutionAtomic exampleGen ''job'' tickKey [] emptyInMemoryState)"

definition secondTick :: firedJob where
  "secondTick = \<lparr>fj_id = Some ''repeat:2'', fj_timestamp = Some 120000,
     fj_data = \<lparr>sp_jobId = Some ''job'', sp_scheduleName = Some ''nightly'', sp_methodName = Some ''run''\<rparr>\<rparr>"

theorem bullmq_skip_starts_nothing_witness:
  "\<exists>w'. processScheduleFire (memRuntime [(''job'', repairJob)]) [] (\<lambda>_. ''1970-01-01T00:02:00.000Z'') secondTick tickState = (Value (), w')
    \<and> ims_executions w' = ims_executions tickState \<and> length (ims_executions tickState) = 1"
proof -
  let ?rt = "memRuntime [(''job'', repairJob)]"
  have key: "canonicalJobKey (rt_numberText ?rt) (rt_sha256 ?rt) (skipIdentity ''nightly'') = Inr tickKey" by code_simp
  have inst: "map_option ji_id (mapGet (ims_instancesByKey tickState) (instanceKey ''job'' tickKey)) = Some ''id-1''" by code_simp
  have running: "list_ex (isRunningOf ''id-1'') (mapValues (ims_executions tickState))" by code_simp
  obtain i where i: "mapGet (ims_instancesByKey tickState) (instanceKey ''job'' tickKey) = Some i" "ji_id i = ''id-1''"
    using inst by auto
  obtain x where x: "x \<in> set (mapValues (ims_executions tickState))" "isRunningOf (ji_id i) x"
    using running i(2) by (auto simp: list_ex_iff)
  have inv: "imsInv exampleGen tickState"
    unfolding tickState_def by (intro createExecutionAtomic_inv deterministicIdGenerator_inj imsInv_empty)
  have "length (ims_executions tickState) = 1" by code_simp
  moreover have "\<exists>w'. processScheduleFire ?rt [] (\<lambda>_. ''1970-01-01T00:02:00.000Z'') secondTick tickState = (Value (), w')
      \<and> ims_executions w' = ims_executions tickState"
    by (rule bullmq_skip_starts_nothing [OF _ inv _ _ _ _ _ _ _ key i(1) x, where jobDef = repairJob and methodName = "''run''"])
      (simp_all add: memRuntime_def secondTick_def registryOverlap_def scheduleGet_def registryGet_def repairJob_def scriptJob_def)
  ultimately show ?thesis by blast
qed

end
