(* ===== verification/ModuleWiring.thy ===== *)
theory ModuleWiring
  imports Prelude
begin

text \<open>
  The assembly of the application: \<open>NestBatchModule\<close> (\<open>module/nest-batch.module.ts\<close>), which
  merges the providers of the two adapters with the framework's own, the in-process adapter
  (\<open>adapters/in-process.adapter.ts\<close>), and the constructor parameters the container has to fill.

  A provider is a class, or an object with a \<open>provide\<close> token. The container's behaviour used
  here is what Nest documents: the last provider of a token in a module counts, \<open>useExisting\<close>
  is followed, an \<open>@Optional()\<close> parameter without a provider is \<open>undefined\<close>, and a parameter
  whose type is an interface has the token \<open>Object\<close>. Values are opaque, \<open>None\<close> is \<open>undefined\<close>,
  and the metadata Nest keeps of static modules is a parameter.
\<close>

section \<open>Providers\<close>

datatype diToken = ClassToken string | SymbolToken string

datatype 'v provider =
    PlainClass string
  | UseValue diToken "'v option"
  | UseClass diToken string
  | UseExisting diToken diToken
  | UseFactory diToken string "diToken list"

fun providedToken :: "'v provider \<Rightarrow> diToken" where
  "providedToken (PlainClass c) = ClassToken c"
| "providedToken (UseValue t _) = t"
| "providedToken (UseClass t _) = t"
| "providedToken (UseExisting t _) = t"
| "providedToken (UseFactory t _ _) = t"

text \<open>\<open>typeof p === 'object' && 'provide' in p && p.provide === token\<close>: classes are functions.\<close>

fun providesToken :: "diToken \<Rightarrow> 'v provider \<Rightarrow> bool" where
  "providesToken t (PlainClass c) = False"
| "providesToken t p = (providedToken p = t)"

definition JOB_REPOSITORY_TOKEN :: diToken where
  "JOB_REPOSITORY_TOKEN = SymbolToken ''@nest-batch/core/JOB_REPOSITORY''"

definition TRANSACTION_MANAGER_TOKEN :: diToken where
  "TRANSACTION_MANAGER_TOKEN = SymbolToken ''@nest-batch/core/TRANSACTION_MANAGER''"

definition BATCH_SCHEDULE_REGISTRY :: diToken where
  "BATCH_SCHEDULE_REGISTRY = SymbolToken ''@nest-batch/core/BATCH_SCHEDULE_REGISTRY''"

definition MODULE_OPTIONS_TOKEN :: diToken where
  "MODULE_OPTIONS_TOKEN = SymbolToken ''@nest-batch/core/MODULE_OPTIONS''"

definition OPTIONS_FACTORY :: diToken where
  "OPTIONS_FACTORY = SymbolToken ''@nest-batch/core/OPTIONS_FACTORY''"

definition EXECUTION_STRATEGY :: diToken where
  "EXECUTION_STRATEGY = SymbolToken ''@nest-batch/core/EXECUTION_STRATEGY''"

lemmas token_defs = JOB_REPOSITORY_TOKEN_def TRANSACTION_MANAGER_TOKEN_def BATCH_SCHEDULE_REGISTRY_def
  MODULE_OPTIONS_TOKEN_def OPTIONS_FACTORY_def EXECUTION_STRATEGY_def

section \<open>buildProviders\<close>

fun isClassProvider :: "string \<Rightarrow> 'v provider \<Rightarrow> bool" where
  "isClassProvider c (PlainClass d) = (d = c)"
| "isClassProvider c p = (providedToken p = ClassToken c)"

definition addAlias :: "diToken \<Rightarrow> string \<Rightarrow> 'v provider list \<Rightarrow> 'v provider list" where
  "addAlias token className providers =
     (let hasToken = list_ex (providesToken token) providers;
          hasClass = list_ex (isClassProvider className) providers
      in if hasToken \<and> \<not> hasClass then providers @ [UseExisting (ClassToken className) token] else providers)"

definition buildProviders :: "'v provider list \<Rightarrow> 'v provider list" where
  "buildProviders adapterGlobalProviders =
     addAlias TRANSACTION_MANAGER_TOKEN ''TransactionManager''
       (addAlias JOB_REPOSITORY_TOKEN ''JobRepository'' adapterGlobalProviders)"

section \<open>Adapters and modules\<close>

text \<open>An entry of \<open>imports\<close>: absent, a class, a dynamic module with its providers, or another object.\<close>

datatype 'v moduleImport =
    NoImport
  | ClassImport string
  | DynamicImport string "'v provider list option"
  | OtherImport

record 'v batchAdapter =
  ad_name :: string
  ad_module :: "'v moduleImport"
  ad_globalProviders :: "'v provider list option"

record 'v batchAdaptersConfig =
  ac_persistence :: "'v batchAdapter"
  ac_transport :: "'v batchAdapter"

datatype 'v moduleExport = ExportToken diToken | ExportProvider "'v provider"

record 'v nestModule =
  nm_global :: bool
  nm_imports :: "'v moduleImport list"
  nm_providers :: "'v provider list"
  nm_exports :: "'v moduleExport list"

definition coreClasses :: "string list" where
  "coreClasses = [''JobRegistry'', ''DefinitionCompiler'', ''BatchExplorer'', ''FlowEvaluator'',
     ''BatchScheduleRegistry'', ''BatchBootstrapper'', ''JobExecutor'', ''ChunkStepExecutor'',
     ''TaskletStepExecutor'', ''ListenerInvoker'', ''JobLauncher'', ''JobExplorer'', ''JobOperator'',
     ''BatchWorkerRunner'']"

definition globalProvidersOf :: "'v batchAdapter \<Rightarrow> 'v provider list" where
  "globalProvidersOf a = buildProviders (case ad_globalProviders a of None \<Rightarrow> [] | Some ps \<Rightarrow> ps)"

definition scheduleAlias :: "'v provider" where
  "scheduleAlias = UseExisting BATCH_SCHEDULE_REGISTRY (ClassToken ''BatchScheduleRegistry'')"

definition moduleExports :: "'v provider list \<Rightarrow> 'v moduleExport list" where
  "moduleExports adapterProviders = map (\<lambda>c. ExportToken (ClassToken c)) (take 6 coreClasses)
     @ [ExportToken BATCH_SCHEDULE_REGISTRY, ExportToken MODULE_OPTIONS_TOKEN]
     @ map (\<lambda>c. ExportToken (ClassToken c)) (drop 6 coreClasses)
     @ map ExportProvider adapterProviders"

text \<open>\<open>box\<close> is the configuration as a value of the container.\<close>

definition forRoot :: "('v batchAdaptersConfig \<Rightarrow> 'v) \<Rightarrow> 'v batchAdaptersConfig \<Rightarrow> 'v nestModule" where
  "forRoot box adapters =
     (let adapterProviders = globalProvidersOf (ac_persistence adapters) @ globalProvidersOf (ac_transport adapters)
      in \<lparr>nm_global = True,
          nm_imports = [ad_module (ac_persistence adapters), ad_module (ac_transport adapters), ClassImport ''DiscoveryModule''],
          nm_providers = map PlainClass coreClasses
            @ [UseValue MODULE_OPTIONS_TOKEN (Some (box adapters)), scheduleAlias] @ adapterProviders,
          nm_exports = moduleExports adapterProviders\<rparr>)"

section \<open>forRootAsync\<close>

definition providersOfImport :: "(string \<Rightarrow> 'v provider list option) \<Rightarrow> 'v moduleImport \<Rightarrow> 'v provider list" where
  "providersOfImport metadata m = (case m of
      DynamicImport c (Some ps) \<Rightarrow> ps
    | DynamicImport c None \<Rightarrow> (case metadata c of None \<Rightarrow> [] | Some ps \<Rightarrow> ps)
    | ClassImport c \<Rightarrow> (case metadata c of None \<Rightarrow> [] | Some ps \<Rightarrow> ps)
    | _ \<Rightarrow> [])"

text \<open>The first \<open>useValue\<close> of the token; the loop over the providers ends there.\<close>

fun valueIn :: "diToken \<Rightarrow> 'v provider list \<Rightarrow> 'v option" where
  "valueIn token [] = None"
| "valueIn token (UseValue t v # ps) = (if t = token then v else valueIn token ps)"
| "valueIn token (p # ps) = valueIn token ps"

fun resolveInjectValue :: "(string \<Rightarrow> 'v provider list option) \<Rightarrow> diToken \<Rightarrow> 'v moduleImport list \<Rightarrow> 'v option" where
  "resolveInjectValue metadata token [] = None"
| "resolveInjectValue metadata token (m # ms) = (case valueIn token (providersOfImport metadata m) of
      Some v \<Rightarrow> Some v
    | None \<Rightarrow> resolveInjectValue metadata token ms)"

definition resolveInjectValues :: "(string \<Rightarrow> 'v provider list option) \<Rightarrow> 'v moduleImport list \<Rightarrow> diToken list \<Rightarrow>
    'v option list" where
  "resolveInjectValues metadata imports inject = map (\<lambda>token. resolveInjectValue metadata token imports) inject"

datatype 'v factoryResult =
    FactoryThrows exn
  | FactoryValue "'v batchAdaptersConfig"
  | FactoryPromise "exn + 'v batchAdaptersConfig"

record 'v asyncOptions =
  ao_imports :: "'v moduleImport list option"
  ao_inject :: "diToken list option"
  ao_useFactory :: "'v option list \<Rightarrow> 'v factoryResult"

definition buildAsyncModule :: "'v asyncOptions \<Rightarrow> 'v batchAdaptersConfig \<Rightarrow> 'v nestModule" where
  "buildAsyncModule options adapters =
     (let adapterProviders = globalProvidersOf (ac_persistence adapters) @ globalProvidersOf (ac_transport adapters);
          factoryProvider = UseFactory OPTIONS_FACTORY ''useFactory'' (orKeep (ao_inject options) []);
          optionsProvider = UseFactory MODULE_OPTIONS_TOKEN ''fromFactory'' [OPTIONS_FACTORY]
      in \<lparr>nm_global = True,
          nm_imports = orKeep (ao_imports options) []
            @ [ad_module (ac_persistence adapters), ad_module (ac_transport adapters), ClassImport ''DiscoveryModule''],
          nm_providers = map PlainClass coreClasses @ [scheduleAlias] @ adapterProviders @ [factoryProvider, optionsProvider],
          nm_exports = moduleExports adapterProviders\<rparr>)"

text \<open>A module, a promise of one, or the factory's own error.\<close>

datatype 'v builtModule = ModuleThrows exn | ModuleNow "'v nestModule" | ModulePromise "exn + 'v nestModule"

definition factoryArguments :: "(string \<Rightarrow> 'v provider list option) \<Rightarrow> 'v asyncOptions \<Rightarrow> 'v option list" where
  "factoryArguments metadata options =
     resolveInjectValues metadata (orKeep (ao_imports options) []) (orKeep (ao_inject options) [])"

definition forRootAsync :: "(string \<Rightarrow> 'v provider list option) \<Rightarrow> 'v asyncOptions \<Rightarrow> 'v builtModule" where
  "forRootAsync metadata options =
     (case ao_useFactory options (factoryArguments metadata options) of
        FactoryThrows e \<Rightarrow> ModuleThrows e
      | FactoryPromise r \<Rightarrow> ModulePromise (map_sum id (buildAsyncModule options) r)
      | FactoryValue adapters \<Rightarrow> ModuleNow (buildAsyncModule options adapters))"

section \<open>The in-process adapter\<close>

definition inProcessStrategyProvider :: "'v provider" where
  "inProcessStrategyProvider = UseExisting EXECUTION_STRATEGY (ClassToken ''InProcessExecutionStrategy'')"

definition buildInProcessDynamicModule :: "'v moduleImport" where
  "buildInProcessDynamicModule = DynamicImport ''InProcessModule'' (Some [inProcessStrategyProvider])"

definition inProcessAdapter :: "'v batchAdapter" where
  "inProcessAdapter = \<lparr>ad_name = ''in-process'', ad_module = buildInProcessDynamicModule,
     ad_globalProviders = Some [PlainClass ''InProcessExecutionStrategy'', PlainClass ''InProcessSchedule'',
       inProcessStrategyProvider]\<rparr>"

section \<open>What the container has to fill\<close>

record dependency =
  dep_token :: diToken
  dep_optional :: bool

definition needs :: "string \<Rightarrow> dependency" where
  "needs c = \<lparr>dep_token = ClassToken c, dep_optional = False\<rparr>"

definition mayHave :: "diToken \<Rightarrow> dependency" where
  "mayHave t = \<lparr>dep_token = t, dep_optional = True\<rparr>"

text \<open>The last parameter is the observer, whose type is an interface.\<close>

definition jobExecutorConstructor :: "dependency list" where
  "jobExecutorConstructor = [needs ''JobRepository'', needs ''TransactionManager'', needs ''TaskletStepExecutor'',
     needs ''ChunkStepExecutor'', needs ''ListenerInvoker'', needs ''FlowEvaluator'', mayHave (ClassToken ''Object'')]"

definition jobLauncherConstructor :: "dependency list" where
  "jobLauncherConstructor = [needs ''JobRegistry'', needs ''JobRepository'', needs ''JobExecutor'', mayHave EXECUTION_STRATEGY]"

definition jobExplorerConstructor :: "dependency list" where
  "jobExplorerConstructor = [needs ''JobRegistry'', needs ''JobRepository'']"

definition jobOperatorConstructor :: "dependency list" where
  "jobOperatorConstructor = [needs ''JobExplorer'', needs ''JobRegistry'', needs ''JobRepository'', needs ''JobLauncher'']"

definition batchWorkerRunnerConstructor :: "dependency list" where
  "batchWorkerRunnerConstructor = [needs ''JobRegistry'', needs ''JobRepository'', needs ''JobExecutor'']"

definition batchExplorerConstructor :: "dependency list" where
  "batchExplorerConstructor = [needs ''DiscoveryService'', needs ''Reflector'', mayHave (ClassToken ''BatchScheduleRegistry'')]"

definition batchBootstrapperConstructor :: "dependency list" where
  "batchBootstrapperConstructor = [needs ''BatchExplorer'', needs ''DefinitionCompiler'', needs ''JobRegistry'']"

definition IN_PROCESS_PARTITION_VIOLATION_MODE :: diToken where
  "IN_PROCESS_PARTITION_VIOLATION_MODE = SymbolToken ''@nest-batch/core/IN_PROCESS_PARTITION_VIOLATION_MODE''"

definition inProcessStrategyConstructor :: "dependency list" where
  "inProcessStrategyConstructor = [needs ''JobRepository'', needs ''JobExecutor'', mayHave IN_PROCESS_PARTITION_VIOLATION_MODE]"

definition inProcessScheduleConstructor :: "dependency list" where
  "inProcessScheduleConstructor = [needs ''BatchScheduleRegistry'', needs ''JobLauncher'']"

text \<open>The other classes of the core have no constructor.\<close>

definition constructors :: "(string \<times> dependency list) list" where
  "constructors = [(''JobExecutor'', jobExecutorConstructor), (''JobLauncher'', jobLauncherConstructor),
     (''JobExplorer'', jobExplorerConstructor), (''JobOperator'', jobOperatorConstructor),
     (''BatchWorkerRunner'', batchWorkerRunnerConstructor), (''BatchExplorer'', batchExplorerConstructor),
     (''BatchBootstrapper'', batchBootstrapperConstructor),
     (''InProcessExecutionStrategy'', inProcessStrategyConstructor), (''InProcessSchedule'', inProcessScheduleConstructor)]"

section \<open>Resolution\<close>

definition bindingOf :: "'v provider list \<Rightarrow> diToken \<Rightarrow> 'v provider option" where
  "bindingOf providers t = find (\<lambda>p. providedToken p = t) (rev providers)"

fun resolveToken :: "nat \<Rightarrow> 'v provider list \<Rightarrow> diToken \<Rightarrow> 'v provider option" where
  "resolveToken 0 providers t = None"
| "resolveToken (Suc n) providers t = (case bindingOf providers t of
      Some (UseExisting _ t') \<Rightarrow> resolveToken n providers t'
    | b \<Rightarrow> b)"

text \<open>\<open>DiscoveryModule\<close> and Nest itself provide two of the classes.\<close>

definition nestClasses :: "string list" where
  "nestClasses = [''DiscoveryService'', ''Reflector'']"

definition filled :: "'v provider list \<Rightarrow> dependency \<Rightarrow> bool" where
  "filled providers d \<longleftrightarrow> dep_optional d \<or> dep_token d \<in> set (map ClassToken nestClasses)
     \<or> bindingOf providers (dep_token d) \<noteq> None"

lemma find_append: "find P (xs @ ys) = (case find P xs of None \<Rightarrow> find P ys | Some x \<Rightarrow> Some x)"
  by (induction xs) auto

lemma bindingOf_append:
  "bindingOf (xs @ ys) t = (case bindingOf ys t of None \<Rightarrow> bindingOf xs t | Some p \<Rightarrow> Some p)"
  unfolding bindingOf_def by (simp add: find_append)

lemma bindingOf_three:
  "bindingOf zs t = None \<Longrightarrow>
   bindingOf (xs @ ys @ zs) t = (case bindingOf ys t of Some p \<Rightarrow> Some p | None \<Rightarrow> bindingOf xs t)"
  by (simp add: bindingOf_append split: option.split)

lemma bindingOf_Nil [simp]: "bindingOf [] t = None"
  by (simp add: bindingOf_def)

lemma bindingOf_Cons:
  "bindingOf (p # ps) t = (case bindingOf ps t of None \<Rightarrow> if providedToken p = t then Some p else None | Some q \<Rightarrow> Some q)"
  unfolding bindingOf_def by (simp add: find_append split: option.split)

lemma bindingOf_None: "bindingOf ps t = None \<longleftrightarrow> (\<forall>p \<in> set ps. providedToken p \<noteq> t)"
  by (simp add: bindingOf_def find_None_set)

lemma bindingOf_Some: "bindingOf ps t = Some p \<Longrightarrow> p \<in> set ps \<and> providedToken p = t"
  by (auto simp: bindingOf_def dest: find_Some_in_set)

section \<open>buildProviders adds the missing aliases and nothing else\<close>

lemma providesToken_iff: "providesToken t p \<Longrightarrow> providedToken p = t"
  by (cases p) simp_all

lemma providesToken_symbol: "providesToken (SymbolToken s) p \<longleftrightarrow> providedToken p = SymbolToken s"
  by (cases p) simp_all

lemma isClassProvider_iff: "isClassProvider c p \<longleftrightarrow> providedToken p = ClassToken c"
  by (cases p) simp_all

lemma addAlias_other: "t \<noteq> ClassToken c \<Longrightarrow> bindingOf (addAlias token c ps) t = bindingOf ps t"
  by (simp add: addAlias_def bindingOf_append bindingOf_Cons Let_def)

lemma addAlias_class:
  "bindingOf (addAlias (SymbolToken s) c ps) (ClassToken c)
    = (if bindingOf ps (ClassToken c) \<noteq> None then bindingOf ps (ClassToken c)
       else if bindingOf ps (SymbolToken s) \<noteq> None then Some (UseExisting (ClassToken c) (SymbolToken s)) else None)"
  by (auto simp: addAlias_def Let_def list_ex_iff providesToken_symbol isClassProvider_iff bindingOf_append bindingOf_Cons bindingOf_None
      split: option.splits)

lemma addAlias_twice: "addAlias (SymbolToken s) c (addAlias (SymbolToken s) c ps) = addAlias (SymbolToken s) c ps"
  by (auto simp: addAlias_def Let_def)

lemma buildProviders_binding:
  "t \<noteq> ClassToken ''JobRepository'' \<Longrightarrow> t \<noteq> ClassToken ''TransactionManager'' \<Longrightarrow>
    bindingOf (buildProviders ps) t = bindingOf ps t"
  "bindingOf (buildProviders ps) (ClassToken ''JobRepository'')
    = (if bindingOf ps (ClassToken ''JobRepository'') \<noteq> None then bindingOf ps (ClassToken ''JobRepository'')
       else if bindingOf ps JOB_REPOSITORY_TOKEN \<noteq> None
       then Some (UseExisting (ClassToken ''JobRepository'') JOB_REPOSITORY_TOKEN) else None)"
  "bindingOf (buildProviders ps) (ClassToken ''TransactionManager'')
    = (if bindingOf ps (ClassToken ''TransactionManager'') \<noteq> None then bindingOf ps (ClassToken ''TransactionManager'')
       else if bindingOf ps TRANSACTION_MANAGER_TOKEN \<noteq> None
       then Some (UseExisting (ClassToken ''TransactionManager'') TRANSACTION_MANAGER_TOKEN) else None)"
  by (simp_all add: buildProviders_def addAlias_other addAlias_class JOB_REPOSITORY_TOKEN_def TRANSACTION_MANAGER_TOKEN_def)

section \<open>The application forRoot assembles\<close>

definition adapterProviders :: "'v batchAdaptersConfig \<Rightarrow> 'v provider list" where
  "adapterProviders a = (case ad_globalProviders (ac_persistence a) of None \<Rightarrow> [] | Some ps \<Rightarrow> ps)
     @ (case ad_globalProviders (ac_transport a) of None \<Rightarrow> [] | Some ps \<Rightarrow> ps)"

text \<open>The framework's own providers, in front of the adapters'.\<close>

definition corePart :: "('v batchAdaptersConfig \<Rightarrow> 'v) \<Rightarrow> 'v batchAdaptersConfig \<Rightarrow> 'v provider list" where
  "corePart box a = map PlainClass coreClasses @ [UseValue MODULE_OPTIONS_TOKEN (Some (box a)), scheduleAlias]"

lemma bindingOf_classes:
  "bindingOf (map PlainClass cs) t = (if \<exists>c \<in> set cs. t = ClassToken c then Some (PlainClass (case t of ClassToken c \<Rightarrow> c)) else None)"
  by (induction cs) (auto simp: bindingOf_Cons)

lemma bindingOf_core:
  "c \<in> set coreClasses \<Longrightarrow> bindingOf (corePart box a) (ClassToken c) = Some (PlainClass c)"
  by (simp add: corePart_def bindingOf_append bindingOf_classes bindingOf_Cons scheduleAlias_def token_defs)

lemma bindingOf_core_other:
  "t \<notin> ClassToken ` set coreClasses \<Longrightarrow> t \<noteq> MODULE_OPTIONS_TOKEN \<Longrightarrow> t \<noteq> BATCH_SCHEDULE_REGISTRY \<Longrightarrow>
   bindingOf (corePart box a) t = None"
  by (auto simp: corePart_def bindingOf_None scheduleAlias_def)

lemma forRoot_binding:
  "bindingOf (nm_providers (forRoot box a)) t
    = (case bindingOf (globalProvidersOf (ac_transport a)) t of Some p \<Rightarrow> Some p
       | None \<Rightarrow> (case bindingOf (globalProvidersOf (ac_persistence a)) t of Some p \<Rightarrow> Some p
         | None \<Rightarrow> bindingOf (corePart box a) t))"
proof -
  have "nm_providers (forRoot box a)
      = corePart box a @ (globalProvidersOf (ac_persistence a) @ globalProvidersOf (ac_transport a))"
    by (simp add: forRoot_def corePart_def Let_def)
  then show ?thesis by (simp add: bindingOf_append split: option.split)
qed

lemma forRoot_other:
  "t \<noteq> ClassToken ''JobRepository'' \<Longrightarrow> t \<noteq> ClassToken ''TransactionManager'' \<Longrightarrow>
   bindingOf (nm_providers (forRoot box a)) t = (case bindingOf (adapterProviders a) t of Some p \<Rightarrow> Some p
     | None \<Rightarrow> bindingOf (corePart box a) t)"
  unfolding forRoot_binding adapterProviders_def globalProvidersOf_def
  by (simp add: buildProviders_binding(1) bindingOf_append split: option.splits)

lemma forRoot_core: "c \<in> set coreClasses \<Longrightarrow> bindingOf (nm_providers (forRoot box a)) (ClassToken c) \<noteq> None"
  using bindingOf_core [of c box a] by (simp add: forRoot_binding split: option.splits)

text \<open>An abstract class is bound when an adapter binds the class or its token.\<close>

lemma forRoot_aliased:
  "bindingOf (adapterProviders a) (ClassToken ''JobRepository'') \<noteq> None \<or> bindingOf (adapterProviders a) JOB_REPOSITORY_TOKEN \<noteq> None \<Longrightarrow>
    bindingOf (nm_providers (forRoot box a)) (ClassToken ''JobRepository'') \<noteq> None"
  "bindingOf (adapterProviders a) (ClassToken ''TransactionManager'') \<noteq> None \<or> bindingOf (adapterProviders a) TRANSACTION_MANAGER_TOKEN \<noteq> None \<Longrightarrow>
    bindingOf (nm_providers (forRoot box a)) (ClassToken ''TransactionManager'') \<noteq> None"
  unfolding forRoot_binding adapterProviders_def globalProvidersOf_def
  by (auto simp: buildProviders_binding bindingOf_append split: option.splits)

lemma forRoot_alias:
  assumes "bindingOf (adapterProviders a) (ClassToken ''JobRepository'') = None" "bindingOf (adapterProviders a) JOB_REPOSITORY_TOKEN \<noteq> None"
  shows "bindingOf (nm_providers (forRoot box a)) (ClassToken ''JobRepository'')
    = Some (UseExisting (ClassToken ''JobRepository'') JOB_REPOSITORY_TOKEN)"
  using assms unfolding forRoot_binding adapterProviders_def globalProvidersOf_def
  by (auto simp: buildProviders_binding bindingOf_append split: option.splits if_splits)

text \<open>
  C33: an application built by \<open>forRoot\<close> is complete. When the adapters bind a repository and a
  transaction manager, by token or by class, the container can fill every required
  constructor parameter of every class of the framework; a repository bound by its token is
  what the abstract class resolves to as well, so that all parts share it; with the
  in-process adapter the launcher finds its strategy, and the strategy and the scheduler
  find what they need. Two optional parameters nobody fills: the observer of the executor,
  and the partition violation mode of the in-process strategy, unless an adapter itself
  binds their tokens.
\<close>
theorem application_wired:
  assumes "bindingOf (adapterProviders a) (ClassToken ''JobRepository'') \<noteq> None \<or> bindingOf (adapterProviders a) JOB_REPOSITORY_TOKEN \<noteq> None"
    and "bindingOf (adapterProviders a) (ClassToken ''TransactionManager'') \<noteq> None \<or> bindingOf (adapterProviders a) TRANSACTION_MANAGER_TOKEN \<noteq> None"
  shows "(\<forall>(c, ds) \<in> set constructors. \<forall>d \<in> set ds. filled (nm_providers (forRoot box a)) d)
    \<and> (bindingOf (adapterProviders a) (ClassToken ''JobRepository'') = None \<longrightarrow>
        resolveToken (Suc n) (nm_providers (forRoot box a)) (ClassToken ''JobRepository'')
          = resolveToken n (nm_providers (forRoot box a)) JOB_REPOSITORY_TOKEN)
    \<and> (ac_transport a = inProcessAdapter \<longrightarrow>
        resolveToken (Suc (Suc n)) (nm_providers (forRoot box a)) EXECUTION_STRATEGY = Some (PlainClass ''InProcessExecutionStrategy''))
    \<and> (bindingOf (adapterProviders a) (ClassToken ''Object'') = None \<longrightarrow>
        bindingOf (nm_providers (forRoot box a)) (ClassToken ''Object'') = None)
    \<and> (bindingOf (adapterProviders a) IN_PROCESS_PARTITION_VIOLATION_MODE = None \<longrightarrow>
        bindingOf (nm_providers (forRoot box a)) IN_PROCESS_PARTITION_VIOLATION_MODE = None)"
proof (intro conjI impI)
  let ?ps = "nm_providers (forRoot box a)"
  have core: "\<forall>c \<in> set coreClasses. bindingOf ?ps (ClassToken c) \<noteq> None" using forRoot_core by blast
  have "bindingOf ?ps (ClassToken ''JobRepository'') \<noteq> None" "bindingOf ?ps (ClassToken ''TransactionManager'') \<noteq> None"
    using forRoot_aliased assms by blast+
  with core show "\<forall>(c, ds) \<in> set constructors. \<forall>d \<in> set ds. filled ?ps d"
    by (simp add: constructors_def jobExecutorConstructor_def jobLauncherConstructor_def jobExplorerConstructor_def
        jobOperatorConstructor_def batchWorkerRunnerConstructor_def batchExplorerConstructor_def batchBootstrapperConstructor_def
        inProcessStrategyConstructor_def inProcessScheduleConstructor_def needs_def mayHave_def filled_def nestClasses_def coreClasses_def)
  show "resolveToken (Suc n) ?ps (ClassToken ''JobRepository'') = resolveToken n ?ps JOB_REPOSITORY_TOKEN"
    if "bindingOf (adapterProviders a) (ClassToken ''JobRepository'') = None"
    using forRoot_alias [OF that] assms(1) that by simp
  show "resolveToken (Suc (Suc n)) ?ps EXECUTION_STRATEGY = Some (PlainClass ''InProcessExecutionStrategy'')"
    if "ac_transport a = inProcessAdapter"
  proof -
    have "bindingOf (adapterProviders a) EXECUTION_STRATEGY = Some inProcessStrategyProvider"
      "bindingOf (adapterProviders a) (ClassToken ''InProcessExecutionStrategy'') = Some (PlainClass ''InProcessExecutionStrategy'')"
      by (simp_all add: adapterProviders_def that inProcessAdapter_def bindingOf_append bindingOf_Cons inProcessStrategyProvider_def
          EXECUTION_STRATEGY_def)
    then show ?thesis by (simp add: forRoot_other inProcessStrategyProvider_def EXECUTION_STRATEGY_def)
  qed
  show "bindingOf ?ps (ClassToken ''Object'') = None" if "bindingOf (adapterProviders a) (ClassToken ''Object'') = None"
    using that by (simp add: forRoot_other bindingOf_core_other coreClasses_def token_defs image_iff)
  show "bindingOf ?ps IN_PROCESS_PARTITION_VIOLATION_MODE = None"
    if "bindingOf (adapterProviders a) IN_PROCESS_PARTITION_VIOLATION_MODE = None"
    using that by (simp add: forRoot_other bindingOf_core_other IN_PROCESS_PARTITION_VIOLATION_MODE_def token_defs image_iff)
qed


text \<open>The TypeORM adapter's global providers with the in-process transport.\<close>

definition exampleAdapters :: "unit batchAdaptersConfig" where
  "exampleAdapters = \<lparr>ac_persistence = \<lparr>ad_name = ''typeorm'', ad_module = DynamicImport ''TypeOrmBatchModule'' None,
     ad_globalProviders = Some [UseClass JOB_REPOSITORY_TOKEN ''TypeOrmJobRepository'',
       UseClass TRANSACTION_MANAGER_TOKEN ''TypeOrmTransactionManager'']\<rparr>, ac_transport = inProcessAdapter\<rparr>"

lemma exampleAdapters_providers:
  "adapterProviders exampleAdapters = [UseClass JOB_REPOSITORY_TOKEN ''TypeOrmJobRepository'',
     UseClass TRANSACTION_MANAGER_TOKEN ''TypeOrmTransactionManager'', PlainClass ''InProcessExecutionStrategy'',
     PlainClass ''InProcessSchedule'', inProcessStrategyProvider]"
  by (simp add: adapterProviders_def exampleAdapters_def inProcessAdapter_def)

theorem application_wired_witness:
  "resolveToken 3 (nm_providers (forRoot (\<lambda>_. ()) exampleAdapters)) (ClassToken ''JobRepository'')
      = resolveToken 2 (nm_providers (forRoot (\<lambda>_. ()) exampleAdapters)) JOB_REPOSITORY_TOKEN
   \<and> resolveToken 3 (nm_providers (forRoot (\<lambda>_. ()) exampleAdapters)) EXECUTION_STRATEGY = Some (PlainClass ''InProcessExecutionStrategy'')
   \<and> bindingOf (nm_providers (forRoot (\<lambda>_. ()) exampleAdapters)) (ClassToken ''Object'') = None"
proof -
  have bound: "bindingOf (adapterProviders exampleAdapters) JOB_REPOSITORY_TOKEN \<noteq> None"
    "bindingOf (adapterProviders exampleAdapters) TRANSACTION_MANAGER_TOKEN \<noteq> None"
    "bindingOf (adapterProviders exampleAdapters) (ClassToken ''JobRepository'') = None"
    "bindingOf (adapterProviders exampleAdapters) (ClassToken ''Object'') = None"
    by (simp_all add: exampleAdapters_providers bindingOf_Cons inProcessStrategyProvider_def token_defs)
  have "ac_transport exampleAdapters = inProcessAdapter" by (simp add: exampleAdapters_def)
  with bound show ?thesis
    using application_wired [of exampleAdapters "\<lambda>_. ()" 2] application_wired [of exampleAdapters "\<lambda>_. ()" 1]
    by (simp only: numeral_3_eq_3 numeral_2_eq_2 One_nat_def simp_thms)
qed

section \<open>The asynchronous configuration\<close>

lemma valueIn_None: "(\<And>v. UseValue t v \<notin> set ps) \<Longrightarrow> valueIn t ps = None"
  by (induction t ps rule: valueIn.induct) auto

lemma resolveInjectValue_None:
  "(\<And>m v. m \<in> set ms \<Longrightarrow> UseValue t v \<notin> set (providersOfImport metadata m)) \<Longrightarrow>
   resolveInjectValue metadata t ms = None"
  by (induction ms) (auto simp: valueIn_None split: option.splits)

text \<open>
  C38: \<open>forRootAsync\<close> merges the adapters as \<open>forRoot\<close> does, whether the factory returns them or
  a promise of them: the same modules behind the host's own imports, the same exports, and
  the same binding of every token but those of the options. The factory is called while the
  module is built, before there is a container: an \<open>inject\<close> token for which no import has a
  \<open>useValue\<close> is passed as \<open>undefined\<close>, and what the factory then throws is thrown by
  \<open>forRootAsync\<close>.
\<close>
theorem async_module_equals_sync:
  fixes options :: "'v asyncOptions"
  shows "(ao_useFactory options (factoryArguments metadata options) \<in> {FactoryValue a, FactoryPromise (Inr a)} \<longrightarrow>
      (\<exists>m. forRootAsync metadata options \<in> {ModuleNow m, ModulePromise (Inr m)}
        \<and> nm_imports m = orKeep (ao_imports options) [] @ nm_imports (forRoot box a)
        \<and> nm_exports m = nm_exports (forRoot box a)
        \<and> (\<forall>t. t \<noteq> MODULE_OPTIONS_TOKEN \<and> t \<noteq> OPTIONS_FACTORY \<longrightarrow>
            bindingOf (nm_providers m) t = bindingOf (nm_providers (forRoot box a)) t)))
    \<and> (\<forall>i < length (orKeep (ao_inject options) []).
        (\<forall>m \<in> set (orKeep (ao_imports options) []). \<forall>v. UseValue (orKeep (ao_inject options) [] ! i) v \<notin> set (providersOfImport metadata m))
        \<longrightarrow> factoryArguments metadata options ! i = None)
    \<and> (\<forall>e. ao_useFactory options (factoryArguments metadata options) = FactoryThrows e \<longrightarrow> forRootAsync metadata options = ModuleThrows e)"
proof (intro conjI impI allI)
  let ?m = "buildAsyncModule options a"
  assume factory: "ao_useFactory options (factoryArguments metadata options) \<in> {FactoryValue a, FactoryPromise (Inr a)}"
  have same: "bindingOf (nm_providers ?m) t = bindingOf (nm_providers (forRoot box a)) t"
    if "t \<noteq> MODULE_OPTIONS_TOKEN" "t \<noteq> OPTIONS_FACTORY" for t
  proof -
    let ?rear = "[UseFactory OPTIONS_FACTORY ''useFactory'' (orKeep (ao_inject options) []),
        UseFactory MODULE_OPTIONS_TOKEN ''fromFactory'' [OPTIONS_FACTORY]] :: 'v provider list"
    let ?front = "map PlainClass coreClasses @ [scheduleAlias]"
    let ?middle = "globalProvidersOf (ac_persistence a) @ globalProvidersOf (ac_transport a)"
    have "nm_providers ?m = ?front @ ?middle @ ?rear" by (simp add: buildAsyncModule_def Let_def)
    moreover have "bindingOf ?rear t = None" using that by (simp add: bindingOf_None)
    ultimately have "bindingOf (nm_providers ?m) t = (case bindingOf ?middle t of Some p \<Rightarrow> Some p | None \<Rightarrow> bindingOf ?front t)"
      by (simp only: bindingOf_three)
    moreover have "bindingOf ?front t = bindingOf (corePart box a) t"
      using that by (simp add: corePart_def bindingOf_append bindingOf_Cons split: option.split)
    ultimately show ?thesis unfolding forRoot_binding by (simp add: bindingOf_append split: option.split)
  qed
  have "forRootAsync metadata options \<in> {ModuleNow ?m, ModulePromise (Inr ?m)}"
    using factory by (auto simp: forRootAsync_def)
  with same show "\<exists>m. forRootAsync metadata options \<in> {ModuleNow m, ModulePromise (Inr m)}
      \<and> nm_imports m = orKeep (ao_imports options) [] @ nm_imports (forRoot box a)
      \<and> nm_exports m = nm_exports (forRoot box a)
      \<and> (\<forall>t. t \<noteq> MODULE_OPTIONS_TOKEN \<and> t \<noteq> OPTIONS_FACTORY \<longrightarrow>
          bindingOf (nm_providers m) t = bindingOf (nm_providers (forRoot box a)) t)"
    by (intro exI [of _ ?m]) (simp add: buildAsyncModule_def forRoot_def Let_def)
next
  fix i
  assume i: "i < length (orKeep (ao_inject options) [])"
    "\<forall>m \<in> set (orKeep (ao_imports options) []). \<forall>v. UseValue (orKeep (ao_inject options) [] ! i) v \<notin> set (providersOfImport metadata m)"
  then show "factoryArguments metadata options ! i = None"
    using resolveInjectValue_None [of "orKeep (ao_imports options) []" "orKeep (ao_inject options) [] ! i" metadata]
    by (simp add: factoryArguments_def resolveInjectValues_def)
next
  fix e
  assume "ao_useFactory options (factoryArguments metadata options) = FactoryThrows e"
  then show "forRootAsync metadata options = ModuleThrows e" by (simp add: forRootAsync_def)
qed

text \<open>A factory that wants a configuration service, with the service provided by a class.\<close>

definition exampleAsync :: "unit asyncOptions" where
  "exampleAsync = \<lparr>ao_imports = Some [DynamicImport ''ConfigModule'' (Some [PlainClass ''ConfigService''])],
     ao_inject = Some [ClassToken ''ConfigService''],
     ao_useFactory = (\<lambda>vs. case vs of [Some _] \<Rightarrow> FactoryValue exampleAdapters
       | _ \<Rightarrow> FactoryThrows (typeError ''Cannot read properties of undefined (reading get)''))\<rparr>"

theorem async_module_equals_sync_witness:
  "forRootAsync (\<lambda>_. None) exampleAsync = ModuleThrows (typeError ''Cannot read properties of undefined (reading get)'')
   \<and> (\<exists>m. forRootAsync (\<lambda>_. None) (exampleAsync\<lparr>ao_imports := None, ao_inject := None, ao_useFactory := \<lambda>_. FactoryValue exampleAdapters\<rparr>)
        \<in> {ModuleNow m, ModulePromise (Inr m)} \<and> nm_exports m = nm_exports (forRoot (\<lambda>_. ()) exampleAdapters))"
proof
  have "factoryArguments (\<lambda>_. None) exampleAsync = [None]"
    by (simp add: exampleAsync_def factoryArguments_def resolveInjectValues_def providersOfImport_def)
  then show "forRootAsync (\<lambda>_. None) exampleAsync = ModuleThrows (typeError ''Cannot read properties of undefined (reading get)'')"
    using async_module_equals_sync [of exampleAsync "\<lambda>_. None", THEN conjunct2, THEN conjunct2]
    by (simp add: exampleAsync_def)
  let ?o = "exampleAsync\<lparr>ao_imports := None, ao_inject := None, ao_useFactory := \<lambda>_. FactoryValue exampleAdapters\<rparr>"
  show "\<exists>m. forRootAsync (\<lambda>_. None) ?o \<in> {ModuleNow m, ModulePromise (Inr m)} \<and> nm_exports m = nm_exports (forRoot (\<lambda>_. ()) exampleAdapters)"
    using async_module_equals_sync [of ?o "\<lambda>_. None" exampleAdapters "\<lambda>_. ()", THEN conjunct1] by auto
qed

end
