(* ===== verification/Spec2Isabelle.thy ===== *)
theory Spec2Isabelle
  imports Policies PartitionHelpers FlowEvaluator DefinitionValidator InMemoryRepository
    CompilerProperties ChunkErrors ChunkProperties ListenerInvoker LaunchProperties StreamRestart
    MikroOrm QueueProperties ModuleWiring
begin

text \<open>
  nest-batch is a batch framework for NestJS. A job is a graph of steps; a chunk step reads
  items one by one, processes them and writes them in chunks, each chunk in a transaction
  with a checkpoint; a tasklet step is one call. Launches, executions, steps and contexts are
  rows of a job repository, so that a failed execution can be restarted where it stopped.
  This development models \<open>packages/core/src\<close> from the decorators and builders that declare
  jobs to the executors that run them, the SQL repositories of five packages and the queue runtimes of \<open>packages/bullmq\<close> and \<open>packages/kafka\<close>, and proves what the parts promise each
  other.

  \<^bold>\<open>How the parts interact.\<close> The explorer reads decorated classes and fills the schedule
  registry; the compiler (or a chain of builder calls) produces a job definition; the job
  registry validates and keeps it. A launch, by a caller, the scheduler or the operator,
  finds or creates the job instance of its parameters and an execution, refuses a second
  running one, and hands the execution to a strategy: the in-process strategy calls the job
  executor, the external one prints arguments from which a worker finds the execution again,
  and the queue strategies publish a message that a worker of the queue runs.
  The job executor walks the graph: it runs the step executors, persists rows, calls
  listeners and the observer, and asks the flow evaluator for the next step. The chunk
  executor drives reader, processor and writer under the skip and retry policies.

  \<^bold>\<open>Theories\<close>, with the files they model (under \<open>packages/core/src\<close> where no package is named):

  \<^item> \<open>Prelude\<close>: thrown values, the effect monad (a function from the world to an outcome and
    the world left behind; \<open>await\<close> is \<open>bindM\<close>, \<open>try/catch\<close> is \<open>catchM\<close>), triples, numbers,
    insertion-ordered maps, strings; the lemma collections of the development.
  \<^item> \<open>CoreTypes\<close>: \<open>core/status.ts\<close>, \<open>core/errors.ts\<close>, \<open>core/repository/types.ts\<close>, \<open>core/ir\<close>,
    \<open>core/item\<close>. Records and datatypes with the source's fields and constructors.
  \<^item> \<open>Policies\<close>, \<open>PartitionHelpers\<close>, \<open>FlowEvaluator\<close>, \<open>DefinitionValidator\<close>, \<open>JsonContext\<close>: the pure
    parts, \<open>policies\<close>, \<open>partition-helpers.ts\<close>, \<open>flow/flow-evaluator.ts\<close>, \<open>core/validation\<close>
    with \<open>registry/job-registry.ts\<close>, \<open>core/execution-context\<close> with the checkpoints and job keys.
  \<^item> \<open>Builders\<close>, \<open>ScheduleRegistry\<close>, \<open>Discovery\<close>, \<open>Compiler\<close>, \<open>InProcessSchedule\<close>: \<open>builder\<close>,
    \<open>scheduling/batch-scheduled.ts\<close> with \<open>module/batch-schedule-registry.ts\<close>, \<open>decorators\<close> with
    \<open>explorer\<close>, \<open>compiler\<close> with the bootstrapper of \<open>module/nest-batch.module.ts\<close>, and
    \<open>execution/in-process-schedule.ts\<close>. A builder method or decorator is a function on the
    record of the object's fields; the scheduler is a state machine whose ticks, settling
    launches and shutdown come in any order. \<open>CompilerProperties\<close> composes them.
  \<^item> \<open>Repository\<close>, \<open>InMemoryRepository\<close>: the persistence port as a record of operations with
    its contract as the locale \<open>repository_contract\<close>, and the in-memory implementation, which
    is shown to keep it.
  \<^item> \<open>ListenerInvoker\<close>, \<open>ChunkStepExecutor\<close>, \<open>TaskletStepExecutor\<close>, \<open>JobExecutor\<close>, \<open>JobLauncher\<close>: the
    files of \<open>execution\<close>, one function per method.
  \<^item> \<open>ChunkPipeline\<close>, \<open>ChunkProperties\<close>, \<open>ChunkErrors\<close>: the locale \<open>chunk_pipeline\<close> states what the
    chunk loop relies on (a reader over a source, a transactional writer, a checkpoint) and
    \<open>chunk_step\<close> adds the step around it; inside them the loop is shown to write the source
    chunk by chunk and to resume behind the last committed chunk.
  \<^item> \<open>JobFlow\<close>, \<open>JobRun\<close>, \<open>JobProperties\<close>: \<open>flowPath\<close> is the abstract flow machine, and the locale
    \<open>job_run\<close> the contract under which the executor is shown to implement it, row by row.
  \<^item> \<open>LaunchProperties\<close>: launching, handing over, stopping, restarting and abandoning.
  \<^item> \<open>FileIO\<close>, \<open>FileProperties\<close>, \<open>FileRestart\<close>, \<open>StreamRestart\<close>: the readers and writers of \<open>io\<close>;
    what is written is read back, and a step over a file restarts behind the last line.

  \<^item> \<open>SqlRepository\<close>, \<open>SqlVariants\<close>, \<open>SqlAgreement\<close>, \<open>SqlConcurrency\<close>, \<open>SqlProperties\<close>, \<open>MikroOrm\<close>: the
    repositories of \<open>packages/typeorm\<close>, \<open>packages/postgresql/src/typeorm\<close>, \<open>packages/prisma\<close>,
    \<open>packages/drizzle\<close> and \<open>packages/mikro-orm\<close>. A table is a list of rows and an operation the
    statements it sends, one after the other; the repositories keep the contract of the port,
    carried from the first to the others by the locale \<open>repository_like\<close>, and can be exchanged
    for one another but for the points the theorems name. \<open>serverStep\<close> interleaves the statements of any number of
    transactions that create executions, with row locks as PostgreSQL has them, and with
    the status updates of running executions.
  \<^item> \<open>QueueTransport\<close>, \<open>QueueSchedule\<close>, \<open>QueueProperties\<close>: \<open>packages/bullmq/src\<close> and
    \<open>packages/kafka/src\<close>: the connections and their start and stop, the strategies that publish
    launches, the processors that run them, the schedules. The clients of Redis and Kafka
    are records of actions, arguments of the definitions.
  \<^item> \<open>ModuleWiring\<close>: \<open>module/nest-batch.module.ts\<close>, \<open>module/adapter.ts\<close>, \<open>adapters\<close>: the provider
    lists the application is assembled from, and the constructor parameters they have to fill.

  Every locale is interpreted on the model's own definitions, and the properties are stated
  over those, outside the locales, with the claim id in front of each.

  \<^bold>\<open>What the lemmas show.\<close> Type: every job either front end compiles is well formed, and a
  started application's schedules name registered jobs. Invariants: registries, unique
  instances, at most one running execution, the operator's state machine, the scheduler's
  counters. Refinement: executor against flow machine, chunk loop against the batches of the
  source, restarts against an undisturbed run, the SQL
  repositories against the contract of the port. Equivalence: the repositories against each
  other, and a message taken from a queue against the in-process strategy. Safety: no interleaving of transactions gives an
  instance two running executions. Termination of forward jobs; bounds of skip,
  retry and backoff; round trips of checkpoints, CSV files and worker arguments; and the
  behaviour on every error path, including where it is not what the documentation says.

  \<^bold>\<open>Loops and fuel.\<close> A loop with an evident measure is structural. The chunk loop and the flow
  loop may run for ever in the code, and take fuel here; \<open>OutOfFuel\<close> is an outcome of its own
  that no \<open>catch\<close> intercepts. The theorems say how much suffices: one turn more than the source
  has items for the chunk loop, one more than the rank of the flow for the flow loop, and
  for line readers the number of lines left. A job whose flow loops exhausts any fuel, and
  that this can happen is a theorem too (\<open>validated_job_can_loop\<close>).

  \<^bold>\<open>Assumptions of the model.\<close> Numbers that are not NaN or infinite are rationals: rounding is
  not modelled. Strings hold characters below 256. Ids and names are not property names of
  \<open>Object.prototype\<close> and not array indices, so plain objects behave as ordered maps. The
  clock and the generators of random ids are readings of the world. Arrays of items are
  values: user code that keeps and later changes an array is not seen. Waiting, as in a
  backoff, changes nothing. User code, the platform and third-party libraries (\<open>JSON.parse\<close>,
  time zones, cron, file systems, object stores, databases) are parameters, constrained only
  by named hypotheses of the theorems.

  \<^bold>\<open>Not modelled.\<close> The provider lists of the sibling adapters, logging and
  metric exporters, cloud launchers, webhooks, the admin pages and the deployment recipes:
  they are glue around third-party clients, behind the ports whose contracts are stated
  here. Of the SQL repositories those of MySQL, whose collations and locking clauses differ,
  are left out, and the copies of the Prisma and Drizzle ones in \<open>packages/postgresql\<close>.
\<close>

end
